theory Spec2Isabelle
  imports Main
begin

section \<open>JavaScript values of the match server\<close>

text \<open>
  The two server variants (the reactive attacker/defender game and the guessing game) are
  Node programs driven by socket events and timers.  Strings are lists of ASCII characters;
  a socket id, a match code and a move are strings.  A value that may be \<open>null\<close> or
  \<open>undefined\<close> is an option.  Scores are natural numbers (they start at 0 and are only
  incremented), counters that are decremented are integers.
\<close>

type_synonym socket_id = string
type_synonym js_move = string
type_synonym addr = nat
type_synonym handle = nat

text \<open>Truthiness of a string that may be null: null, undefined and the empty string are falsy.\<close>

definition truthy :: "string option \<Rightarrow> bool" where
  "truthy v = (case v of None \<Rightarrow> False | Some x \<Rightarrow> x \<noteq> [])"

text \<open>\<open>String.prototype.toUpperCase\<close> on ASCII text.\<close>

definition upper_char :: "char \<Rightarrow> char" where
  "upper_char c =
     (let n = (of_char c :: nat) in if 97 \<le> n \<and> n \<le> 122 then char_of (n - 32) else c)"

definition toUpperCase :: "string \<Rightarrow> string" where
  "toUpperCase x = map upper_char x"

text \<open>\<open>String.prototype.substring(a, b)\<close>: the indices are swapped when \<open>a > b\<close> and clamped
  to the length.\<close>

definition substring :: "string \<Rightarrow> nat \<Rightarrow> nat \<Rightarrow> string" where
  "substring x a b = (let lo = min a b; hi = max a b in take (hi - lo) (drop lo x))"

text \<open>
  \<open>generateMatchCode\<close>: \<open>Math.random().toString(36).substring(2, 8).toUpperCase()\<close>.
  The argument \<open>r\<close> is the text \<open>Math.random().toString(36)\<close> produced (such as
  \<open>0.4fzyo82mvyr\<close>); the random number generator itself is outside the model.
\<close>

definition generateMatchCode :: "string \<Rightarrow> string" where
  "generateMatchCode r = toUpperCase (substring r 2 8)"

text \<open>Indexing a JavaScript array: out of range gives \<open>undefined\<close>.\<close>

definition js_nth :: "'a list \<Rightarrow> nat \<Rightarrow> 'a option" where
  "js_nth xs i = (if i < length xs then Some (xs ! i) else None)"

section \<open>Data model\<close>

datatype role = Player1 | Player2

datatype mstate = Waiting | Inputting | Countdown | Playing | Guessing | RoundEnd | MatchEnd

datatype winner = WinPlayer1 | WinPlayer2 | Tie

datatype round_role = Attacker | Defender

record scores =
  score1 :: nat
  score2 :: nat

record rematch_flags =
  rematch1 :: bool
  rematch2 :: bool

record move =
  direction :: js_move
  timestamp :: int
  responded :: bool

text \<open>The fields both variants give a match object.\<close>

record match_base =
  code :: string
  player1 :: socket_id
  player2 :: "socket_id option"
  currentRound :: nat
  totalRounds :: nat
  scores :: scores
  state :: mstate
  rematchProposals :: rematch_flags

text \<open>The match object of the reactive variant.\<close>

record rmatch = match_base +
  currentAttacker :: "socket_id option"
  currentDefender :: "socket_id option"
  roundTimer :: "handle option"
  currentMove :: "move option"
  moveTimeout :: "handle option"

text \<open>The match object of the guessing variant.\<close>

record gmatch = match_base +
  combination :: "js_move list option"

text \<open>The properties the handlers store on a socket object.\<close>

record sockdata =
  matchCode :: "string option"
  playerRole :: "role option"

record guess_result =
  expected :: "js_move option"
  guessed :: js_move
  correct :: bool

text \<open>Outbound notifications, with their payloads.\<close>

datatype message =
    MatchCreated string
  | JoinError string
  | MatchStarted string socket_id "socket_id option"
  | RoundStart nat nat round_role nat
  | CountdownMsg int
  | StartAttacking nat nat
  | StartDefending nat nat
  | RoundTimerMsg int
  | IncomingMove js_move nat
  | MoveSent js_move
  | MoveMissed js_move
  | OpponentMissed js_move
  | MoveResult js_move js_move bool int scores
  | OpponentResult js_move js_move bool int scores
  | RoundEndMsg nat scores
  | MatchEndMsg scores winner
  | RematchProposed "role option"
  | RematchStarting
  | OpponentDisconnected
  | CombinationError string
  | InputCombination nat
  | WaitingForCombination nat
  | GetReady nat nat
  | WatchingOpponent nat
  | StartGuessing nat nat
  | OpponentGuessing nat
  | RoundResult nat "js_move list option" "js_move list" "guess_result list" nat scores

text \<open>\<open>Direct s\<close> is \<open>socket.emit\<close> on socket \<open>s\<close>; \<open>To r\<close> is \<open>io.to(r).emit\<close>, where
  \<open>r\<close> is a room name (a match code or a socket id) or null.\<close>

datatype target = Direct socket_id | To "string option"

text \<open>A pending timer: the closure it runs, its delay and whether it is an interval.\<close>

record 'c timer =
  callback :: 'c
  delay_ms :: nat
  repeats :: bool

text \<open>
  The server: the \<open>matches\<close> map from code to match object (objects live in \<open>heap\<close>, since
  timer closures keep a match object after it left the map), the socket objects, the rooms
  sockets joined, the pending timers and the notifications sent so far.
\<close>

record ('m, 'c) server =
  matches :: "string \<rightharpoonup> addr"
  heap :: "addr \<rightharpoonup> 'm"
  next_addr :: addr
  sockets :: "socket_id \<Rightarrow> sockdata"
  rooms :: "string \<Rightarrow> socket_id set"
  timers :: "handle \<rightharpoonup> 'c timer"
  next_timer :: handle
  outbox :: "(target \<times> message) list"

definition init_server :: "('m, 'c) server" where
  "init_server =
     \<lparr> matches = Map.empty, heap = Map.empty, next_addr = 0,
       sockets = (\<lambda>_. \<lparr> matchCode = None, playerRole = None \<rparr>),
       rooms = (\<lambda>_. {}), timers = Map.empty, next_timer = 0, outbox = [] \<rparr>"

section \<open>Primitives\<close>

definition emit :: "target \<Rightarrow> message \<Rightarrow> ('m, 'c) server \<Rightarrow> ('m, 'c) server" where
  "emit t msg s = s\<lparr> outbox := outbox s @ [(t, msg)] \<rparr>"

text \<open>\<open>setTimeout\<close> / \<open>setInterval\<close>: the handle returned is \<open>next_timer\<close> of the state before.\<close>

definition set_timer :: "'c \<Rightarrow> nat \<Rightarrow> bool \<Rightarrow> ('m, 'c) server \<Rightarrow> ('m, 'c) server" where
  "set_timer c d rep s =
     s\<lparr> timers := (timers s)(next_timer s \<mapsto> \<lparr> callback = c, delay_ms = d, repeats = rep \<rparr>),
        next_timer := Suc (next_timer s) \<rparr>"

text \<open>\<open>clearTimeout\<close> / \<open>clearInterval\<close>.\<close>

definition clear_timer :: "handle \<Rightarrow> ('m, 'c) server \<Rightarrow> ('m, 'c) server" where
  "clear_timer h s = s\<lparr> timers := (timers s)(h := None) \<rparr>"

text \<open>\<open>if (h) clearTimeout(h)\<close>: a timer handle of Node is an object, so it is truthy.\<close>

definition clear_if_set :: "handle option \<Rightarrow> ('m, 'c) server \<Rightarrow> ('m, 'c) server" where
  "clear_if_set h s = (case h of None \<Rightarrow> s | Some t \<Rightarrow> clear_timer t s)"

text \<open>A write to fields of the match object at address \<open>a\<close>.\<close>

definition upd_match :: "addr \<Rightarrow> ('m \<Rightarrow> 'm) \<Rightarrow> ('m, 'c) server \<Rightarrow> ('m, 'c) server" where
  "upd_match a f s =
     (case heap s a of None \<Rightarrow> s | Some m \<Rightarrow> s\<lparr> heap := (heap s)(a \<mapsto> f m) \<rparr>)"

text \<open>\<open>matches.get(code)\<close>, with the address of the object found.\<close>

definition get_match :: "('m, 'c) server \<Rightarrow> string option \<Rightarrow> (addr \<times> 'm) option" where
  "get_match s c =
     (case c of None \<Rightarrow> None
      | Some k \<Rightarrow>
          (case matches s k of None \<Rightarrow> None
           | Some a \<Rightarrow> (case heap s a of None \<Rightarrow> None | Some m \<Rightarrow> Some (a, m))))"

text \<open>\<open>socket.join(room)\<close>.\<close>

definition join_room :: "socket_id \<Rightarrow> string \<Rightarrow> ('m, 'c) server \<Rightarrow> ('m, 'c) server" where
  "join_room sid r s = s\<lparr> rooms := (rooms s)(r := insert sid (rooms s r)) \<rparr>"

text \<open>socket.io takes a closing socket out of every room before the \<open>disconnect\<close> handler runs.\<close>

definition leave_all :: "socket_id \<Rightarrow> ('m, 'c) server \<Rightarrow> ('m, 'c) server" where
  "leave_all sid s = s\<lparr> rooms := (\<lambda>r. rooms s r - {sid}) \<rparr>"

definition set_socket :: "socket_id \<Rightarrow> string \<Rightarrow> role \<Rightarrow> ('m, 'c) server \<Rightarrow> ('m, 'c) server" where
  "set_socket sid c r s =
     s\<lparr> sockets := (sockets s)(sid := \<lparr> matchCode = Some c, playerRole = Some r \<rparr>) \<rparr>"

text \<open>The winner, by strict comparison of the two scores.\<close>

definition winner_of :: "scores \<Rightarrow> winner" where
  "winner_of sc =
     (if score1 sc > score2 sc then WinPlayer1
      else if score2 sc > score1 sc then WinPlayer2 else Tie)"

section \<open>The reactive variant\<close>

text \<open>
  The closures the reactive server hands to \<open>setInterval\<close> and \<open>setTimeout\<close>, with the
  variables each one captured: the countdown interval of \<open>startRoundCountdown\<close> (match code
  and its local \<open>count\<close>), the round interval of \<open>startRound\<close> (match code and its local
  \<open>timeLeft\<close>), the reaction timeout of \<open>attackMove\<close> (the match object and the move), the two
  timeouts of \<open>endRound\<close> (match code; the next-round one also the match object) and the
  timeout of \<open>proposeRematch\<close> (the socket, whose \<open>matchCode\<close> is read when it fires).
\<close>

datatype rclosure =
    CountdownInterval string int
  | RoundInterval string int
  | MoveTimeout addr js_move
  | EndMatchTimeout string
  | NextRoundTimeout addr string
  | RematchTimeout socket_id

type_synonym rserver = "(rmatch, rclosure) server"

definition new_rmatch :: "string \<Rightarrow> socket_id \<Rightarrow> rmatch" where
  "new_rmatch c sid =
     \<lparr> code = c, player1 = sid, player2 = None, currentRound = 1, totalRounds = 4,
       scores = \<lparr> score1 = 0, score2 = 0 \<rparr>, state = Waiting,
       rematchProposals = \<lparr> rematch1 = False, rematch2 = False \<rparr>,
       currentAttacker = None, currentDefender = None, roundTimer = None,
       currentMove = None, moveTimeout = None \<rparr>"

text \<open>Handler of \<open>createMatch\<close>; \<open>r\<close> is the text the random number rendered to.\<close>

definition createMatch :: "socket_id \<Rightarrow> string \<Rightarrow> rserver \<Rightarrow> rserver" where
  "createMatch sid r s =
     (let c = generateMatchCode r;
          a = next_addr s;
          s1 = s\<lparr> heap := (heap s)(a \<mapsto> new_rmatch c sid), next_addr := Suc a \<rparr>;
          s2 = s1\<lparr> matches := (matches s1)(c \<mapsto> a) \<rparr>;
          s3 = join_room sid c s2;
          s4 = set_socket sid c Player1 s3
      in emit (Direct sid) (MatchCreated c) s4)"

definition startRoundCountdown :: "string option \<Rightarrow> rserver \<Rightarrow> rserver" where
  "startRoundCountdown mc s =
     (case get_match s mc of
        None \<Rightarrow> s
      | Some (a, m) \<Rightarrow>
          (let k = (case mc of None \<Rightarrow> [] | Some x \<Rightarrow> x);
               isOddRound = (currentRound m mod 2 = 1);
               att = (if isOddRound then Some (player1 m) else player2 m);
               dfd = (if isOddRound then player2 m else Some (player1 m));
               s1 = upd_match a (\<lambda>x. x\<lparr> currentAttacker := att, currentDefender := dfd,
                                          state := Countdown \<rparr>) s;
               s2 = emit (To att) (RoundStart (currentRound m) (totalRounds m) Attacker 3) s1;
               s3 = emit (To dfd) (RoundStart (currentRound m) (totalRounds m) Defender 3) s2
           in set_timer (CountdownInterval k 3) 1000 True s3))"

definition startRound :: "string \<Rightarrow> rserver \<Rightarrow> rserver" where
  "startRound mc s =
     (case get_match s (Some mc) of
        None \<Rightarrow> s
      | Some (a, m) \<Rightarrow>
          (let s1 = upd_match a (\<lambda>x. x\<lparr> state := Playing, currentMove := None \<rparr>) s;
               s2 = emit (To (currentAttacker m)) (StartAttacking 30 (currentRound m)) s1;
               s3 = emit (To (currentDefender m)) (StartDefending 30 (currentRound m)) s2;
               h = next_timer s3;
               s4 = set_timer (RoundInterval mc 30) 1000 True s3
           in upd_match a (\<lambda>x. x\<lparr> roundTimer := Some h \<rparr>) s4))"

text \<open>Handler of \<open>joinMatch\<close>.\<close>

definition joinMatch :: "socket_id \<Rightarrow> string \<Rightarrow> rserver \<Rightarrow> rserver" where
  "joinMatch sid matchCode0 s =
     (let c = toUpperCase matchCode0 in
      case get_match s (Some c) of
        None \<Rightarrow> emit (Direct sid) (JoinError ''Match not found'') s
      | Some (a, m) \<Rightarrow>
          if truthy (player2 m) then emit (Direct sid) (JoinError ''Match is full'') s
          else
            (let s1 = upd_match a (\<lambda>x. x\<lparr> player2 := Some sid \<rparr>) s;
                 s2 = join_room sid c s1;
                 s3 = set_socket sid c Player2 s2;
                 s4 = emit (To (Some c)) (MatchStarted c (player1 m) (Some sid)) s3
             in startRoundCountdown (Some c) s4))"

text \<open>Handler of \<open>attackMove\<close>; \<open>now\<close> is \<open>Date.now()\<close>.\<close>

definition attackMove :: "socket_id \<Rightarrow> js_move \<Rightarrow> int \<Rightarrow> rserver \<Rightarrow> rserver" where
  "attackMove sid mv now s =
     (case get_match s (matchCode (sockets s sid)) of
        None \<Rightarrow> s
      | Some (a, m) \<Rightarrow>
          if state m \<noteq> Playing then s
          else if Some sid \<noteq> currentAttacker m then s
          else
            (let s1 = clear_if_set (moveTimeout m) s;
                 s2 = upd_match a (\<lambda>x. x\<lparr> currentMove :=
                        Some \<lparr> direction = mv, timestamp = now, responded = False \<rparr> \<rparr>) s1;
                 s3 = emit (To (currentDefender m)) (IncomingMove mv 2000) s2;
                 s4 = emit (To (currentAttacker m)) (MoveSent mv) s3;
                 h = next_timer s4;
                 s5 = set_timer (MoveTimeout a mv) 2000 False s4
             in upd_match a (\<lambda>x. x\<lparr> moveTimeout := Some h \<rparr>) s5))"

text \<open>Handler of \<open>defendMove\<close>.\<close>

definition defendMove :: "socket_id \<Rightarrow> js_move \<Rightarrow> int \<Rightarrow> rserver \<Rightarrow> rserver" where
  "defendMove sid detectedMove now s =
     (case get_match s (matchCode (sockets s sid)) of
        None \<Rightarrow> s
      | Some (a, m) \<Rightarrow>
          if state m \<noteq> Playing then s
          else if Some sid \<noteq> currentDefender m then s
          else
            (case currentMove m of
               None \<Rightarrow> s
             | Some cm \<Rightarrow>
                 if responded cm then s
                 else
                   (let expectedMove = direction cm;
                        isCorrect = (detectedMove = expectedMove);
                        reactionTime = now - timestamp cm;
                        sc = (if isCorrect
                              then (if currentDefender m = Some (player1 m)
                                    then (scores m)\<lparr> score1 := score1 (scores m) + 1 \<rparr>
                                    else (scores m)\<lparr> score2 := score2 (scores m) + 1 \<rparr>)
                              else scores m);
                        s1 = upd_match a (\<lambda>x. x\<lparr> currentMove := Some (cm\<lparr> responded := True \<rparr>),
                                                   scores := sc \<rparr>) s;
                        s2 = (case moveTimeout m of
                                None \<Rightarrow> s1
                              | Some h \<Rightarrow> upd_match a (\<lambda>x. x\<lparr> moveTimeout := None \<rparr>)
                                            (clear_timer h s1));
                        s3 = emit (To (currentDefender m))
                               (MoveResult expectedMove detectedMove isCorrect reactionTime sc) s2;
                        s4 = emit (To (currentAttacker m))
                               (OpponentResult expectedMove detectedMove isCorrect reactionTime sc) s3
                    in upd_match a (\<lambda>x. x\<lparr> currentMove := None \<rparr>) s4)))"

definition endRound :: "string \<Rightarrow> rserver \<Rightarrow> rserver" where
  "endRound mc s =
     (case get_match s (Some mc) of
        None \<Rightarrow> s
      | Some (a, m) \<Rightarrow>
          (let s1 = (case roundTimer m of
                       None \<Rightarrow> s
                     | Some h \<Rightarrow> upd_match a (\<lambda>x. x\<lparr> roundTimer := None \<rparr>) (clear_timer h s));
               s2 = (case moveTimeout m of
                       None \<Rightarrow> s1
                     | Some h \<Rightarrow> upd_match a (\<lambda>x. x\<lparr> moveTimeout := None \<rparr>) (clear_timer h s1));
               s3 = upd_match a (\<lambda>x. x\<lparr> state := RoundEnd \<rparr>) s2;
               s4 = emit (To (Some mc)) (RoundEndMsg (currentRound m) (scores m)) s3
           in if currentRound m \<ge> totalRounds m
              then set_timer (EndMatchTimeout mc) 2000 False s4
              else set_timer (NextRoundTimeout a mc) 3000 False s4))"

definition endMatch :: "string \<Rightarrow> rserver \<Rightarrow> rserver" where
  "endMatch mc s =
     (case get_match s (Some mc) of
        None \<Rightarrow> s
      | Some (a, m) \<Rightarrow>
          (let s1 = upd_match a (\<lambda>x. x\<lparr> state := MatchEnd \<rparr>) s
           in emit (To (Some mc)) (MatchEndMsg (scores m) (winner_of (scores m))) s1))"

text \<open>Handler of \<open>proposeRematch\<close>.\<close>

definition proposeRematch :: "socket_id \<Rightarrow> rserver \<Rightarrow> rserver" where
  "proposeRematch sid s =
     (case get_match s (matchCode (sockets s sid)) of
        None \<Rightarrow> s
      | Some (a, m) \<Rightarrow>
          if state m \<noteq> MatchEnd then s
          else
            (let fl = (if playerRole (sockets s sid) = Some Player1
                       then (rematchProposals m)\<lparr> rematch1 := True \<rparr>
                       else (rematchProposals m)\<lparr> rematch2 := True \<rparr>);
                 s1 = upd_match a (\<lambda>x. x\<lparr> rematchProposals := fl \<rparr>) s;
                 s2 = (if playerRole (sockets s sid) = Some Player1
                       then emit (To (player2 m)) (RematchProposed None) s1
                       else emit (To (Some (player1 m))) (RematchProposed None) s1)
             in if rematch1 fl \<and> rematch2 fl
                then
                  (let s3 = upd_match a (\<lambda>x. x\<lparr> currentRound := 1,
                                scores := \<lparr> score1 = 0, score2 = 0 \<rparr>,
                                rematchProposals := \<lparr> rematch1 = False, rematch2 = False \<rparr> \<rparr>) s2;
                       s4 = emit (To (matchCode (sockets s sid))) RematchStarting s3
                   in set_timer (RematchTimeout sid) 1000 False s4)
                else s2))"

text \<open>Handler of \<open>disconnect\<close>.\<close>

definition disconnect :: "socket_id \<Rightarrow> rserver \<Rightarrow> rserver" where
  "disconnect sid s0 =
     (let s = leave_all sid s0 in
      case matchCode (sockets s sid) of
        None \<Rightarrow> s
      | Some k \<Rightarrow>
          if k \<noteq> [] then
            (case get_match s (Some k) of
               None \<Rightarrow> s
             | Some (a, m) \<Rightarrow>
                 (let s1 = clear_if_set (roundTimer m) s;
                      s2 = clear_if_set (moveTimeout m) s1;
                      s3 = emit (To (Some k)) OpponentDisconnected s2
                  in s3\<lparr> matches := (matches s3)(k := None) \<rparr>))
          else s)"

text \<open>
  A timer fires.  A cleared timer never fires; a timeout leaves the pending set when it
  fires, an interval stays until a \<open>clearInterval\<close>.  The locals \<open>count\<close> and \<open>timeLeft\<close>
  of the two intervals live in their closures.
\<close>

definition fire :: "handle \<Rightarrow> rserver \<Rightarrow> rserver" where
  "fire h s =
     (case timers s h of
        None \<Rightarrow> s
      | Some t \<Rightarrow>
          (case callback t of
             CountdownInterval mc n \<Rightarrow>
               (let s1 = emit (To (Some mc)) (CountdownMsg n) s;
                    s2 = s1\<lparr> timers := (timers s1)(h \<mapsto> t\<lparr> callback := CountdownInterval mc (n - 1) \<rparr>) \<rparr>
                in if n - 1 < 0 then startRound mc (clear_timer h s2) else s2)
           | RoundInterval mc n \<Rightarrow>
               (let s1 = s\<lparr> timers := (timers s)(h \<mapsto> t\<lparr> callback := RoundInterval mc (n - 1) \<rparr>) \<rparr>;
                    s2 = emit (To (Some mc)) (RoundTimerMsg (n - 1)) s1
                in if n - 1 \<le> 0 then endRound mc s2 else s2)
           | MoveTimeout a mv \<Rightarrow>
               (let s1 = clear_timer h s in
                case heap s1 a of
                  None \<Rightarrow> s1
                | Some m \<Rightarrow>
                    (case currentMove m of
                       None \<Rightarrow> s1
                     | Some cm \<Rightarrow>
                         if responded cm then s1
                         else
                           (let s2 = emit (To (currentDefender m)) (MoveMissed mv) s1;
                                s3 = emit (To (currentAttacker m)) (OpponentMissed mv) s2
                            in upd_match a (\<lambda>x. x\<lparr> currentMove := None \<rparr>) s3)))
           | EndMatchTimeout mc \<Rightarrow> endMatch mc (clear_timer h s)
           | NextRoundTimeout a mc \<Rightarrow>
               startRoundCountdown (Some mc)
                 (upd_match a (\<lambda>x. x\<lparr> currentRound := currentRound x + 1 \<rparr>) (clear_timer h s))
           | RematchTimeout sid \<Rightarrow>
               (let s1 = clear_timer h s
                in startRoundCountdown (matchCode (sockets s1 sid)) s1)))"

text \<open>The events the reactive server reacts to, and a run over a list of them.\<close>

datatype revent =
    CreateMatch socket_id string
  | JoinMatch socket_id string
  | AttackMove socket_id js_move int
  | DefendMove socket_id js_move int
  | ProposeRematch socket_id
  | Disconnect socket_id
  | Fire handle

fun rstep :: "revent \<Rightarrow> rserver \<Rightarrow> rserver" where
  "rstep (CreateMatch sid r) s = createMatch sid r s"
| "rstep (JoinMatch sid c) s = joinMatch sid c s"
| "rstep (AttackMove sid mv now) s = attackMove sid mv now s"
| "rstep (DefendMove sid mv now) s = defendMove sid mv now s"
| "rstep (ProposeRematch sid) s = proposeRematch sid s"
| "rstep (Disconnect sid) s = disconnect sid s"
| "rstep (Fire h) s = fire h s"

definition rrun :: "revent list \<Rightarrow> rserver \<Rightarrow> rserver" where
  "rrun evs s = fold rstep evs s"

definition rinit :: rserver where
  "rinit = init_server"

section \<open>The guessing variant\<close>

text \<open>
  Its closures: the countdown interval of \<open>submitCombination\<close> (the match object, the socket
  whose \<open>matchCode\<close> it reads, its local \<open>countdown\<close>), the next-round timeout of
  \<open>submitGuess\<close> and the timeout of \<open>proposeRematch\<close> (both capture the match object).
\<close>

datatype gclosure =
    GCountdownInterval addr socket_id int
  | GNextRoundTimeout addr
  | GRematchTimeout addr

type_synonym gserver = "(gmatch, gclosure) server"

text \<open>The exception a handler can throw: reading an index of \<open>null\<close>.\<close>

datatype js_error = TypeError

definition new_gmatch :: "string \<Rightarrow> socket_id \<Rightarrow> gmatch" where
  "new_gmatch c sid =
     \<lparr> code = c, player1 = sid, player2 = None, currentRound = 1, totalRounds = 3,
       scores = \<lparr> score1 = 0, score2 = 0 \<rparr>, state = Waiting,
       rematchProposals = \<lparr> rematch1 = False, rematch2 = False \<rparr>,
       combination = None \<rparr>"

definition g_createMatch :: "socket_id \<Rightarrow> string \<Rightarrow> gserver \<Rightarrow> gserver" where
  "g_createMatch sid r s =
     (let c = generateMatchCode r;
          a = next_addr s;
          s1 = s\<lparr> heap := (heap s)(a \<mapsto> new_gmatch c sid), next_addr := Suc a \<rparr>;
          s2 = s1\<lparr> matches := (matches s1)(c \<mapsto> a) \<rparr>;
          s3 = join_room sid c s2;
          s4 = set_socket sid c Player1 s3
      in emit (Direct sid) (MatchCreated c) s4)"

definition g_joinMatch :: "socket_id \<Rightarrow> string \<Rightarrow> gserver \<Rightarrow> gserver" where
  "g_joinMatch sid matchCode0 s =
     (let c = toUpperCase matchCode0 in
      case get_match s (Some c) of
        None \<Rightarrow> emit (Direct sid) (JoinError ''Match not found'') s
      | Some (a, m) \<Rightarrow>
          if truthy (player2 m) then emit (Direct sid) (JoinError ''Match is full'') s
          else
            (let s1 = upd_match a (\<lambda>x. x\<lparr> player2 := Some sid \<rparr>) s;
                 s2 = join_room sid c s1;
                 s3 = set_socket sid c Player2 s2;
                 s4 = emit (To (Some c)) (MatchStarted c (player1 m) (Some sid)) s3;
                 s5 = upd_match a (\<lambda>x. x\<lparr> state := Inputting \<rparr>) s4;
                 s6 = emit (To (Some (player1 m))) (InputCombination (currentRound m)) s5
             in emit (To (Some sid)) (WaitingForCombination (currentRound m)) s6))"

definition g_submitCombination :: "socket_id \<Rightarrow> js_move list \<Rightarrow> gserver \<Rightarrow> gserver" where
  "g_submitCombination sid comb s =
     (case get_match s (matchCode (sockets s sid)) of
        None \<Rightarrow> s
      | Some (a, m) \<Rightarrow>
          if playerRole (sockets s sid) \<noteq> Some Player1 then s
          else if length comb \<noteq> 4
          then emit (Direct sid) (CombinationError ''Combination must have 4 moves'') s
          else
            (let s1 = upd_match a (\<lambda>x. x\<lparr> combination := Some comb, state := Countdown \<rparr>) s;
                 s2 = emit (To (player2 m)) (GetReady (currentRound m) 3) s1;
                 s3 = emit (To (Some (player1 m))) (WatchingOpponent (currentRound m)) s2
             in set_timer (GCountdownInterval a sid 3) 1000 True s3))"

text \<open>One pass of the loop of \<open>submitGuess\<close>, at index \<open>i\<close>.\<close>

definition guess_at :: "js_move list \<Rightarrow> js_move list \<Rightarrow> nat \<Rightarrow> guess_result" where
  "guess_at guessedMoves comb i =
     \<lparr> expected = js_nth comb i,
       guessed = (case js_nth guessedMoves i of
                    None \<Rightarrow> ''none''
                  | Some g \<Rightarrow> if g = [] then ''none'' else g),
       correct = (js_nth guessedMoves i = js_nth comb i) \<rparr>"

definition g_submitGuess :: "socket_id \<Rightarrow> js_move list \<Rightarrow> gserver \<Rightarrow> js_error + gserver" where
  "g_submitGuess sid guessedMoves s =
     (case get_match s (matchCode (sockets s sid)) of
        None \<Rightarrow> Inr s
      | Some (a, m) \<Rightarrow>
          if playerRole (sockets s sid) \<noteq> Some Player2 then Inr s
          else
            (case combination m of
               None \<Rightarrow> Inl TypeError
             | Some comb \<Rightarrow>
                 (let results = map (guess_at guessedMoves comb) [0, 1, 2, 3];
                      correctMoves = length (filter correct results);
                      sc = (scores m)\<lparr> score2 := score2 (scores m) + correctMoves \<rparr>;
                      s1 = upd_match a (\<lambda>x. x\<lparr> scores := sc, state := RoundEnd \<rparr>) s;
                      s2 = emit (To (matchCode (sockets s sid)))
                             (RoundResult (currentRound m) (combination m) guessedMoves results
                                correctMoves sc) s1
                  in if currentRound m \<ge> totalRounds m
                     then
                       (let s3 = upd_match a (\<lambda>x. x\<lparr> state := MatchEnd \<rparr>) s2
                        in Inr (emit (To (matchCode (sockets s sid)))
                                  (MatchEndMsg sc (winner_of sc)) s3))
                     else Inr (set_timer (GNextRoundTimeout a) 3000 False s2))))"

definition g_proposeRematch :: "socket_id \<Rightarrow> gserver \<Rightarrow> gserver" where
  "g_proposeRematch sid s =
     (case get_match s (matchCode (sockets s sid)) of
        None \<Rightarrow> s
      | Some (a, m) \<Rightarrow>
          if state m \<noteq> MatchEnd then s
          else
            (let fl = (if playerRole (sockets s sid) = Some Player1
                       then (rematchProposals m)\<lparr> rematch1 := True \<rparr>
                       else (rematchProposals m)\<lparr> rematch2 := True \<rparr>);
                 s1 = upd_match a (\<lambda>x. x\<lparr> rematchProposals := fl \<rparr>) s;
                 s2 = (if playerRole (sockets s sid) = Some Player1
                       then emit (To (player2 m)) (RematchProposed (Some Player1)) s1
                       else emit (To (Some (player1 m))) (RematchProposed (Some Player2)) s1)
             in if rematch1 fl \<and> rematch2 fl
                then
                  (let s3 = upd_match a (\<lambda>x. x\<lparr> currentRound := 1,
                                scores := \<lparr> score1 = 0, score2 = 0 \<rparr>,
                                combination := None,
                                rematchProposals := \<lparr> rematch1 = False, rematch2 = False \<rparr>,
                                state := Inputting \<rparr>) s2;
                       s4 = emit (To (matchCode (sockets s sid))) RematchStarting s3
                   in set_timer (GRematchTimeout a) 1000 False s4)
                else s2))"

definition g_disconnect :: "socket_id \<Rightarrow> gserver \<Rightarrow> gserver" where
  "g_disconnect sid s0 =
     (let s = leave_all sid s0 in
      case matchCode (sockets s sid) of
        None \<Rightarrow> s
      | Some k \<Rightarrow>
          if k \<noteq> [] then
            (case get_match s (Some k) of
               None \<Rightarrow> s
             | Some (a, m) \<Rightarrow>
                 (let s1 = emit (To (Some k)) OpponentDisconnected s
                  in s1\<lparr> matches := (matches s1)(k := None) \<rparr>))
          else s)"

definition g_fire :: "handle \<Rightarrow> gserver \<Rightarrow> gserver" where
  "g_fire h s =
     (case timers s h of
        None \<Rightarrow> s
      | Some t \<Rightarrow>
          (case callback t of
             GCountdownInterval a sid n \<Rightarrow>
               (let s1 = emit (To (matchCode (sockets s sid))) (CountdownMsg n) s;
                    s2 = s1\<lparr> timers := (timers s1)(h \<mapsto> t\<lparr> callback := GCountdownInterval a sid (n - 1) \<rparr>) \<rparr>
                in if n - 1 < 0
                   then
                     (let s3 = clear_timer h s2 in
                      case heap s3 a of
                        None \<Rightarrow> s3
                      | Some m \<Rightarrow>
                          (let s4 = upd_match a (\<lambda>x. x\<lparr> state := Guessing \<rparr>) s3;
                               s5 = emit (To (player2 m)) (StartGuessing 8 (currentRound m)) s4
                           in emit (To (Some (player1 m))) (OpponentGuessing 8) s5))
                   else s2)
           | GNextRoundTimeout a \<Rightarrow>
               (let s1 = clear_timer h s in
                case heap s1 a of
                  None \<Rightarrow> s1
                | Some m \<Rightarrow>
                    (let s2 = upd_match a (\<lambda>x. x\<lparr> currentRound := currentRound x + 1,
                                  combination := None, state := Inputting \<rparr>) s1;
                         s3 = emit (To (Some (player1 m))) (InputCombination (currentRound m + 1)) s2
                     in emit (To (player2 m)) (WaitingForCombination (currentRound m + 1)) s3))
           | GRematchTimeout a \<Rightarrow>
               (let s1 = clear_timer h s in
                case heap s1 a of
                  None \<Rightarrow> s1
                | Some m \<Rightarrow>
                    (let s2 = emit (To (Some (player1 m))) (InputCombination (currentRound m)) s1
                     in emit (To (player2 m)) (WaitingForCombination (currentRound m)) s2))))"

datatype gevent =
    GCreateMatch socket_id string
  | GJoinMatch socket_id string
  | SubmitCombination socket_id "js_move list"
  | SubmitGuess socket_id "js_move list"
  | GProposeRematch socket_id
  | GDisconnect socket_id
  | GFire handle

fun gstep :: "gevent \<Rightarrow> gserver \<Rightarrow> js_error + gserver" where
  "gstep (GCreateMatch sid r) s = Inr (g_createMatch sid r s)"
| "gstep (GJoinMatch sid c) s = Inr (g_joinMatch sid c s)"
| "gstep (SubmitCombination sid comb) s = Inr (g_submitCombination sid comb s)"
| "gstep (SubmitGuess sid g) s = g_submitGuess sid g s"
| "gstep (GProposeRematch sid) s = Inr (g_proposeRematch sid s)"
| "gstep (GDisconnect sid) s = Inr (g_disconnect sid s)"
| "gstep (GFire h) s = Inr (g_fire h s)"

text \<open>A run stops at the first uncaught exception.\<close>

fun grun :: "gevent list \<Rightarrow> gserver \<Rightarrow> js_error + gserver" where
  "grun [] s = Inr s"
| "grun (e # es) s = (case gstep e s of Inl err \<Rightarrow> Inl err | Inr s' \<Rightarrow> grun es s')"

definition ginit :: gserver where
  "ginit = init_server"

section \<open>Concrete scenarios\<close>

text \<open>A reactive match under code \<open>ABCDEF\<close> whose last round has ended with scores \<open>x\<close> and \<open>y\<close>.\<close>

definition scored_match :: "nat \<Rightarrow> nat \<Rightarrow> rserver" where
  "scored_match x y =
     rinit\<lparr> matches := [''ABCDEF'' \<mapsto> 0],
            heap := [0 \<mapsto> (new_rmatch ''ABCDEF'' ''a'')\<lparr> player2 := Some ''b'', currentRound := 4,
                        scores := \<lparr> score1 = x, score2 = y \<rparr>, state := RoundEnd \<rparr>],
            next_addr := 1 \<rparr>"

text \<open>A guessing match in its last round, with the combination set and player 2 at \<open>y\<close> points.\<close>

definition last_guess_match :: "nat \<Rightarrow> gserver" where
  "last_guess_match y =
     ginit\<lparr> matches := [''ABCDEF'' \<mapsto> 0],
            heap := [0 \<mapsto> (new_gmatch ''ABCDEF'' ''a'')\<lparr> player2 := Some ''b'', currentRound := 3,
                        scores := \<lparr> score1 = 0, score2 = y \<rparr>, state := Guessing,
                        combination := Some [''up'', ''down'', ''left'', ''right''] \<rparr>],
            next_addr := 1,
            sockets := (\<lambda>x. if x = ''b'' then \<lparr> matchCode = Some ''ABCDEF'', playerRole = Some Player2 \<rparr>
                          else if x = ''a'' then \<lparr> matchCode = Some ''ABCDEF'', playerRole = Some Player1 \<rparr>
                          else \<lparr> matchCode = None, playerRole = None \<rparr>) \<rparr>"

text \<open>A reactive match created by socket \<open>a\<close>, joined by \<open>b\<close>, after the four countdown ticks:
  round 1 is being played, \<open>a\<close> attacks and \<open>b\<close> defends.\<close>

definition playing_trace :: "revent list" where
  "playing_trace = [CreateMatch ''a'' ''0.abcdefghij'', JoinMatch ''b'' ''abcdef'',
                    Fire 0, Fire 0, Fire 0, Fire 0]"

text \<open>The attacker has sent \<open>up\<close> at time 1000: the move is in flight, its timeout has handle 2.\<close>

definition in_flight :: rserver where
  "in_flight = rrun (playing_trace @ [AttackMove ''a'' ''up'' 1000]) rinit"

definition in_flight_match :: rmatch where
  "in_flight_match =
     \<lparr> code = ''ABCDEF'', player1 = ''a'', player2 = Some ''b'',
       currentRound = 1, totalRounds = 4, scores = \<lparr> score1 = 0, score2 = 0 \<rparr>,
       state = Playing, rematchProposals = \<lparr> rematch1 = False, rematch2 = False \<rparr>,
       currentAttacker = Some ''a'', currentDefender = Some ''b'',
       roundTimer = Some 1,
       currentMove = Some \<lparr> direction = ''up'', timestamp = 1000, responded = False \<rparr>,
       moveTimeout = Some 2 \<rparr>"

text \<open>A fresh match of each variant, created by socket \<open>a\<close> and waiting for a second player;
  and the same match after socket \<open>b\<close> joined.\<close>

definition waiting :: rserver where
  "waiting = createMatch ''a'' ''0.abcdefghij'' rinit"

definition g_waiting :: gserver where
  "g_waiting = g_createMatch ''a'' ''0.abcdefghij'' ginit"

definition joined :: rserver where
  "joined = joinMatch ''b'' ''abcdef'' waiting"

definition g_joined :: gserver where
  "g_joined = g_joinMatch ''b'' ''abcdef'' g_waiting"

text \<open>
  A whole reactive match: creation, join, then four rounds, each with its four countdown
  ticks, the thirty ticks of the round interval and the timeout that follows the round; the
  last event is the timeout that ends the match.  The handles are the ones the server hands
  out in this run.
\<close>

definition play_round :: "nat \<Rightarrow> revent list" where
  "play_round h = replicate 4 (Fire h) @ replicate 30 (Fire (Suc h))"

definition to_match_end :: "revent list" where
  "to_match_end =
     [CreateMatch ''a'' ''0.abcdefghij'', JoinMatch ''b'' ''abcdef''] @
     play_round 0 @ [Fire 2] @ play_round 3 @ [Fire 5] @ play_round 6 @ [Fire 8] @
     play_round 9 @ [Fire 11]"

text \<open>
  After the match has ended both players propose a rematch, and both propose again before
  the 1 s restart timeout (handle 12) has fired.  The timer events that follow are listed in
  the order of their due times: the two restart timeouts, the two countdowns (14 and 15)
  tick in turn, the two round intervals (16 and 17) tick in turn, interval 16 reaches its
  thirtieth tick and goes on ticking, and the next-round timeouts (18, 19, 20 and 22) and the
  countdowns they start (21 and 23) fire as they fall due.
\<close>

definition rematch_twice :: "revent list" where
  "rematch_twice =
     [ProposeRematch ''a'', ProposeRematch ''b'', ProposeRematch ''a'', ProposeRematch ''b'',
      Fire 12, Fire 13] @
     concat (replicate 4 [Fire 14, Fire 15]) @
     concat (replicate 29 [Fire 16, Fire 17]) @
     [Fire 16, Fire 16, Fire 16,
      Fire 18, Fire 16,
      Fire 19, Fire 21, Fire 16,
      Fire 20, Fire 23, Fire 21, Fire 16,
      Fire 22]"

text \<open>Every timer event of a run fires a timer that is pending when it comes.\<close>

fun live_run :: "revent list \<Rightarrow> rserver \<Rightarrow> bool" where
  "live_run [] s = True"
| "live_run (e # es) s =
     ((case e of Fire h \<Rightarrow> timers s h \<noteq> None | _ \<Rightarrow> True) \<and> live_run es (rstep e s))"

text \<open>The state with the notifications sent so far forgotten, and a run that forgets them
  after every event: the handlers never read the outbox.\<close>

definition quiet :: "('m, 'c) server \<Rightarrow> ('m, 'c) server" where
  "quiet s = s\<lparr> outbox := [] \<rparr>"

definition qrun :: "revent list \<Rightarrow> rserver \<Rightarrow> rserver" where
  "qrun evs s = fold (\<lambda>e x. quiet (rstep e x)) evs s"

fun qlive :: "revent list \<Rightarrow> rserver \<Rightarrow> bool" where
  "qlive [] s = True"
| "qlive (e # es) s =
     ((case e of Fire h \<Rightarrow> timers s h \<noteq> None | _ \<Rightarrow> True) \<and> qlive es (quiet (rstep e s)))"

text \<open>Guessing variant: player 1 has set a combination and player 2 answers at once, while
  the countdown interval (handle 0) has not ticked yet.\<close>

definition g_combination_set :: gserver where
  "g_combination_set = g_submitCombination ''a'' [''up'', ''down'', ''left'', ''right''] g_joined"

definition joined_match :: rmatch where
  "joined_match =
     (new_rmatch ''ABCDEF'' ''a'')\<lparr> player2 := Some ''b'', currentAttacker := Some ''a'',
        currentDefender := Some ''b'', state := Countdown \<rparr>"

definition g_joined_match :: gmatch where
  "g_joined_match = (new_gmatch ''ABCDEF'' ''a'')\<lparr> player2 := Some ''b'', state := Inputting \<rparr>"

text \<open>The reactive server when the match above has ended, and what it holds then, the
  notifications left out.\<close>

definition ended :: rserver where
  "ended = rrun to_match_end rinit"

definition ended_match :: rmatch where
  "ended_match =
     \<lparr> code = ''ABCDEF'', player1 = ''a'', player2 = Some ''b'',
       currentRound = 4, totalRounds = 4,
       scores = \<lparr> score1 = 0, score2 = 0 \<rparr>, state = MatchEnd,
       rematchProposals = \<lparr> rematch1 = False, rematch2 = False \<rparr>,
       currentAttacker = Some ''b'', currentDefender = Some ''a'',
       roundTimer = None, currentMove = None, moveTimeout = None \<rparr>"

definition ended_core :: rserver where
  "ended_core =
     \<lparr> matches = [''ABCDEF'' \<mapsto> 0],
       heap = [0 \<mapsto> ended_match],
       next_addr = Suc 0,
       sockets =
         (\<lambda>_. \<lparr> matchCode = None, playerRole = None \<rparr>)
         (''a'' := \<lparr> matchCode = Some ''ABCDEF'', playerRole = Some Player1 \<rparr>,
          ''b'' := \<lparr> matchCode = Some ''ABCDEF'', playerRole = Some Player2 \<rparr>),
       rooms = (\<lambda>_. {})(''ABCDEF'' := {''b'', ''a''}),
       timers = (\<lambda>x. None),
       next_timer = 12, outbox = [] \<rparr>"

text \<open>A whole match of the guessing variant: in each of the three rounds player 1 sets a
  combination, the countdown ticks four times and player 2 guesses (two moves right each
  time); a timeout leads to the next round.\<close>

definition g_round :: "nat \<Rightarrow> gevent list" where
  "g_round h =
     [SubmitCombination ''a'' [''up'', ''down'', ''left'', ''right''],
      GFire h, GFire h, GFire h, GFire h,
      SubmitGuess ''b'' [''up'', ''down'', ''up'', ''up'']]"

definition g_to_match_end :: "gevent list" where
  "g_to_match_end =
     [GCreateMatch ''a'' ''0.abcdefghij'', GJoinMatch ''b'' ''abcdef''] @
     g_round 0 @ [GFire 1] @ g_round 2 @ [GFire 3] @ g_round 4"

definition g_ended :: gserver where
  "g_ended = (case grun g_to_match_end ginit of Inl e \<Rightarrow> ginit | Inr s \<Rightarrow> s)"

definition g_ended_match :: gmatch where
  "g_ended_match =
     \<lparr> code = ''ABCDEF'', player1 = ''a'', player2 = Some ''b'',
       currentRound = 3, totalRounds = 3,
       scores = \<lparr> score1 = 0, score2 = 6 \<rparr>, state = MatchEnd,
       rematchProposals = \<lparr> rematch1 = False, rematch2 = False \<rparr>,
       combination = Some [''up'', ''down'', ''left'', ''right''] \<rparr>"

section \<open>Predicates used in the statements\<close>



text \<open>No match object has a point for player 1, and no \<open>matchEnd\<close> sent so far names
  player 1 the winner.\<close>

definition no_player1_points :: "gserver \<Rightarrow> bool" where
  "no_player1_points g = (\<forall>a m. heap g a = Some m \<longrightarrow> score1 (scores m) = 0)"

definition no_player1_win :: "gserver \<Rightarrow> bool" where
  "no_player1_win g = (\<forall>t sc w. (t, MatchEndMsg sc w) \<in> set (outbox g) \<longrightarrow> w \<noteq> WinPlayer1)"

section \<open>An invariant of the reactive server\<close>

text \<open>
  A move is in flight when the match is in state \<open>playing\<close> and \<open>currentMove\<close> is neither
  null nor responded.  The invariant says how the handles stored in match objects relate to
  the pending timers: a pending timer under \<open>moveTimeout\<close> of the object at \<open>a\<close> is a 2000 ms
  reaction timeout for \<open>a\<close>, a pending timer under \<open>roundTimer\<close> is a round interval, stored
  handles and pending timers were handed out earlier, the registry maps distinct codes to
  distinct objects, and a registered match with a move in flight has its reaction timeout
  pending.
\<close>

definition in_flight_move :: "rmatch \<Rightarrow> bool" where
  "in_flight_move m =
     (state m = Playing \<and> (case currentMove m of None \<Rightarrow> False | Some cm \<Rightarrow> \<not> responded cm))"

definition move_handles_owned :: "rserver \<Rightarrow> bool" where
  "move_handles_owned s =
     (\<forall>a m h t. heap s a = Some m \<and> moveTimeout m = Some h \<and> timers s h = Some t \<longrightarrow>
        (\<exists>mv. t = \<lparr> callback = MoveTimeout a mv, delay_ms = 2000, repeats = False \<rparr>))"

definition round_handles_owned :: "rserver \<Rightarrow> bool" where
  "round_handles_owned s =
     (\<forall>a m h t. heap s a = Some m \<and> roundTimer m = Some h \<and> timers s h = Some t \<longrightarrow>
        (\<exists>mc n. callback t = RoundInterval mc n))"

definition handles_bounded :: "rserver \<Rightarrow> bool" where
  "handles_bounded s =
     ((\<forall>a m h. heap s a = Some m \<and> moveTimeout m = Some h \<longrightarrow> h < next_timer s) \<and>
      (\<forall>a m h. heap s a = Some m \<and> roundTimer m = Some h \<longrightarrow> h < next_timer s))"

definition registry_sound :: "rserver \<Rightarrow> bool" where
  "registry_sound s =
     ((\<forall>k a. matches s k = Some a \<longrightarrow> a < next_addr s) \<and>
      (\<forall>k k' a. matches s k = Some a \<and> matches s k' = Some a \<longrightarrow> k = k'))"

definition pending_move_timed :: "rserver \<Rightarrow> bool" where
  "pending_move_timed s =
     (\<forall>k a m. matches s k = Some a \<and> heap s a = Some m \<and> in_flight_move m \<longrightarrow>
        (\<exists>h. moveTimeout m = Some h \<and> timers s h \<noteq> None))"

definition timers_bounded :: "rserver \<Rightarrow> bool" where
  "timers_bounded s = (\<forall>h t. timers s h = Some t \<longrightarrow> h < next_timer s)"

definition rinv :: "rserver \<Rightarrow> bool" where
  "rinv s = (move_handles_owned s \<and> round_handles_owned s \<and> handles_bounded s \<and>
             registry_sound s \<and> pending_move_timed s \<and> timers_bounded s)"

section \<open>Basic facts\<close>

lemmas prim_defs = emit_def set_timer_def clear_timer_def clear_if_set_def upd_match_def
  get_match_def join_room_def leave_all_def set_socket_def

lemma get_match_SomeD:
  "get_match s c = Some (a, m) \<Longrightarrow> \<exists>k. c = Some k \<and> matches s k = Some a \<and> heap s a = Some m"
  by (auto simp: get_match_def split: option.splits)

lemma winner_of_cases:
  "(winner_of sc = WinPlayer1) = (score1 sc > score2 sc)"
  "(winner_of sc = WinPlayer2) = (score2 sc > score1 sc)"
  "(winner_of sc = Tie) = (score1 sc = score2 sc)"
  by (auto simp: winner_of_def)

lemma get_match_heap: "get_match s c = Some (a, m) \<Longrightarrow> heap s a = Some m"
  by (auto dest: get_match_SomeD)

lemma code_abcdef:
  "generateMatchCode ''0.abcdefghij'' = ''ABCDEF''"
  "toUpperCase ''abcdef'' = ''ABCDEF''"
  "toUpperCase ''ABCDEF'' = ''ABCDEF''"
  by code_simp+

lemmas handler_defs = createMatch_def joinMatch_def startRoundCountdown_def startRound_def
  attackMove_def defendMove_def endRound_def endMatch_def proposeRematch_def disconnect_def fire_def

lemmas eval_defs = handler_defs prim_defs rrun_def rinit_def init_server_def code_abcdef
  truthy_def Let_def new_rmatch_def

lemmas g_handler_defs = g_createMatch_def g_joinMatch_def g_submitCombination_def g_submitGuess_def
  g_proposeRematch_def g_disconnect_def g_fire_def

lemmas g_eval_defs = g_handler_defs prim_defs ginit_def init_server_def code_abcdef
  truthy_def Let_def new_gmatch_def guess_at_def js_nth_def

lemma get_match_Some_iff:
  "get_match s (Some k) = Some (a, m) \<longleftrightarrow> matches s k = Some a \<and> heap s a = Some m"
  by (auto simp: get_match_def split: option.splits)

subsection \<open>The handlers do not read the outbox\<close>

lemma quiet_prims:
  "quiet (emit t msg s) = quiet s"
  "quiet (set_timer c d r s) = set_timer c d r (quiet s)"
  "quiet (clear_timer h s) = clear_timer h (quiet s)"
  "quiet (clear_if_set ho s) = clear_if_set ho (quiet s)"
  "quiet (upd_match a f s) = upd_match a f (quiet s)"
  "quiet (join_room sid k s) = join_room sid k (quiet s)"
  "quiet (leave_all sid s) = leave_all sid (quiet s)"
  "quiet (set_socket sid k ro s) = set_socket sid k ro (quiet s)"
  by (simp_all add: quiet_def prim_defs split: option.splits)

lemma quiet_get [simp]: "get_match (quiet s) c = get_match s c"
  by (simp add: quiet_def get_match_def split: option.splits)

lemma quiet_sel:
  "heap (quiet s) = heap s"
  "matches (quiet s) = matches s"
  "timers (quiet s) = timers s"
  "sockets (quiet s) = sockets s"
  "next_timer (quiet s) = next_timer s"
  "next_addr (quiet s) = next_addr s"
  "rooms (quiet s) = rooms s"
  "quiet (quiet s) = quiet s"
  by (simp_all add: quiet_def get_match_def fun_eq_iff)

lemma prim_sel:
  "matches (emit t msg s) = matches s"
  "heap (emit t msg s) = heap s"
  "next_addr (emit t msg s) = next_addr s"
  "sockets (emit t msg s) = sockets s"
  "rooms (emit t msg s) = rooms s"
  "timers (emit t msg s) = timers s"
  "next_timer (emit t msg s) = next_timer s"
  "matches (set_timer c d r s) = matches s"
  "heap (set_timer c d r s) = heap s"
  "next_addr (set_timer c d r s) = next_addr s"
  "sockets (set_timer c d r s) = sockets s"
  "rooms (set_timer c d r s) = rooms s"
  "outbox (set_timer c d r s) = outbox s"
  "matches (clear_timer h s) = matches s"
  "heap (clear_timer h s) = heap s"
  "next_addr (clear_timer h s) = next_addr s"
  "sockets (clear_timer h s) = sockets s"
  "rooms (clear_timer h s) = rooms s"
  "next_timer (clear_timer h s) = next_timer s"
  "outbox (clear_timer h s) = outbox s"
  "matches (clear_if_set ho s) = matches s"
  "heap (clear_if_set ho s) = heap s"
  "next_addr (clear_if_set ho s) = next_addr s"
  "sockets (clear_if_set ho s) = sockets s"
  "rooms (clear_if_set ho s) = rooms s"
  "next_timer (clear_if_set ho s) = next_timer s"
  "outbox (clear_if_set ho s) = outbox s"
  "matches (upd_match a f s) = matches s"
  "next_addr (upd_match a f s) = next_addr s"
  "sockets (upd_match a f s) = sockets s"
  "rooms (upd_match a f s) = rooms s"
  "timers (upd_match a f s) = timers s"
  "next_timer (upd_match a f s) = next_timer s"
  "outbox (upd_match a f s) = outbox s"
  "matches (join_room sid k s) = matches s"
  "heap (join_room sid k s) = heap s"
  "next_addr (join_room sid k s) = next_addr s"
  "sockets (join_room sid k s) = sockets s"
  "timers (join_room sid k s) = timers s"
  "next_timer (join_room sid k s) = next_timer s"
  "outbox (join_room sid k s) = outbox s"
  "matches (leave_all sid s) = matches s"
  "heap (leave_all sid s) = heap s"
  "next_addr (leave_all sid s) = next_addr s"
  "sockets (leave_all sid s) = sockets s"
  "timers (leave_all sid s) = timers s"
  "next_timer (leave_all sid s) = next_timer s"
  "outbox (leave_all sid s) = outbox s"
  "matches (set_socket sid k ro s) = matches s"
  "heap (set_socket sid k ro s) = heap s"
  "next_addr (set_socket sid k ro s) = next_addr s"
  "rooms (set_socket sid k ro s) = rooms s"
  "timers (set_socket sid k ro s) = timers s"
  "next_timer (set_socket sid k ro s) = next_timer s"
  "outbox (set_socket sid k ro s) = outbox s"
  by (simp_all add: prim_defs split: option.splits)

lemma get_match_prims:
  "get_match (emit t msg s) c = get_match s c"
  "get_match (set_timer cl d r s) c = get_match s c"
  "get_match (clear_timer h s) c = get_match s c"
  "get_match (clear_if_set ho s) c = get_match s c"
  "get_match (join_room sid k s) c = get_match s c"
  "get_match (leave_all sid s) c = get_match s c"
  "get_match (set_socket sid k ro s) c = get_match s c"
  by (simp_all add: prim_defs split: option.splits)

lemma quiet_startRoundCountdown:
  "quiet (startRoundCountdown mc s) = quiet (startRoundCountdown mc (quiet s))"
  by (simp add: startRoundCountdown_def quiet_prims quiet_sel Let_def split: option.splits prod.splits)

lemma quiet_startRound:
  "quiet (startRound mc s) = quiet (startRound mc (quiet s))"
  by (simp add: startRound_def quiet_prims quiet_sel prim_sel Let_def split: option.splits prod.splits)

lemma quiet_endRound:
  "quiet (endRound mc s) = quiet (endRound mc (quiet s))"
  by (simp add: endRound_def quiet_prims quiet_sel prim_sel Let_def split: option.splits prod.splits)

lemma quiet_endMatch:
  "quiet (endMatch mc s) = quiet (endMatch mc (quiet s))"
  by (simp add: endMatch_def quiet_prims quiet_sel prim_sel Let_def split: option.splits prod.splits)

lemma quiet_cong:
  "quiet x = quiet y \<Longrightarrow> quiet (startRound mc x) = quiet (startRound mc y)"
  "quiet x = quiet y \<Longrightarrow> quiet (startRoundCountdown mo x) = quiet (startRoundCountdown mo y)"
  "quiet x = quiet y \<Longrightarrow> quiet (endRound mc x) = quiet (endRound mc y)"
  "quiet x = quiet y \<Longrightarrow> quiet (endMatch mc x) = quiet (endMatch mc y)"
  using quiet_startRound quiet_startRoundCountdown quiet_endRound quiet_endMatch by metis+

lemma quiet_fire: "quiet (fire h s) = quiet (fire h (quiet s))"
proof (cases "timers s h")
  case None
  then show ?thesis by (simp add: fire_def quiet_sel)
next
  case (Some t)
  show ?thesis
  proof (cases "callback t")
    case (CountdownInterval mc n)
    with Some show ?thesis
      by (auto simp: fire_def quiet_sel Let_def intro!: quiet_cong)
         (simp_all add: quiet_def prim_defs)
  next
    case (RoundInterval mc n)
    with Some show ?thesis
      by (auto simp: fire_def quiet_sel Let_def intro!: quiet_cong)
         (simp_all add: quiet_def prim_defs)
  next
    case (MoveTimeout a mv)
    with Some show ?thesis
      by (simp add: fire_def quiet_prims quiet_sel prim_sel Let_def split: option.splits)
  next
    case (EndMatchTimeout mc)
    with Some show ?thesis
      by (auto simp: fire_def quiet_sel Let_def intro!: quiet_cong)
         (simp_all add: quiet_def prim_defs)
  next
    case (NextRoundTimeout a mc)
    with Some show ?thesis
      by (auto simp: fire_def quiet_sel Let_def intro!: quiet_cong)
         (simp_all add: quiet_def prim_defs split: option.splits)
  next
    case (RematchTimeout sid)
    with Some show ?thesis
      by (auto simp: fire_def quiet_sel prim_sel Let_def intro!: quiet_cong)
         (simp_all add: quiet_def prim_defs split: option.splits)
  qed
qed

lemma quiet_createMatch: "quiet (createMatch sid r s) = quiet (createMatch sid r (quiet s))"
  by (simp add: createMatch_def quiet_def prim_defs Let_def)

lemma quiet_joinMatch: "quiet (joinMatch sid c s) = quiet (joinMatch sid c (quiet s))"
  by (auto simp: joinMatch_def quiet_prims quiet_sel Let_def split: option.splits intro!: quiet_cong)

lemma quiet_attackMove: "quiet (attackMove sid mv now s) = quiet (attackMove sid mv now (quiet s))"
  by (simp add: attackMove_def quiet_prims quiet_sel prim_sel Let_def split: option.splits)

lemma quiet_defendMove: "quiet (defendMove sid mv now s) = quiet (defendMove sid mv now (quiet s))"
  by (simp add: defendMove_def quiet_prims quiet_sel prim_sel Let_def split: option.splits)

lemma quiet_proposeRematch: "quiet (proposeRematch sid s) = quiet (proposeRematch sid (quiet s))"
  by (simp add: proposeRematch_def quiet_prims quiet_sel prim_sel Let_def split: option.splits)

lemma quiet_disconnect: "quiet (disconnect sid s) = quiet (disconnect sid (quiet s))"
  by (simp add: disconnect_def quiet_def prim_defs Let_def split: option.splits)

lemma quiet_rstep: "quiet (rstep e s) = quiet (rstep e (quiet s))"
  using quiet_fire quiet_createMatch quiet_joinMatch quiet_attackMove quiet_defendMove
    quiet_proposeRematch quiet_disconnect
  by (cases e) simp_all

lemma quiet_rrun: "quiet (rrun evs s) = qrun evs (quiet s)"
proof (induction evs arbitrary: s)
  case Nil
  then show ?case by (simp add: rrun_def qrun_def)
next
  case (Cons e es)
  have "quiet (rrun (e # es) s) = qrun es (quiet (rstep e s))"
    using Cons[of "rstep e s"] by (simp add: rrun_def)
  also have "\<dots> = qrun es (quiet (rstep e (quiet s)))"
    using quiet_rstep[of e s] by simp
  finally show ?case by (simp add: qrun_def)
qed

lemma qrun_simps:
  "qrun [] s = s"
  "qrun (e # es) s = qrun es (quiet (rstep e s))"
  "qrun (xs @ ys) s = qrun ys (qrun xs s)"
  by (simp_all add: qrun_def)

lemma heap_rrun: "heap (rrun evs s) = heap (qrun evs (quiet s))"
  using quiet_rrun[of evs s] quiet_sel(1)[of "rrun evs s"] by simp

lemma timers_rrun: "timers (rrun evs s) = timers (qrun evs (quiet s))"
  using quiet_rrun[of evs s] quiet_sel(3)[of "rrun evs s"] by simp

lemma rep4: "replicate 4 x = [x, x, x, x]"
  by (simp add: eval_nat_numeral)

lemma rep30:
  "replicate 30 x =
     replicate 4 x @ replicate 4 x @ replicate 4 x @ replicate 4 x @ replicate 4 x @
     replicate 4 x @ replicate 4 x @ [x, x]"
  by (simp add: eval_nat_numeral)

lemma rep29:
  "replicate 29 x =
     replicate 4 x @ replicate 4 x @ replicate 4 x @ replicate 4 x @ replicate 4 x @
     replicate 4 x @ replicate 4 x @ [x]"
  by (simp add: eval_nat_numeral)

lemma live_run_quiet: "live_run evs s = qlive evs (quiet s)"
proof (induction evs arbitrary: s)
  case Nil
  then show ?case by simp
next
  case (Cons e es)
  have "quiet (rstep e s) = quiet (rstep e (quiet s))" by (rule quiet_rstep)
  then show ?case using Cons[of "rstep e s"] by (simp add: quiet_sel split: revent.splits)
qed

lemma live_run_append: "live_run (xs @ ys) s = (live_run xs s \<and> live_run ys (rrun xs s))"
  by (induction xs arbitrary: s) (simp_all add: rrun_def)

lemma qlive_append: "qlive (xs @ ys) s = (qlive xs s \<and> qlive ys (qrun xs s))"
  by (induction xs arbitrary: s) (simp_all add: qrun_def)

lemma rrun_append: "rrun (xs @ ys) s = rrun ys (rrun xs s)"
  by (simp add: rrun_def)

lemmas q_defs = handler_defs prim_defs rinit_def init_server_def code_abcdef
  truthy_def Let_def new_rmatch_def qrun_simps quiet_def rep4 rep30 numeral_2_eq_2[symmetric]

lemma sel_rrun:
  "matches (rrun evs s) = matches (qrun evs (quiet s))"
  "sockets (rrun evs s) = sockets (qrun evs (quiet s))"
  "next_timer (rrun evs s) = next_timer (qrun evs (quiet s))"
  "rooms (rrun evs s) = rooms (qrun evs (quiet s))"
  using quiet_rrun[of evs s] quiet_sel[of "rrun evs s"] by simp_all

section \<open>Facts about the scenarios\<close>

lemma in_flight_facts:
  "sockets in_flight ''b'' = \<lparr> matchCode = Some ''ABCDEF'', playerRole = Some Player2 \<rparr>"
  "matches in_flight ''ABCDEF'' = Some 0"
  "timers in_flight 2 = Some \<lparr> callback = MoveTimeout 0 ''up'', delay_ms = 2000, repeats = False \<rparr>"
  "heap in_flight 0 = Some in_flight_match"
  by (simp_all add: in_flight_def in_flight_match_def playing_trace_def eval_defs)

lemma in_flight_attacker:
  "sockets in_flight ''a'' = \<lparr> matchCode = Some ''ABCDEF'', playerRole = Some Player1 \<rparr>"
  "next_timer in_flight = 3"
  by (simp_all add: in_flight_def playing_trace_def eval_defs)

lemma quiet_ended: "quiet ended = ended_core"
  unfolding ended_def quiet_rrun
  by (simp add: to_match_end_def play_round_def ended_core_def ended_match_def q_defs)

lemma live_to_match_end: "live_run to_match_end rinit"
  unfolding live_run_quiet
  by (simp add: to_match_end_def play_round_def q_defs)

lemma ended_facts:
  "matches ended = matches ended_core"
  "heap ended = heap ended_core"
  "sockets ended = sockets ended_core"
  "timers ended = timers ended_core"
  "next_timer ended = next_timer ended_core"
  using quiet_sel[of ended] by (simp_all add: quiet_ended)

lemma g_ended_facts:
  "matches g_ended ''ABCDEF'' = Some 0"
  "heap g_ended 0 = Some g_ended_match"
  "sockets g_ended ''a'' = \<lparr> matchCode = Some ''ABCDEF'', playerRole = Some Player1 \<rparr>"
  "sockets g_ended ''b'' = \<lparr> matchCode = Some ''ABCDEF'', playerRole = Some Player2 \<rparr>"
  "next_timer g_ended = 5"
  "last (outbox g_ended) =
     (To (Some ''ABCDEF''), MatchEndMsg \<lparr> score1 = 0, score2 = 6 \<rparr> WinPlayer2)"
  by (simp_all add: g_ended_def g_to_match_end_def g_round_def g_ended_match_def g_eval_defs
      winner_of_def numeral_2_eq_2[symmetric])

lemma joined_facts:
  "get_match joined (matchCode (sockets joined ''a'')) = Some (0, joined_match)"
  "get_match g_joined (matchCode (sockets g_joined ''a'')) = Some (0, g_joined_match)"
  "get_match rinit (matchCode (sockets rinit ''z'')) = None"
  "get_match ginit (matchCode (sockets ginit ''z'')) = None"
  by (simp_all add: joined_def waiting_def joined_match_def eval_defs
      g_joined_def g_waiting_def g_joined_match_def g_eval_defs)

section \<open>The invariant holds in every reachable state\<close>

lemmas rinv_defs = rinv_def move_handles_owned_def round_handles_owned_def handles_bounded_def
  registry_sound_def pending_move_timed_def timers_bounded_def

lemma rinv_init: "rinv rinit"
  by (simp add: rinv_defs rinit_def init_server_def)

lemma rinv_cong:
  assumes "heap s' = heap s" "timers s' = timers s" "next_timer s' = next_timer s"
    "matches s' = matches s" "next_addr s' = next_addr s"
  shows "rinv s' = rinv s"
  using assms by (simp add: rinv_defs)

lemma rinv_D:
  assumes "rinv s"
  shows "\<And>a m h t. heap s a = Some m \<Longrightarrow> moveTimeout m = Some h \<Longrightarrow> timers s h = Some t \<Longrightarrow>
            \<exists>mv. t = \<lparr> callback = MoveTimeout a mv, delay_ms = 2000, repeats = False \<rparr>"
    and "\<And>a m h t. heap s a = Some m \<Longrightarrow> roundTimer m = Some h \<Longrightarrow> timers s h = Some t \<Longrightarrow>
            \<exists>mc n. callback t = RoundInterval mc n"
    and "\<And>a m h. heap s a = Some m \<Longrightarrow> moveTimeout m = Some h \<Longrightarrow> h < next_timer s"
    and "\<And>a m h. heap s a = Some m \<Longrightarrow> roundTimer m = Some h \<Longrightarrow> h < next_timer s"
    and "\<And>k a. matches s k = Some a \<Longrightarrow> a < next_addr s"
    and "\<And>k k' a. matches s k = Some a \<Longrightarrow> matches s k' = Some a \<Longrightarrow> k = k'"
    and "\<And>k a m. matches s k = Some a \<Longrightarrow> heap s a = Some m \<Longrightarrow> in_flight_move m \<Longrightarrow>
            \<exists>h. moveTimeout m = Some h \<and> timers s h \<noteq> None"
    and "\<And>h t. timers s h = Some t \<Longrightarrow> h < next_timer s"
  using assms by (auto simp: rinv_defs)

lemma rinv_I:
  assumes "\<And>a m h t. heap s a = Some m \<Longrightarrow> moveTimeout m = Some h \<Longrightarrow> timers s h = Some t \<Longrightarrow>
            \<exists>mv. t = \<lparr> callback = MoveTimeout a mv, delay_ms = 2000, repeats = False \<rparr>"
    and "\<And>a m h t. heap s a = Some m \<Longrightarrow> roundTimer m = Some h \<Longrightarrow> timers s h = Some t \<Longrightarrow>
            \<exists>mc n. callback t = RoundInterval mc n"
    and "\<And>a m h. heap s a = Some m \<Longrightarrow> moveTimeout m = Some h \<Longrightarrow> h < next_timer s"
    and "\<And>a m h. heap s a = Some m \<Longrightarrow> roundTimer m = Some h \<Longrightarrow> h < next_timer s"
    and "\<And>k a. matches s k = Some a \<Longrightarrow> a < next_addr s"
    and "\<And>k k' a. matches s k = Some a \<Longrightarrow> matches s k' = Some a \<Longrightarrow> k = k'"
    and "\<And>k a m. matches s k = Some a \<Longrightarrow> heap s a = Some m \<Longrightarrow> in_flight_move m \<Longrightarrow>
            \<exists>h. moveTimeout m = Some h \<and> timers s h \<noteq> None"
    and "\<And>h t. timers s h = Some t \<Longrightarrow> h < next_timer s"
  shows "rinv s"
proof -
  have 1: "move_handles_owned s"
    unfolding move_handles_owned_def using assms(1) by blast
  have 2: "round_handles_owned s"
    unfolding round_handles_owned_def using assms(2) by blast
  have 3: "handles_bounded s"
    unfolding handles_bounded_def using assms(3,4) by blast
  have 4: "registry_sound s"
    unfolding registry_sound_def using assms(5,6) by blast
  have 5: "pending_move_timed s"
    unfolding pending_move_timed_def using assms(7) by blast
  have 6: "timers_bounded s"
    unfolding timers_bounded_def using assms(8) by blast
  show ?thesis using 1 2 3 4 5 6 by (simp add: rinv_def)
qed

text \<open>The general step: one match object changes, timers are cleared, changed in place or
  added above the old handles, and the registry loses entries or none.\<close>

lemma rinv_step:
  assumes inv: "rinv s"
    and hp: "heap s' = (case heap s a of None \<Rightarrow> heap s | Some m \<Rightarrow> (heap s)(a \<mapsto> g m))"
    and nt: "next_timer s \<le> next_timer s'"
    and na: "next_addr s' = next_addr s"
    and reg: "\<And>k b. matches s' k = Some b \<Longrightarrow> matches s k = Some b"
    and old: "\<And>h t. h < next_timer s \<Longrightarrow> timers s' h = Some t \<Longrightarrow>
                \<exists>t0. timers s h = Some t0 \<and>
                  ((\<exists>b mv. callback t0 = MoveTimeout b mv) \<longrightarrow> t = t0) \<and>
                  ((\<exists>mc n. callback t0 = RoundInterval mc n) \<longrightarrow> (\<exists>mc n. callback t = RoundInterval mc n))"
    and fresh: "\<And>h t. next_timer s \<le> h \<Longrightarrow> timers s' h = Some t \<Longrightarrow> h < next_timer s'"
    and kept: "\<And>h t b mv. timers s h = Some t \<Longrightarrow> callback t = MoveTimeout b mv \<Longrightarrow> b \<noteq> a \<Longrightarrow>
                timers s' h = Some t"
    and mv_same: "\<And>m h. heap s a = Some m \<Longrightarrow> moveTimeout (g m) = Some h \<Longrightarrow>
                (moveTimeout m = Some h \<and> h < next_timer s) \<or>
                (next_timer s \<le> h \<and> h < next_timer s' \<and>
                 (\<forall>t. timers s' h = Some t \<longrightarrow>
                    (\<exists>mv. t = \<lparr> callback = MoveTimeout a mv, delay_ms = 2000, repeats = False \<rparr>)))"
    and rd_same: "\<And>m h. heap s a = Some m \<Longrightarrow> roundTimer (g m) = Some h \<Longrightarrow>
                (roundTimer m = Some h \<and> h < next_timer s) \<or>
                (next_timer s \<le> h \<and> h < next_timer s' \<and>
                 (\<forall>t. timers s' h = Some t \<longrightarrow> (\<exists>mc n. callback t = RoundInterval mc n)))"
    and fly: "\<And>k m. heap s a = Some m \<Longrightarrow> matches s' k = Some a \<Longrightarrow> in_flight_move (g m) \<Longrightarrow>
                \<exists>h. moveTimeout (g m) = Some h \<and> timers s' h \<noteq> None"
  shows "rinv s'"
proof (rule rinv_I)
  note D = rinv_D[OF inv]
  have other: "heap s b = Some m" if "heap s' b = Some m" "b \<noteq> a" for b m
    using that hp by (auto split: option.splits)
  have self: "\<exists>m0. heap s a = Some m0 \<and> m = g m0" if "heap s' a = Some m" for m
    using that hp by (auto split: option.splits)
  { fix b m h t
    assume A: "heap s' b = Some m" "moveTimeout m = Some h" "timers s' h = Some t"
    show "\<exists>mv. t = \<lparr> callback = MoveTimeout b mv, delay_ms = 2000, repeats = False \<rparr>"
    proof (cases "b = a")
      case False
      then have hb: "heap s b = Some m" using A(1) other by blast
      then have lt: "h < next_timer s" using D(3) A(2) by blast
      then obtain t0 where t0: "timers s h = Some t0"
        "(\<exists>b mv. callback t0 = MoveTimeout b mv) \<longrightarrow> t = t0"
        using old[OF lt A(3)] by blast
      then obtain mv where "t0 = \<lparr> callback = MoveTimeout b mv, delay_ms = 2000, repeats = False \<rparr>"
        using D(1)[OF hb A(2)] by blast
      then show ?thesis using t0 by auto
    next
      case True
      then obtain m0 where m0: "heap s a = Some m0" "m = g m0" using A(1) self by blast
      from mv_same[OF m0(1), of h] A(2) m0(2)
      consider "moveTimeout m0 = Some h \<and> h < next_timer s"
        | "next_timer s \<le> h \<and> h < next_timer s' \<and>
           (\<forall>t. timers s' h = Some t \<longrightarrow>
              (\<exists>mv. t = \<lparr> callback = MoveTimeout a mv, delay_ms = 2000, repeats = False \<rparr>))"
        by blast
      then show ?thesis
      proof cases
        case 1
        then obtain t0 where t0: "timers s h = Some t0"
          "(\<exists>b mv. callback t0 = MoveTimeout b mv) \<longrightarrow> t = t0"
          using old[of h t] A(3) by blast
        then obtain mv where "t0 = \<lparr> callback = MoveTimeout a mv, delay_ms = 2000, repeats = False \<rparr>"
          using D(1)[OF m0(1)] 1 by blast
        then show ?thesis using t0 True by auto
      next
        case 2
        then show ?thesis using A(3) True by blast
      qed
    qed }
  { fix b m h t
    assume A: "heap s' b = Some m" "roundTimer m = Some h" "timers s' h = Some t"
    show "\<exists>mc n. callback t = RoundInterval mc n"
    proof (cases "b = a")
      case False
      then have hb: "heap s b = Some m" using A(1) other by blast
      then have lt: "h < next_timer s" using D(4) A(2) by blast
      then obtain t0 where t0: "timers s h = Some t0"
        "(\<exists>mc n. callback t0 = RoundInterval mc n) \<longrightarrow> (\<exists>mc n. callback t = RoundInterval mc n)"
        using old[OF lt A(3)] by blast
      then show ?thesis using D(2)[OF hb A(2)] by blast
    next
      case True
      then obtain m0 where m0: "heap s a = Some m0" "m = g m0" using A(1) self by blast
      from rd_same[OF m0(1), of h] A(2) m0(2)
      consider "roundTimer m0 = Some h \<and> h < next_timer s"
        | "next_timer s \<le> h \<and> h < next_timer s' \<and>
           (\<forall>t. timers s' h = Some t \<longrightarrow> (\<exists>mc n. callback t = RoundInterval mc n))"
        by blast
      then show ?thesis
      proof cases
        case 1
        then obtain t0 where t0: "timers s h = Some t0"
          "(\<exists>mc n. callback t0 = RoundInterval mc n) \<longrightarrow> (\<exists>mc n. callback t = RoundInterval mc n)"
          using old[of h t] A(3) by blast
        then show ?thesis using D(2)[OF m0(1)] 1 by blast
      next
        case 2
        then show ?thesis using A(3) by blast
      qed
    qed }
  { fix b m h
    assume A: "heap s' b = Some m" "moveTimeout m = Some h"
    show "h < next_timer s'"
    proof (cases "b = a")
      case False
      then show ?thesis using D(3)[of b m h] other[OF A(1)] A(2) nt by auto
    next
      case True
      then obtain m0 where m0: "heap s a = Some m0" "m = g m0" using A(1) self by blast
      then show ?thesis using mv_same[OF m0(1), of h] A(2) nt by auto
    qed }
  { fix b m h
    assume A: "heap s' b = Some m" "roundTimer m = Some h"
    show "h < next_timer s'"
    proof (cases "b = a")
      case False
      then show ?thesis using D(4)[of b m h] other[OF A(1)] A(2) nt by auto
    next
      case True
      then obtain m0 where m0: "heap s a = Some m0" "m = g m0" using A(1) self by blast
      then show ?thesis using rd_same[OF m0(1), of h] A(2) nt by auto
    qed }
  { fix k b assume "matches s' k = Some b"
    then show "b < next_addr s'" using reg D(5) na by auto }
  { fix k k' b assume "matches s' k = Some b" "matches s' k' = Some b"
    then show "k = k'" using reg D(6) by blast }
  { fix k b m
    assume A: "matches s' k = Some b" "heap s' b = Some m" "in_flight_move m"
    show "\<exists>h. moveTimeout m = Some h \<and> timers s' h \<noteq> None"
    proof (cases "b = a")
      case False
      then have hb: "heap s b = Some m" using A(2) other by blast
      then obtain h where h: "moveTimeout m = Some h" "timers s h \<noteq> None"
        using D(7)[OF reg[OF A(1)] hb A(3)] by blast
      then obtain t where t: "timers s h = Some t" by auto
      then obtain mv where "t = \<lparr> callback = MoveTimeout b mv, delay_ms = 2000, repeats = False \<rparr>"
        using D(1)[OF hb h(1)] by blast
      then have "timers s' h = Some t" using kept[OF t _ False] by simp
      then show ?thesis using h(1) by auto
    next
      case True
      then obtain m0 where m0: "heap s a = Some m0" "m = g m0" using A(2) self by blast
      then show ?thesis using fly[OF m0(1), of k] A(1,3) True by auto
    qed }
  { fix h t assume A: "timers s' h = Some t"
    show "h < next_timer s'"
    proof (cases "h < next_timer s")
      case True then show ?thesis using nt by simp
    next
      case False then show ?thesis using fresh[of h t] A by simp
    qed }
qed

lemma rinv_upd:
  assumes inv: "rinv s"
    and c1: "\<And>m h. heap s a = Some m \<Longrightarrow> moveTimeout (f m) = Some h \<Longrightarrow> moveTimeout m = Some h"
    and c2: "\<And>m h. heap s a = Some m \<Longrightarrow> roundTimer (f m) = Some h \<Longrightarrow> roundTimer m = Some h"
    and c3: "\<And>m. heap s a = Some m \<Longrightarrow> in_flight_move (f m) \<Longrightarrow>
               in_flight_move m \<and> moveTimeout (f m) = moveTimeout m"
  shows "rinv (upd_match a f s)"
proof (rule rinv_step[OF inv, where a = a and g = f])
  note D = rinv_D[OF inv]
  show "heap (upd_match a f s) = (case heap s a of None \<Rightarrow> heap s | Some m \<Rightarrow> (heap s)(a \<mapsto> f m))"
    by (simp add: upd_match_def split: option.splits)
  show "next_timer s \<le> next_timer (upd_match a f s)"
    by (simp add: upd_match_def split: option.splits)
  show "next_addr (upd_match a f s) = next_addr s"
    by (simp add: upd_match_def split: option.splits)
  have tm: "timers (upd_match a f s) = timers s"
    by (simp add: upd_match_def split: option.splits)
  have mt: "matches (upd_match a f s) = matches s"
    by (simp add: upd_match_def split: option.splits)
  have ntm: "next_timer (upd_match a f s) = next_timer s"
    by (simp add: upd_match_def split: option.splits)
  { fix k b assume "matches (upd_match a f s) k = Some b"
    then show "matches s k = Some b" by (simp add: mt) }
  { fix h t assume "h < next_timer s" "timers (upd_match a f s) h = Some t"
    then show "\<exists>t0. timers s h = Some t0 \<and>
                  ((\<exists>b mv. callback t0 = MoveTimeout b mv) \<longrightarrow> t = t0) \<and>
                  ((\<exists>mc n. callback t0 = RoundInterval mc n) \<longrightarrow> (\<exists>mc n. callback t = RoundInterval mc n))"
      by (simp add: tm) }
  { fix h t assume "next_timer s \<le> h" "timers (upd_match a f s) h = Some t"
    then show "h < next_timer (upd_match a f s)" using D(8)[of h t] by (simp add: tm ntm) }
  { fix h t b mv assume "timers s h = Some t"
    then show "timers (upd_match a f s) h = Some t" by (simp add: tm) }
  { fix m h assume A: "heap s a = Some m" "moveTimeout (f m) = Some h"
    then have "moveTimeout m = Some h" using c1 by blast
    then show "(moveTimeout m = Some h \<and> h < next_timer s) \<or>
                (next_timer s \<le> h \<and> h < next_timer (upd_match a f s) \<and>
                 (\<forall>t. timers (upd_match a f s) h = Some t \<longrightarrow>
                    (\<exists>mv. t = \<lparr> callback = MoveTimeout a mv, delay_ms = 2000, repeats = False \<rparr>)))"
      using D(3)[OF A(1)] by simp }
  { fix m h assume A: "heap s a = Some m" "roundTimer (f m) = Some h"
    then have "roundTimer m = Some h" using c2 by blast
    then show "(roundTimer m = Some h \<and> h < next_timer s) \<or>
                (next_timer s \<le> h \<and> h < next_timer (upd_match a f s) \<and>
                 (\<forall>t. timers (upd_match a f s) h = Some t \<longrightarrow> (\<exists>mc n. callback t = RoundInterval mc n)))"
      using D(4)[OF A(1)] by simp }
  { fix k m assume A: "heap s a = Some m" "matches (upd_match a f s) k = Some a" "in_flight_move (f m)"
    then have B: "in_flight_move m" "moveTimeout (f m) = moveTimeout m" using c3 by blast+
    from A(2) have "matches s k = Some a" by (simp add: mt)
    then show "\<exists>h. moveTimeout (f m) = Some h \<and> timers (upd_match a f s) h \<noteq> None"
      using D(7)[OF _ A(1) B(1)] B(2) by (simp add: tm) }
qed

lemma rinv_emit [simp]: "rinv (emit t msg s) = rinv s"
  by (rule rinv_cong) (simp_all add: emit_def)

lemma rinv_join_room [simp]: "rinv (join_room sid r s) = rinv s"
  by (rule rinv_cong) (simp_all add: join_room_def)

lemma rinv_leave_all [simp]: "rinv (leave_all sid s) = rinv s"
  by (rule rinv_cong) (simp_all add: leave_all_def)

lemma rinv_set_socket [simp]: "rinv (set_socket sid c r s) = rinv s"
  by (rule rinv_cong) (simp_all add: set_socket_def)

text \<open>Timers change while no match object does.\<close>

lemma rinv_timers:
  assumes inv: "rinv s"
    and hp: "heap s' = heap s"
    and nt: "next_timer s \<le> next_timer s'"
    and na: "next_addr s' = next_addr s"
    and reg: "matches s' = matches s"
    and old: "\<And>h t. h < next_timer s \<Longrightarrow> timers s' h = Some t \<Longrightarrow>
                \<exists>t0. timers s h = Some t0 \<and>
                  ((\<exists>b mv. callback t0 = MoveTimeout b mv) \<longrightarrow> t = t0) \<and>
                  ((\<exists>mc n. callback t0 = RoundInterval mc n) \<longrightarrow> (\<exists>mc n. callback t = RoundInterval mc n))"
    and fresh: "\<And>h t. next_timer s \<le> h \<Longrightarrow> timers s' h = Some t \<Longrightarrow> h < next_timer s'"
    and kept: "\<And>h t b mv. timers s h = Some t \<Longrightarrow> callback t = MoveTimeout b mv \<Longrightarrow>
                timers s' h = Some t"
  shows "rinv s'"
proof -
  note D = rinv_D[OF inv]
  obtain a where a: "heap s a = None \<or> \<not> (\<exists>k. matches s k = Some a)"
    using D(5)[of _ "next_addr s"] by auto
  show ?thesis
  proof (rule rinv_step[OF inv, where a = a and g = "\<lambda>x. x"])
    show "heap s' = (case heap s a of None \<Rightarrow> heap s | Some m \<Rightarrow> (heap s)(a \<mapsto> m))"
      by (auto simp: hp split: option.splits)
    show "next_timer s \<le> next_timer s'" by (rule nt)
    show "next_addr s' = next_addr s" by (rule na)
    show "\<And>k b. matches s' k = Some b \<Longrightarrow> matches s k = Some b" by (simp add: reg)
    show "\<And>h t. h < next_timer s \<Longrightarrow> timers s' h = Some t \<Longrightarrow>
                \<exists>t0. timers s h = Some t0 \<and>
                  ((\<exists>b mv. callback t0 = MoveTimeout b mv) \<longrightarrow> t = t0) \<and>
                  ((\<exists>mc n. callback t0 = RoundInterval mc n) \<longrightarrow> (\<exists>mc n. callback t = RoundInterval mc n))"
      by (rule old)
    show "\<And>h t. next_timer s \<le> h \<Longrightarrow> timers s' h = Some t \<Longrightarrow> h < next_timer s'"
      by (rule fresh)
    show "\<And>h t b mv. timers s h = Some t \<Longrightarrow> callback t = MoveTimeout b mv \<Longrightarrow> b \<noteq> a \<Longrightarrow>
                timers s' h = Some t"
      using kept by blast
    { fix m h assume A: "heap s a = Some m" "moveTimeout m = Some h"
      show "(moveTimeout m = Some h \<and> h < next_timer s) \<or>
                (next_timer s \<le> h \<and> h < next_timer s' \<and>
                 (\<forall>t. timers s' h = Some t \<longrightarrow>
                    (\<exists>mv. t = \<lparr> callback = MoveTimeout a mv, delay_ms = 2000, repeats = False \<rparr>)))"
        using D(3)[OF A] A(2) by simp }
    { fix m h assume A: "heap s a = Some m" "roundTimer m = Some h"
      show "(roundTimer m = Some h \<and> h < next_timer s) \<or>
                (next_timer s \<le> h \<and> h < next_timer s' \<and>
                 (\<forall>t. timers s' h = Some t \<longrightarrow> (\<exists>mc n. callback t = RoundInterval mc n)))"
        using D(4)[OF A] A(2) by simp }
    { fix k m assume A: "heap s a = Some m" "matches s' k = Some a" "in_flight_move m"
      then show "\<exists>h. moveTimeout m = Some h \<and> timers s' h \<noteq> None"
        using a by (auto simp: reg) }
  qed
qed

lemma rinv_set_timer: "rinv s \<Longrightarrow> rinv (set_timer c d r s)"
  by (rule rinv_timers[where s = s])
     (auto simp: set_timer_def dest: rinv_D(8))

lemma rinv_clear_free:
  assumes "rinv s" "\<And>t b mv. timers s h = Some t \<Longrightarrow> callback t \<noteq> MoveTimeout b mv"
  shows "rinv (clear_timer h s)"
  using assms(1)
proof (rule rinv_timers)
  show "\<And>h' t b mv. timers s h' = Some t \<Longrightarrow> callback t = MoveTimeout b mv \<Longrightarrow>
                timers (clear_timer h s) h' = Some t"
    using assms(2) by (auto simp: clear_timer_def)
  show "\<And>h' t. next_timer s \<le> h' \<Longrightarrow> timers (clear_timer h s) h' = Some t \<Longrightarrow>
                h' < next_timer (clear_timer h s)"
    by (auto simp: clear_timer_def split: if_splits dest!: rinv_D(8)[OF assms(1)])
qed (auto simp: clear_timer_def split: if_splits)

lemma rinv_tick:
  assumes "rinv s" "timers s h = Some t"
    "(\<exists>mc n. callback t = CountdownInterval mc n \<and> c = CountdownInterval mc' n') \<or>
     (\<exists>mc n. callback t = RoundInterval mc n \<and> c = RoundInterval mc' n')"
  shows "rinv (s\<lparr> timers := (timers s)(h \<mapsto> t\<lparr> callback := c \<rparr>) \<rparr>)"
  using assms(1)
proof (rule rinv_timers)
  show "\<And>h' t' b mv. timers s h' = Some t' \<Longrightarrow> callback t' = MoveTimeout b mv \<Longrightarrow>
          timers (s\<lparr> timers := (timers s)(h \<mapsto> t\<lparr> callback := c \<rparr>) \<rparr>) h' = Some t'"
    using assms(2,3) by auto
  show "\<And>h' t'. next_timer s \<le> h' \<Longrightarrow>
          timers (s\<lparr> timers := (timers s)(h \<mapsto> t\<lparr> callback := c \<rparr>) \<rparr>) h' = Some t' \<Longrightarrow>
          h' < next_timer (s\<lparr> timers := (timers s)(h \<mapsto> t\<lparr> callback := c \<rparr>) \<rparr>)"
    using assms(2) by (auto split: if_splits dest!: rinv_D(8)[OF assms(1)])
  show "\<And>h' t'. h' < next_timer s \<Longrightarrow>
          timers (s\<lparr> timers := (timers s)(h \<mapsto> t\<lparr> callback := c \<rparr>) \<rparr>) h' = Some t' \<Longrightarrow>
          \<exists>t0. timers s h' = Some t0 \<and>
                  ((\<exists>b mv. callback t0 = MoveTimeout b mv) \<longrightarrow> t' = t0) \<and>
                  ((\<exists>mc n. callback t0 = RoundInterval mc n) \<longrightarrow> (\<exists>mc n. callback t' = RoundInterval mc n))"
    using assms(2,3) by (auto split: if_splits)
qed simp_all


lemma rinv_startRoundCountdown: "rinv s \<Longrightarrow> rinv (startRoundCountdown mc s)"
  by (auto simp: startRoundCountdown_def Let_def in_flight_move_def split: option.splits
      intro!: rinv_set_timer rinv_upd)

lemma rinv_endMatch: "rinv s \<Longrightarrow> rinv (endMatch mc s)"
  by (auto simp: endMatch_def Let_def in_flight_move_def split: option.splits
      intro!: rinv_upd)

lemma rinv_proposeRematch: "rinv s \<Longrightarrow> rinv (proposeRematch sid s)"
  by (auto simp: proposeRematch_def Let_def in_flight_move_def split: option.splits
      intro!: rinv_set_timer rinv_upd)

lemma rinv_joinMatch: "rinv s \<Longrightarrow> rinv (joinMatch sid c s)"
  by (auto simp: joinMatch_def Let_def in_flight_move_def split: option.splits
      intro!: rinv_startRoundCountdown rinv_upd)

lemma rinv_attackMove:
  assumes inv: "rinv s"
  shows "rinv (attackMove sid mv now s)"
proof (cases "get_match s (matchCode (sockets s sid))")
  case None
  then show ?thesis using inv by (simp add: attackMove_def)
next
  case (Some p)
  then obtain a m where g: "get_match s (matchCode (sockets s sid)) = Some (a, m)"
    by (cases p) auto
  then have hm: "heap s a = Some m" by (auto dest: get_match_SomeD)
  note D = rinv_D[OF inv]
  show ?thesis
  proof (cases "state m = Playing \<and> Some sid = currentAttacker m")
    case False
    then show ?thesis using inv g by (auto simp: attackMove_def)
  next
    case True
    define s' where "s' = attackMove sid mv now s"
    define g' where "g' = (\<lambda>x::rmatch. x\<lparr> currentMove :=
        Some \<lparr> direction = mv, timestamp = now, responded = False \<rparr>,
        moveTimeout := Some (next_timer s) \<rparr>)"
    define tn where "tn = \<lparr> callback = MoveTimeout a mv, delay_ms = 2000, repeats = False \<rparr>"
    have F: "heap s' = (heap s)(a \<mapsto> g' m)"
      "timers s' = (case moveTimeout m of None \<Rightarrow> timers s | Some h0 \<Rightarrow> (timers s)(h0 := None))
                     (next_timer s \<mapsto> tn)"
      "next_timer s' = Suc (next_timer s)" "matches s' = matches s" "next_addr s' = next_addr s"
      using g hm True
      by (auto simp: s'_def g'_def tn_def attackMove_def prim_defs Let_def split: option.splits)
    have "rinv s'"
    proof (rule rinv_step[OF inv, where a = a and g = g'])
      show "heap s' = (case heap s a of None \<Rightarrow> heap s | Some m \<Rightarrow> (heap s)(a \<mapsto> g' m))"
        by (simp add: F hm)
      show "next_timer s \<le> next_timer s'" by (simp add: F)
      show "next_addr s' = next_addr s" by (simp add: F)
      show "\<And>k b. matches s' k = Some b \<Longrightarrow> matches s k = Some b" by (simp add: F)
      show "\<And>h t. h < next_timer s \<Longrightarrow> timers s' h = Some t \<Longrightarrow>
                \<exists>t0. timers s h = Some t0 \<and>
                  ((\<exists>b mv. callback t0 = MoveTimeout b mv) \<longrightarrow> t = t0) \<and>
                  ((\<exists>mc n. callback t0 = RoundInterval mc n) \<longrightarrow> (\<exists>mc n. callback t = RoundInterval mc n))"
        by (auto simp: F split: option.splits if_splits)
      show "\<And>h t. next_timer s \<le> h \<Longrightarrow> timers s' h = Some t \<Longrightarrow> h < next_timer s'"
        by (auto simp: F split: option.splits if_splits dest!: D(8))
      show "\<And>h t b mv. timers s h = Some t \<Longrightarrow> callback t = MoveTimeout b mv \<Longrightarrow> b \<noteq> a \<Longrightarrow>
                timers s' h = Some t"
        using D(1)[OF hm] D(8) by (fastforce simp: F split: option.splits)
      show "\<And>m h. heap s a = Some m \<Longrightarrow> moveTimeout (g' m) = Some h \<Longrightarrow>
                (moveTimeout m = Some h \<and> h < next_timer s) \<or>
                (next_timer s \<le> h \<and> h < next_timer s' \<and>
                 (\<forall>t. timers s' h = Some t \<longrightarrow>
                    (\<exists>mv. t = \<lparr> callback = MoveTimeout a mv, delay_ms = 2000, repeats = False \<rparr>)))"
        by (auto simp: F g'_def tn_def)
      show "\<And>m h. heap s a = Some m \<Longrightarrow> roundTimer (g' m) = Some h \<Longrightarrow>
                (roundTimer m = Some h \<and> h < next_timer s) \<or>
                (next_timer s \<le> h \<and> h < next_timer s' \<and>
                 (\<forall>t. timers s' h = Some t \<longrightarrow> (\<exists>mc n. callback t = RoundInterval mc n)))"
        using D(4) by (auto simp: g'_def)
      show "\<And>k m. heap s a = Some m \<Longrightarrow> matches s' k = Some a \<Longrightarrow> in_flight_move (g' m) \<Longrightarrow>
                \<exists>h. moveTimeout (g' m) = Some h \<and> timers s' h \<noteq> None"
        by (auto simp: F g'_def)
    qed
    then show ?thesis by (simp add: s'_def)
  qed
qed


lemma rinv_defendMove:
  assumes inv: "rinv s"
  shows "rinv (defendMove sid d now s)"
proof (cases "get_match s (matchCode (sockets s sid))")
  case None
  then show ?thesis using inv by (simp add: defendMove_def)
next
  case (Some p)
  then obtain a m where g: "get_match s (matchCode (sockets s sid)) = Some (a, m)"
    by (cases p) auto
  then have hm: "heap s a = Some m" by (auto dest: get_match_SomeD)
  note D = rinv_D[OF inv]
  show ?thesis
  proof (cases "state m = Playing \<and> Some sid = currentDefender m \<and>
                (\<exists>cm. currentMove m = Some cm \<and> \<not> responded cm)")
    case False
    then show ?thesis using inv g by (auto simp: defendMove_def split: option.splits)
  next
    case True
    then obtain cm where cm: "currentMove m = Some cm" "\<not> responded cm" by blast
    define s' where "s' = defendMove sid d now s"
    define sc where "sc = (if d = direction cm
                              then (if currentDefender m = Some (player1 m)
                                    then (scores m)\<lparr> score1 := score1 (scores m) + 1 \<rparr>
                                    else (scores m)\<lparr> score2 := score2 (scores m) + 1 \<rparr>)
                              else scores m)"
    define g' where "g' = (\<lambda>x::rmatch.
        (case moveTimeout m of
           None \<Rightarrow> x\<lparr> currentMove := Some (cm\<lparr> responded := True \<rparr>), scores := sc \<rparr>
         | Some h \<Rightarrow> x\<lparr> currentMove := Some (cm\<lparr> responded := True \<rparr>), scores := sc \<rparr>
                       \<lparr> moveTimeout := None \<rparr>)\<lparr> currentMove := None \<rparr>)"
    have F: "heap s' = (heap s)(a \<mapsto> g' m)"
      "timers s' = (case moveTimeout m of None \<Rightarrow> timers s | Some h0 \<Rightarrow> (timers s)(h0 := None))"
      "next_timer s' = next_timer s" "matches s' = matches s" "next_addr s' = next_addr s"
      using g hm True cm
      by (auto simp: s'_def g'_def sc_def defendMove_def prim_defs Let_def split: option.splits)
    have "rinv s'"
    proof (rule rinv_step[OF inv, where a = a and g = g'], goal_cases)
      case 1 show ?case by (simp add: F hm)
    next
      case 2 show ?case by (simp add: F)
    next
      case 3 show ?case by (simp add: F)
    next
      case 4 then show ?case by (simp add: F)
    next
      case 5 then show ?case by (auto simp: F split: option.splits if_splits)
    next
      case 6 then show ?case by (auto simp: F split: option.splits if_splits dest!: D(8))
    next
      case (7 h t b mv')
      have "moveTimeout m \<noteq> Some h" using D(1)[OF hm _ 7(1)] 7(2,3) by auto
      then show ?case using 7(1) by (auto simp: F split: option.splits)
    next
      case 8 then show ?case using hm by (auto simp: g'_def split: option.splits)
    next
      case 9 then show ?case using D(4) by (auto simp: g'_def split: option.splits)
    next
      case 10 then show ?case by (auto simp: g'_def in_flight_move_def split: option.splits)
    qed
    then show ?thesis by (simp add: s'_def)
  qed
qed

lemma rinv_endRound:
  assumes inv: "rinv s"
  shows "rinv (endRound mc s)"
proof (cases "get_match s (Some mc)")
  case None
  then show ?thesis using inv by (simp add: endRound_def)
next
  case (Some p)
  then obtain a m where g: "get_match s (Some mc) = Some (a, m)"
    by (cases p) auto
  then have hm: "heap s a = Some m" by (auto dest: get_match_SomeD)
  note D = rinv_D[OF inv]
  define s' where "s' = endRound mc s"
  define g' where "g' = (\<lambda>x::rmatch.
      (case moveTimeout m of
         None \<Rightarrow> (case roundTimer m of None \<Rightarrow> x | Some h \<Rightarrow> x\<lparr> roundTimer := None \<rparr>)
       | Some h0 \<Rightarrow> (case roundTimer m of None \<Rightarrow> x | Some h \<Rightarrow> x\<lparr> roundTimer := None \<rparr>)
                      \<lparr> moveTimeout := None \<rparr>)\<lparr> state := RoundEnd \<rparr>)"
  define tn where "tn = \<lparr> callback = (if currentRound m \<ge> totalRounds m then EndMatchTimeout mc
      else NextRoundTimeout a mc), delay_ms = (if currentRound m \<ge> totalRounds m then 2000 else 3000),
      repeats = False \<rparr>"
  have F: "heap s' = (heap s)(a \<mapsto> g' m)"
    "timers s' = (\<lambda>h. if h = next_timer s then Some tn
                       else if Some h = roundTimer m \<or> Some h = moveTimeout m then None
                       else timers s h)"
    "next_timer s' = Suc (next_timer s)" "matches s' = matches s" "next_addr s' = next_addr s"
    using g hm
    by (auto simp: s'_def g'_def tn_def endRound_def prim_defs Let_def fun_eq_iff
        split: option.splits)
  have "rinv s'"
  proof (rule rinv_step[OF inv, where a = a and g = g'], goal_cases)
    case 1 show ?case by (simp add: F hm)
  next
    case 2 show ?case by (simp add: F)
  next
    case 3 show ?case by (simp add: F)
  next
    case 4 then show ?case by (simp add: F)
  next
    case 5 then show ?case by (auto simp: F split: option.splits if_splits)
  next
    case 6 then show ?case by (auto simp: F split: option.splits if_splits dest!: D(8))
  next
    case (7 h t b mv')
    have "moveTimeout m \<noteq> Some h" using D(1)[OF hm _ 7(1)] 7(2,3) by auto
    moreover have "roundTimer m \<noteq> Some h" using D(2)[OF hm _ 7(1)] 7(2) by auto
    moreover have "h \<noteq> next_timer s" using D(8)[OF 7(1)] by simp
    ultimately show ?case using 7(1) by (auto simp: F)
  next
    case 8 then show ?case using hm by (auto simp: g'_def split: option.splits)
  next
    case 9 then show ?case using hm by (auto simp: g'_def split: option.splits)
  next
    case 10 then show ?case by (auto simp: g'_def in_flight_move_def split: option.splits)
  qed
  then show ?thesis by (simp add: s'_def)
qed


lemma rinv_startRound:
  assumes inv: "rinv s"
  shows "rinv (startRound mc s)"
proof (cases "get_match s (Some mc)")
  case None
  then show ?thesis using inv by (simp add: startRound_def)
next
  case (Some p)
  then obtain a m where g: "get_match s (Some mc) = Some (a, m)"
    by (cases p) auto
  then have hm: "heap s a = Some m" by (auto dest: get_match_SomeD)
  note D = rinv_D[OF inv]
  define s' where "s' = startRound mc s"
  define g' where "g' = (\<lambda>x::rmatch. x\<lparr> state := Playing, currentMove := None \<rparr>
                                         \<lparr> roundTimer := Some (next_timer s) \<rparr>)"
  define tn where "tn = \<lparr> callback = RoundInterval mc 30, delay_ms = 1000, repeats = True \<rparr>"
  have F: "heap s' = (heap s)(a \<mapsto> g' m)"
    "timers s' = (timers s)(next_timer s \<mapsto> tn)"
    "next_timer s' = Suc (next_timer s)" "matches s' = matches s" "next_addr s' = next_addr s"
    using g hm
    by (auto simp: s'_def g'_def tn_def startRound_def prim_defs Let_def split: option.splits)
  have "rinv s'"
  proof (rule rinv_step[OF inv, where a = a and g = g'], goal_cases)
    case 1 show ?case by (simp add: F hm)
  next
    case 2 show ?case by (simp add: F)
  next
    case 3 show ?case by (simp add: F)
  next
    case 4 then show ?case by (simp add: F)
  next
    case 5 then show ?case by (auto simp: F split: if_splits)
  next
    case 6 then show ?case by (auto simp: F split: if_splits dest!: D(8))
  next
    case (7 h t b mv')
    have "h \<noteq> next_timer s" using D(8)[OF 7(1)] by simp
    then show ?case using 7(1) by (simp add: F)
  next
    case 8 then show ?case using D(3) by (auto simp: g'_def)
  next
    case 9 then show ?case by (auto simp: F g'_def tn_def)
  next
    case 10 then show ?case by (auto simp: g'_def in_flight_move_def)
  qed
  then show ?thesis by (simp add: s'_def)
qed

lemma rinv_disconnect:
  assumes inv0: "rinv s0"
  shows "rinv (disconnect sid s0)"
proof -
  define s where "s = leave_all sid s0"
  have inv: "rinv s" using inv0 by (simp add: s_def)
  note D = rinv_D[OF inv]
  show ?thesis
  proof (cases "\<exists>k a m. matchCode (sockets s sid) = Some k \<and> k \<noteq> [] \<and>
                   get_match s (Some k) = Some (a, m)")
    case False
    then show ?thesis using inv
      by (auto simp: disconnect_def Let_def s_def[symmetric] split: option.splits)
  next
    case True
    then obtain k a m where k: "matchCode (sockets s sid) = Some k" "k \<noteq> []"
      and g: "get_match s (Some k) = Some (a, m)" by blast
    then have hm: "heap s a = Some m" and rk: "matches s k = Some a"
      by (auto dest: get_match_SomeD)
    define s' where "s' = disconnect sid s0"
    have F: "heap s' = heap s"
      "timers s' = (\<lambda>h. if Some h = roundTimer m \<or> Some h = moveTimeout m then None
                         else timers s h)"
      "next_timer s' = next_timer s" "matches s' = (matches s)(k := None)"
      "next_addr s' = next_addr s"
      using g k
      by (auto simp: s'_def disconnect_def Let_def s_def[symmetric] clear_if_set_def
          clear_timer_def emit_def fun_eq_iff split: option.splits)
    have "rinv s'"
    proof (rule rinv_step[OF inv, where a = a and g = "\<lambda>x. x"], goal_cases)
      case 1 show ?case using hm by (auto simp: F)
    next
      case 2 show ?case by (simp add: F)
    next
      case 3 show ?case by (simp add: F)
    next
      case 4 then show ?case by (auto simp: F split: if_splits)
    next
      case 5 then show ?case by (auto simp: F split: if_splits)
    next
      case 6 then show ?case by (auto simp: F split: if_splits dest!: D(8))
    next
      case (7 h t b mv')
      have "moveTimeout m \<noteq> Some h" using D(1)[OF hm _ 7(1)] 7(2,3) by auto
      moreover have "roundTimer m \<noteq> Some h" using D(2)[OF hm _ 7(1)] 7(2) by auto
      ultimately show ?case using 7(1) by (auto simp: F)
    next
      case 8 then show ?case using D(3) by auto
    next
      case 9 then show ?case using D(4) by auto
    next
      case (10 k' m')
      then have "matches s k' = Some a" "k' \<noteq> k" by (auto simp: F split: if_splits)
      then show ?case using D(6)[OF rk, of k'] by simp
    qed
    then show ?thesis by (simp add: s'_def)
  qed
qed

lemma rinv_createMatch:
  assumes inv: "rinv s"
  shows "rinv (createMatch sid r s)"
proof -
  note D = rinv_D[OF inv]
  define s' where "s' = createMatch sid r s"
  define c where "c = generateMatchCode r"
  have F: "heap s' = (heap s)(next_addr s \<mapsto> new_rmatch c sid)"
    "timers s' = timers s" "next_timer s' = next_timer s"
    "matches s' = (matches s)(c \<mapsto> next_addr s)" "next_addr s' = Suc (next_addr s)"
    by (simp_all add: s'_def c_def createMatch_def prim_defs Let_def)
  have N: "moveTimeout (new_rmatch c sid) = None" "roundTimer (new_rmatch c sid) = None"
    "\<not> in_flight_move (new_rmatch c sid)"
    by (simp_all add: new_rmatch_def in_flight_move_def)
  have "rinv s'"
  proof (rule rinv_I, goal_cases)
    case 1 then show ?case using D(1) N by (auto simp: F split: if_splits)
  next
    case 2 then show ?case using D(2) N by (auto simp: F split: if_splits)
  next
    case 3 then show ?case using D(3) N by (auto simp: F split: if_splits)
  next
    case 4 then show ?case using D(4) N by (auto simp: F split: if_splits)
  next
    case 5 then show ?case by (auto simp: F split: if_splits dest!: D(5))
  next
    case (6 k k' a)
    then show ?case using D(5)[of k a] D(5)[of k' a] D(6)[of k a k']
      by (auto simp: F split: if_splits)
  next
    case (7 k a m)
    then show ?case using D(5)[of k a] D(7)[of k a m] N
      by (auto simp: F split: if_splits)
  next
    case 8 then show ?case using D(8) by (simp add: F)
  qed
  then show ?thesis by (simp add: s'_def)
qed

lemma rinv_fire:
  assumes inv: "rinv s"
  shows "rinv (fire h s)"
proof (cases "timers s h")
  case None
  then show ?thesis using inv by (simp add: fire_def)
next
  case (Some t)
  note D = rinv_D[OF inv]
  show ?thesis
  proof (cases "callback t")
    case (CountdownInterval mc n)
    define s2 where "s2 = s\<lparr> timers := (timers s)(h \<mapsto> t\<lparr> callback := CountdownInterval mc (n - 1) \<rparr>) \<rparr>"
    have 2: "rinv s2" unfolding s2_def
      by (rule rinv_tick[OF inv Some]) (simp add: CountdownInterval)
    have 3: "rinv (clear_timer h s2)"
      by (rule rinv_clear_free[OF 2]) (auto simp: s2_def)
    define s2' where "s2' = (emit (To (Some mc)) (CountdownMsg n) s)
        \<lparr> timers := (timers (emit (To (Some mc)) (CountdownMsg n) s))
                       (h \<mapsto> t\<lparr> callback := CountdownInterval mc (n - 1) \<rparr>) \<rparr>"
    have e: "rinv s2' = rinv s2" "rinv (clear_timer h s2') = rinv (clear_timer h s2)"
      by (rule rinv_cong; simp add: s2'_def s2_def emit_def clear_timer_def)+
    have "rinv (startRound mc (clear_timer h s2'))"
      by (rule rinv_startRound) (simp add: e 3)
    then show ?thesis using Some CountdownInterval 2 e
      by (simp add: fire_def Let_def s2'_def)
  next
    case (RoundInterval mc n)
    define s1 where "s1 = s\<lparr> timers := (timers s)(h \<mapsto> t\<lparr> callback := RoundInterval mc (n - 1) \<rparr>) \<rparr>"
    have 1: "rinv s1" unfolding s1_def
      by (rule rinv_tick[OF inv Some]) (simp add: RoundInterval)
    have "rinv (endRound mc (emit (To (Some mc)) (RoundTimerMsg (n - 1)) s1))"
      by (rule rinv_endRound) (simp add: 1)
    then show ?thesis using Some RoundInterval 1
      by (simp add: fire_def Let_def s1_def)
  next
    case (MoveTimeout a mv)
    define s' where "s' = fire h s"
    define g' where "g' = (\<lambda>x::rmatch. case currentMove x of None \<Rightarrow> x
        | Some cm \<Rightarrow> if responded cm then x else x\<lparr> currentMove := None \<rparr>)"
    have F: "heap s' = (case heap s a of None \<Rightarrow> heap s | Some m \<Rightarrow> (heap s)(a \<mapsto> g' m))"
      "timers s' = (timers s)(h := None)"
      "next_timer s' = next_timer s" "matches s' = matches s" "next_addr s' = next_addr s"
      using Some MoveTimeout
      by (auto simp: s'_def g'_def fire_def prim_defs Let_def split: option.splits)
    have "rinv s'"
    proof (rule rinv_step[OF inv, where a = a and g = g'], goal_cases)
      case 1 show ?case by (rule F(1))
    next
      case 2 show ?case by (simp add: F)
    next
      case 3 show ?case by (simp add: F)
    next
      case 4 then show ?case by (simp add: F)
    next
      case 5 then show ?case by (auto simp: F split: if_splits)
    next
      case 6 then show ?case by (auto simp: F split: if_splits dest!: D(8))
    next
      case (7 h' t' b mv')
      have "h' \<noteq> h" using 7 Some MoveTimeout by auto
      then show ?case using 7(1) by (simp add: F)
    next
      case 8 then show ?case using D(3) by (auto simp: g'_def split: option.splits if_splits)
    next
      case 9 then show ?case using D(4) by (auto simp: g'_def split: option.splits if_splits)
    next
      case 10 then show ?case
        by (auto simp: g'_def in_flight_move_def split: option.splits if_splits)
    qed
    then show ?thesis by (simp add: s'_def)
  next
    case (EndMatchTimeout mc)
    have "rinv (clear_timer h s)"
      by (rule rinv_clear_free[OF inv]) (auto simp: Some EndMatchTimeout)
    then show ?thesis using Some EndMatchTimeout
      by (simp add: fire_def rinv_endMatch)
  next
    case (NextRoundTimeout a mc)
    have "rinv (clear_timer h s)"
      by (rule rinv_clear_free[OF inv]) (auto simp: Some NextRoundTimeout)
    then have "rinv (upd_match a (\<lambda>x. x\<lparr> currentRound := currentRound x + 1 \<rparr>) (clear_timer h s))"
      by (rule rinv_upd) (auto simp: in_flight_move_def)
    then show ?thesis using Some NextRoundTimeout
      by (simp add: fire_def rinv_startRoundCountdown)
  next
    case (RematchTimeout sid)
    have "rinv (clear_timer h s)"
      by (rule rinv_clear_free[OF inv]) (auto simp: Some RematchTimeout)
    then show ?thesis using Some RematchTimeout
      by (simp add: fire_def Let_def rinv_startRoundCountdown)
  qed
qed

lemma rinv_rstep: "rinv s \<Longrightarrow> rinv (rstep e s)"
  by (cases e)
     (simp_all add: rinv_createMatch rinv_joinMatch rinv_attackMove rinv_defendMove
        rinv_proposeRematch rinv_disconnect rinv_fire)

lemma rinv_rrun: "rinv s \<Longrightarrow> rinv (rrun evs s)"
  unfolding rrun_def by (induction evs arbitrary: s) (simp_all add: rinv_rstep)

lemma reachable_move_timeout:
  assumes "get_match (rrun evs rinit) c = Some (a, m)" "state m = Playing"
    "currentMove m = Some cm" "\<not> responded cm"
  shows "\<exists>h mv. moveTimeout m = Some h \<and>
           timers (rrun evs rinit) h =
             Some \<lparr> callback = MoveTimeout a mv, delay_ms = 2000, repeats = False \<rparr>"
proof -
  have inv: "rinv (rrun evs rinit)" by (rule rinv_rrun[OF rinv_init])
  obtain k where k: "matches (rrun evs rinit) k = Some a" "heap (rrun evs rinit) a = Some m"
    using assms(1) by (auto dest: get_match_SomeD)
  have "in_flight_move m" using assms(2-4) by (simp add: in_flight_move_def)
  then obtain h where h: "moveTimeout m = Some h" "timers (rrun evs rinit) h \<noteq> None"
    using rinv_D(7)[OF inv k] by blast
  then obtain t where t: "timers (rrun evs rinit) h = Some t" by auto
  then show ?thesis using rinv_D(1)[OF inv k(2) h(1) t] h(1) by auto
qed

section \<open>C1: a response and the reaction timeout exclude each other\<close>

text \<open>The two orders, for a match whose reaction timeout \<open>h\<close> is pending.\<close>

lemma defend_or_timeout:
  assumes "get_match s (matchCode (sockets s sid)) = Some (a, m)"
    and "state m = Playing"
    and "currentDefender m = Some sid"
    and "currentMove m = Some cm"
    and "\<not> responded cm"
    and "moveTimeout m = Some h"
    and "timers s h = Some \<lparr> callback = MoveTimeout a mv, delay_ms = 2000, repeats = False \<rparr>"
  shows "\<exists>m'. heap (defendMove sid d now s) a = Some m'
           \<and> currentMove m' = None
           \<and> score1 (scores m') + score2 (scores m') =
               score1 (scores m) + score2 (scores m) + (if d = direction cm then 1 else 0)
           \<and> outbox (defendMove sid d now s) =
               outbox s @
                 [(To (Some sid),
                   MoveResult (direction cm) d (d = direction cm) (now - timestamp cm) (scores m')),
                  (To (currentAttacker m),
                   OpponentResult (direction cm) d (d = direction cm) (now - timestamp cm) (scores m'))]
           \<and> timers (defendMove sid d now s) h = None
           \<and> fire h (defendMove sid d now s) = defendMove sid d now s
           \<and> outbox (fire h s) =
               outbox s @ [(To (Some sid), MoveMissed mv), (To (currentAttacker m), OpponentMissed mv)]
           \<and> heap (fire h s) a = Some (m\<lparr> currentMove := None \<rparr>)
           \<and> defendMove sid d' now' (fire h s) = fire h s"
proof -
  have hm: "heap s a = Some m" using assms(1) by (rule get_match_heap)
  obtain k where k: "matchCode (sockets s sid) = Some k" "matches s k = Some a"
    using assms(1) by (auto dest: get_match_SomeD)
  note pre = assms hm
  have d_tm: "timers (defendMove sid d now s) h = None"
    using pre by (simp add: defendMove_def prim_defs Let_def)
  have d_heap: "\<exists>m'. heap (defendMove sid d now s) a = Some m' \<and> currentMove m' = None \<and>
             score1 (scores m') + score2 (scores m') =
               score1 (scores m) + score2 (scores m) + (if d = direction cm then 1 else 0) \<and>
             outbox (defendMove sid d now s) =
               outbox s @
                 [(To (Some sid),
                   MoveResult (direction cm) d (d = direction cm) (now - timestamp cm) (scores m')),
                  (To (currentAttacker m),
                   OpponentResult (direction cm) d (d = direction cm) (now - timestamp cm) (scores m'))]"
    using pre by (simp add: defendMove_def prim_defs Let_def)
  have f_out: "outbox (fire h s) =
           outbox s @ [(To (Some sid), MoveMissed mv), (To (currentAttacker m), OpponentMissed mv)]"
    using pre by (simp add: fire_def prim_defs Let_def)
  have f_heap: "heap (fire h s) a = Some (m\<lparr> currentMove := None \<rparr>)"
    using pre by (simp add: fire_def prim_defs Let_def)
  have f_reg: "sockets (fire h s) = sockets s" "matches (fire h s) = matches s"
    using pre by (simp_all add: fire_def prim_defs Let_def)
  have c2: "fire h (defendMove sid d now s) = defendMove sid d now s"
    using d_tm by (simp add: fire_def)
  have c3: "defendMove sid d' now' (fire h s) = fire h s"
    using k f_heap f_reg assms(2,3) by (simp add: defendMove_def get_match_def)
  show ?thesis
    using d_tm d_heap f_out f_heap c2 c3 by auto
qed

text \<open>
  Claim C1.  Take any state the server reaches from its start, a match of the registry in
  state \<open>playing\<close> whose move is in flight (not null, not responded), and let \<open>sid\<close> be the
  current defender.  Then the 2000 ms timeout \<open>h\<close> of the move is pending.  If the response
  comes first, \<open>defendMove\<close> sends \<open>moveResult\<close> and \<open>opponentResult\<close>, awards at most one
  point, nulls the move and cancels \<open>h\<close>, so the timeout no longer fires (firing \<open>h\<close> changes
  nothing).  If the timeout fires first, it sends \<open>moveMissed\<close> and \<open>opponentMissed\<close>, leaves
  the scores alone and nulls the move, and a later \<open>defendMove\<close> changes nothing.  In both
  orders exactly one pair of outcome notifications is sent.
\<close>

theorem move_resolution_excludes_timeout:
  assumes "s = rrun evs rinit"
    and "get_match s (matchCode (sockets s sid)) = Some (a, m)"
    and "state m = Playing"
    and "currentDefender m = Some sid"
    and "currentMove m = Some cm"
    and "\<not> responded cm"
  shows "\<exists>h mv. moveTimeout m = Some h
           \<and> timers s h = Some \<lparr> callback = MoveTimeout a mv, delay_ms = 2000, repeats = False \<rparr>
           \<and> (\<exists>m'. heap (defendMove sid d now s) a = Some m'
           \<and> currentMove m' = None
           \<and> score1 (scores m') + score2 (scores m') =
               score1 (scores m) + score2 (scores m) + (if d = direction cm then 1 else 0)
           \<and> outbox (defendMove sid d now s) =
               outbox s @
                 [(To (Some sid),
                   MoveResult (direction cm) d (d = direction cm) (now - timestamp cm) (scores m')),
                  (To (currentAttacker m),
                   OpponentResult (direction cm) d (d = direction cm) (now - timestamp cm) (scores m'))]
           \<and> timers (defendMove sid d now s) h = None
           \<and> fire h (defendMove sid d now s) = defendMove sid d now s
           \<and> outbox (fire h s) =
               outbox s @ [(To (Some sid), MoveMissed mv), (To (currentAttacker m), OpponentMissed mv)]
           \<and> heap (fire h s) a = Some (m\<lparr> currentMove := None \<rparr>)
           \<and> defendMove sid d' now' (fire h s) = fire h s)"
proof -
  obtain h mv where h: "moveTimeout m = Some h"
    "timers s h = Some \<lparr> callback = MoveTimeout a mv, delay_ms = 2000, repeats = False \<rparr>"
    using reachable_move_timeout[of evs "matchCode (sockets s sid)" a m cm] assms by auto
  show ?thesis
    using defend_or_timeout[OF assms(2-6) h, of d now d' now'] h by blast
qed

theorem move_resolution_excludes_timeout_witness:
  "in_flight = rrun (playing_trace @ [AttackMove ''a'' ''up'' 1000]) rinit
   \<and> get_match in_flight (matchCode (sockets in_flight ''b'')) = Some (0, in_flight_match)
   \<and> state in_flight_match = Playing
   \<and> currentDefender in_flight_match = Some ''b''
   \<and> currentMove in_flight_match =
        Some \<lparr> direction = ''up'', timestamp = 1000, responded = False \<rparr>
   \<and> moveTimeout in_flight_match = Some 2
   \<and> timers in_flight 2 =
        Some \<lparr> callback = MoveTimeout 0 ''up'', delay_ms = 2000, repeats = False \<rparr>
   \<and> outbox (fire 2 (defendMove ''b'' ''up'' 1999 in_flight)) =
        outbox in_flight @
          [(To (Some ''b''), MoveResult ''up'' ''up'' True 999 \<lparr> score1 = 0, score2 = 1 \<rparr>),
           (To (Some ''a''), OpponentResult ''up'' ''up'' True 999 \<lparr> score1 = 0, score2 = 1 \<rparr>)]
   \<and> outbox (defendMove ''b'' ''up'' 2001 (fire 2 in_flight)) =
        outbox in_flight @
          [(To (Some ''b''), MoveMissed ''up''), (To (Some ''a''), OpponentMissed ''up'')]
   \<and> map_option scores (heap (defendMove ''b'' ''up'' 2001 (fire 2 in_flight)) 0) =
        Some \<lparr> score1 = 0, score2 = 0 \<rparr>"
proof -
  have h0: "in_flight = rrun (playing_trace @ [AttackMove ''a'' ''up'' 1000]) rinit"
    by (rule in_flight_def)
  have h1: "get_match in_flight (matchCode (sockets in_flight ''b'')) = Some (0, in_flight_match)"
    by (simp add: get_match_def in_flight_facts)
  have h2: "state in_flight_match = Playing"
    and h3: "currentDefender in_flight_match = Some ''b''"
    and h4: "currentMove in_flight_match =
        Some \<lparr> direction = ''up'', timestamp = 1000, responded = False \<rparr>"
    and h5: "\<not> responded \<lparr> direction = ''up'', timestamp = 1000, responded = False \<rparr>"
    and h6: "moveTimeout in_flight_match = Some 2"
    by (simp_all add: in_flight_match_def)
  note h7 = in_flight_facts(3)
  from move_resolution_excludes_timeout[OF h0 h1 h2 h3 h4 h5,
        of "''up''" 1999 "''up''" 2001]
  obtain h mv m' where hh: "moveTimeout in_flight_match = Some h"
     "timers in_flight h =
        Some \<lparr> callback = MoveTimeout 0 mv, delay_ms = 2000, repeats = False \<rparr>"
    and mm: "heap (defendMove ''b'' ''up'' 1999 in_flight) 0 = Some m'"
     "outbox (defendMove ''b'' ''up'' 1999 in_flight) =
        outbox in_flight @
          [(To (Some ''b''), MoveResult ''up'' ''up'' True 999 (scores m')),
           (To (currentAttacker in_flight_match), OpponentResult ''up'' ''up'' True 999 (scores m'))]"
     "fire h (defendMove ''b'' ''up'' 1999 in_flight) = defendMove ''b'' ''up'' 1999 in_flight"
     "outbox (fire h in_flight) =
        outbox in_flight @
          [(To (Some ''b''), MoveMissed mv), (To (currentAttacker in_flight_match), OpponentMissed mv)]"
     "heap (fire h in_flight) 0 = Some (in_flight_match\<lparr> currentMove := None \<rparr>)"
     "defendMove ''b'' ''up'' 2001 (fire h in_flight) = fire h in_flight"
    by auto
  have e: "h = 2" "mv = ''up''" using hh h6 h7 by auto
  note m' = mm[unfolded e]
  have sc: "scores m' = \<lparr> score1 = 0, score2 = 1 \<rparr>"
    using m'(1) h1 in_flight_facts
    by (auto simp: defendMove_def prim_defs Let_def in_flight_match_def)
  show ?thesis
    using h0 h1 h2 h3 h4 h6 h7 m' sc by (simp add: in_flight_match_def)
qed

section \<open>C2: the winner reported at the end of a match\<close>

lemma scored_match_get:
  "get_match (scored_match x y) (Some ''ABCDEF'') =
     Some (0, (new_rmatch ''ABCDEF'' ''a'')\<lparr> player2 := Some ''b'', currentRound := 4,
                        scores := \<lparr> score1 = x, score2 = y \<rparr>, state := RoundEnd \<rparr>)"
  by (simp add: scored_match_def get_match_def rinit_def init_server_def)

lemma last_guess_match_get:
  "get_match (last_guess_match y) (matchCode (sockets (last_guess_match y) ''b'')) =
     Some (0, (new_gmatch ''ABCDEF'' ''a'')\<lparr> player2 := Some ''b'', currentRound := 3,
                        scores := \<lparr> score1 = 0, score2 = y \<rparr>, state := Guessing,
                        combination := Some [''up'', ''down'', ''left'', ''right''] \<rparr>)"
  by (simp add: last_guess_match_def get_match_def ginit_def init_server_def)

text \<open>
  Claim C2.  \<open>endMatch\<close> on a match of the registry sets its state to \<open>matchEnd\<close> and sends
  \<open>matchEnd\<close> to the match room with the scores and a winner that is \<open>player1\<close> iff
  score1 > score2, \<open>player2\<close> iff score2 > score1 and \<open>tie\<close> iff the scores are equal.
  The match-end branch of \<open>submitGuess\<close> in the guessing variant (last round, combination
  set, sender is player 2) reports the winner of the updated scores by the same rule.
\<close>

theorem endMatch_winner:
  "(get_match s (Some mc) = Some (a, m) \<longrightarrow>
      (\<exists>w. outbox (endMatch mc s) = outbox s @ [(To (Some mc), MatchEndMsg (scores m) w)]
          \<and> map_option state (heap (endMatch mc s) a) = Some MatchEnd
          \<and> (w = WinPlayer1) = (score1 (scores m) > score2 (scores m))
          \<and> (w = WinPlayer2) = (score2 (scores m) > score1 (scores m))
          \<and> (w = Tie) = (score1 (scores m) = score2 (scores m))))
   \<and> (get_match g (matchCode (sockets g sid)) = Some (b, gm) \<and>
        playerRole (sockets g sid) = Some Player2 \<and> combination gm = Some comb \<and>
        currentRound gm \<ge> totalRounds gm \<longrightarrow>
      (\<exists>g' sc w. g_submitGuess sid guesses g = Inr g'
          \<and> map_option scores (heap g' b) = Some sc
          \<and> map_option state (heap g' b) = Some MatchEnd
          \<and> last (outbox g') = (To (matchCode (sockets g sid)), MatchEndMsg sc w)
          \<and> (w = WinPlayer1) = (score1 sc > score2 sc)
          \<and> (w = WinPlayer2) = (score2 sc > score1 sc)
          \<and> (w = Tie) = (score1 sc = score2 sc)))"
proof (intro conjI impI)
  assume h: "get_match s (Some mc) = Some (a, m)"
  then have hm: "heap s a = Some m" by (auto dest: get_match_SomeD)
  show "\<exists>w. outbox (endMatch mc s) = outbox s @ [(To (Some mc), MatchEndMsg (scores m) w)]
          \<and> map_option state (heap (endMatch mc s) a) = Some MatchEnd
          \<and> (w = WinPlayer1) = (score1 (scores m) > score2 (scores m))
          \<and> (w = WinPlayer2) = (score2 (scores m) > score1 (scores m))
          \<and> (w = Tie) = (score1 (scores m) = score2 (scores m))"
    using h hm by (intro exI[of _ "winner_of (scores m)"])
      (simp add: endMatch_def emit_def upd_match_def winner_of_cases)
next
  assume h: "get_match g (matchCode (sockets g sid)) = Some (b, gm) \<and>
        playerRole (sockets g sid) = Some Player2 \<and> combination gm = Some comb \<and>
        currentRound gm \<ge> totalRounds gm"
  then have hm: "heap g b = Some gm" by (auto dest: get_match_SomeD)
  show "\<exists>g' sc w. g_submitGuess sid guesses g = Inr g'
          \<and> map_option scores (heap g' b) = Some sc
          \<and> map_option state (heap g' b) = Some MatchEnd
          \<and> last (outbox g') = (To (matchCode (sockets g sid)), MatchEndMsg sc w)
          \<and> (w = WinPlayer1) = (score1 sc > score2 sc)
          \<and> (w = WinPlayer2) = (score2 sc > score1 sc)
          \<and> (w = Tie) = (score1 sc = score2 sc)"
    using h hm by (simp add: g_submitGuess_def emit_def upd_match_def winner_of_cases Let_def)
qed

theorem endMatch_winner_witness:
  "last (outbox (endMatch ''ABCDEF'' (scored_match 3 1))) =
      (To (Some ''ABCDEF''), MatchEndMsg \<lparr> score1 = 3, score2 = 1 \<rparr> WinPlayer1)
   \<and> last (outbox (endMatch ''ABCDEF'' (scored_match 2 2))) =
      (To (Some ''ABCDEF''), MatchEndMsg \<lparr> score1 = 2, score2 = 2 \<rparr> Tie)
   \<and> last (outbox (endMatch ''ABCDEF'' (scored_match 0 4))) =
      (To (Some ''ABCDEF''), MatchEndMsg \<lparr> score1 = 0, score2 = 4 \<rparr> WinPlayer2)
   \<and> (\<exists>g'. g_submitGuess ''b'' [''up'', ''down'', ''up'', ''up''] (last_guess_match 1) = Inr g'
         \<and> last (outbox g') =
             (To (Some ''ABCDEF''), MatchEndMsg \<lparr> score1 = 0, score2 = 3 \<rparr> WinPlayer2))"
proof -
  have a: "\<exists>w. last (outbox (endMatch ''ABCDEF'' (scored_match x y))) =
              (To (Some ''ABCDEF''), MatchEndMsg \<lparr> score1 = x, score2 = y \<rparr> w)
          \<and> (w = WinPlayer1) = (x > y) \<and> (w = WinPlayer2) = (y > x) \<and> (w = Tie) = (x = y)"
    for x y
    using endMatch_winner[THEN conjunct1, rule_format, OF scored_match_get[of x y]]
    by (auto simp: new_rmatch_def)
  have pre: "get_match (last_guess_match 1) (matchCode (sockets (last_guess_match 1) ''b'')) =
               Some (0, (new_gmatch ''ABCDEF'' ''a'')\<lparr> player2 := Some ''b'', currentRound := 3,
                        scores := \<lparr> score1 = 0, score2 = 1 \<rparr>, state := Guessing,
                        combination := Some [''up'', ''down'', ''left'', ''right''] \<rparr>)
             \<and> playerRole (sockets (last_guess_match 1) ''b'') = Some Player2
             \<and> combination ((new_gmatch ''ABCDEF'' ''a'')\<lparr> player2 := Some ''b'', currentRound := 3,
                        scores := \<lparr> score1 = 0, score2 = 1 \<rparr>, state := Guessing,
                        combination := Some [''up'', ''down'', ''left'', ''right''] \<rparr>)
                 = Some [''up'', ''down'', ''left'', ''right'']
             \<and> totalRounds ((new_gmatch ''ABCDEF'' ''a'')\<lparr> player2 := Some ''b'', currentRound := 3,
                        scores := \<lparr> score1 = 0, score2 = 1 \<rparr>, state := Guessing,
                        combination := Some [''up'', ''down'', ''left'', ''right''] \<rparr>)
                 \<le> currentRound ((new_gmatch ''ABCDEF'' ''a'')\<lparr> player2 := Some ''b'', currentRound := 3,
                        scores := \<lparr> score1 = 0, score2 = 1 \<rparr>, state := Guessing,
                        combination := Some [''up'', ''down'', ''left'', ''right''] \<rparr>)"
    using last_guess_match_get[of 1]
    by (simp add: last_guess_match_def new_gmatch_def)
  from endMatch_winner[THEN conjunct2, rule_format, OF pre,
        of "[''up'', ''down'', ''up'', ''up'']"]
  obtain g' sc w where g: "g_submitGuess ''b'' [''up'', ''down'', ''up'', ''up''] (last_guess_match 1) = Inr g'"
      "map_option scores (heap g' 0) = Some sc"
      "last (outbox g') = (To (matchCode (sockets (last_guess_match 1) ''b'')), MatchEndMsg sc w)"
      "(w = WinPlayer2) = (score2 sc > score1 sc)"
    by blast
  have sc: "map_option scores (heap g' 0) = Some \<lparr> score1 = 0, score2 = 3 \<rparr>"
    using g(1) last_guess_match_get[of 1]
    by (auto simp: g_submitGuess_def last_guess_match_def new_gmatch_def ginit_def init_server_def
        get_match_def emit_def upd_match_def guess_at_def js_nth_def Let_def)
  have "sc = \<lparr> score1 = 0, score2 = 3 \<rparr>" using g(2) sc by simp
  then have "\<exists>g'. g_submitGuess ''b'' [''up'', ''down'', ''up'', ''up''] (last_guess_match 1) = Inr g'
         \<and> last (outbox g') =
             (To (Some ''ABCDEF''), MatchEndMsg \<lparr> score1 = 0, score2 = 3 \<rparr> WinPlayer2)"
    using g by (auto simp: last_guess_match_def)
  with a[of 3 1] a[of 2 2] a[of 0 4] show ?thesis by auto
qed

section \<open>C3: a disconnect leaves the countdown interval running\<close>

text \<open>
  Claim C3 fails on the code.  In the scenario \<open>joined\<close> the countdown of round 1 is running
  (interval 0).  When player \<open>b\<close> disconnects, the match leaves the registry and the room is
  told \<open>opponentDisconnected\<close>, but interval 0 is not cancelled: \<open>disconnect\<close> clears only
  \<open>roundTimer\<close> and \<open>moveTimeout\<close>, and the countdown handle is a local of
  \<open>startRoundCountdown\<close>.  Its next tick sends \<open>countdown\<close> to the match room, where player
  \<open>a\<close> still is.
\<close>

theorem disconnect_leaves_countdown_running:
  "timers joined 0 =
       Some \<lparr> callback = CountdownInterval ''ABCDEF'' 3, delay_ms = 1000, repeats = True \<rparr>
   \<and> matches (disconnect ''b'' joined) ''ABCDEF'' = None
   \<and> timers (disconnect ''b'' joined) 0 =
       Some \<lparr> callback = CountdownInterval ''ABCDEF'' 3, delay_ms = 1000, repeats = True \<rparr>
   \<and> rooms (disconnect ''b'' joined) ''ABCDEF'' = {''a''}
   \<and> outbox (disconnect ''b'' joined) =
       outbox joined @ [(To (Some ''ABCDEF''), OpponentDisconnected)]
   \<and> outbox (fire 0 (disconnect ''b'' joined)) =
       outbox joined @ [(To (Some ''ABCDEF''), OpponentDisconnected),
                        (To (Some ''ABCDEF''), CountdownMsg 3)]"
  by (simp add: joined_def waiting_def eval_defs insert_Diff_if)

section \<open>C4: match codes\<close>









text \<open>
  The comment on \<open>generateMatchCode\<close> promises a code of 6 characters.  A random text with
  fewer than six digits after the point, such as \<open>0.i\<close> (the number 0.5), gives a shorter
  code; the statement above says nothing about such texts.
\<close>

lemma generateMatchCode_short:
  "generateMatchCode ''0.i'' = ''I'' \<and> length (generateMatchCode ''0.i'') = 1"
proof -
  have "generateMatchCode ''0.i'' = ''I''" by code_simp
  then show ?thesis by simp
qed

section \<open>C5: a new move replaces the pending one\<close>

text \<open>
  In the scenario \<open>in_flight\<close> the match is being played and the move \<open>up\<close> is pending (not
  null, not responded).  A second \<open>attackMove\<close> of the attacker creates the move \<open>down\<close> all
  the same: a new Move is created while the prior Move is still pending.
\<close>

theorem attackMove_while_pending_counterexample:
  "map_option state (heap in_flight 0) = Some Playing
   \<and> map_option currentMove (heap in_flight 0) =
       Some (Some \<lparr> direction = ''up'', timestamp = 1000, responded = False \<rparr>)
   \<and> map_option currentMove (heap (attackMove ''a'' ''down'' 1500 in_flight) 0) =
       Some (Some \<lparr> direction = ''down'', timestamp = 1500, responded = False \<rparr>)"
  by (simp add: in_flight_facts in_flight_attacker in_flight_match_def attackMove_def prim_defs
      Let_def)

text \<open>
  Claim C5, as amended.  A match object has a single \<open>currentMove\<close> slot, so it holds at
  most one Move.  \<open>attackMove\<close> changes nothing unless the sender's match is in state
  \<open>playing\<close> and the sender is its current attacker.  When it acts, it always installs a new
  pending Move, whatever the slot held before (null, resolved or still pending): it cancels
  the timeout of the previous move, tells the defender and the attacker, and starts a new
  2000 ms timeout whose handle it stores in the match.
\<close>

theorem attackMove_installs_move:
  "(get_match s (matchCode (sockets s sid)) = None \<longrightarrow> attackMove sid mv now s = s)
   \<and> (get_match s (matchCode (sockets s sid)) = Some (a, m) \<and>
        (state m \<noteq> Playing \<or> currentAttacker m \<noteq> Some sid) \<longrightarrow> attackMove sid mv now s = s)
   \<and> (get_match s (matchCode (sockets s sid)) = Some (a, m) \<and>
        state m = Playing \<and> currentAttacker m = Some sid \<longrightarrow>
        heap (attackMove sid mv now s) a =
          Some (m\<lparr> currentMove := Some \<lparr> direction = mv, timestamp = now, responded = False \<rparr>,
                   moveTimeout := Some (next_timer s) \<rparr>)
        \<and> timers (attackMove sid mv now s) =
            (case moveTimeout m of None \<Rightarrow> timers s | Some h \<Rightarrow> (timers s)(h := None))
              (next_timer s \<mapsto> \<lparr> callback = MoveTimeout a mv, delay_ms = 2000, repeats = False \<rparr>)
        \<and> outbox (attackMove sid mv now s) =
            outbox s @ [(To (currentDefender m), IncomingMove mv 2000),
                        (To (currentAttacker m), MoveSent mv)])"
proof (intro conjI impI)
  assume "get_match s (matchCode (sockets s sid)) = None"
  then show "attackMove sid mv now s = s" by (simp add: attackMove_def)
next
  assume "get_match s (matchCode (sockets s sid)) = Some (a, m) \<and>
        (state m \<noteq> Playing \<or> currentAttacker m \<noteq> Some sid)"
  then show "attackMove sid mv now s = s" by (auto simp: attackMove_def)
next
  assume h: "get_match s (matchCode (sockets s sid)) = Some (a, m) \<and>
        state m = Playing \<and> currentAttacker m = Some sid"
  then have hm: "heap s a = Some m" by (auto dest: get_match_heap)
  show "heap (attackMove sid mv now s) a =
          Some (m\<lparr> currentMove := Some \<lparr> direction = mv, timestamp = now, responded = False \<rparr>,
                   moveTimeout := Some (next_timer s) \<rparr>)"
    using h hm by (simp add: attackMove_def prim_defs Let_def split: option.splits)
  show "timers (attackMove sid mv now s) =
            (case moveTimeout m of None \<Rightarrow> timers s | Some h \<Rightarrow> (timers s)(h := None))
              (next_timer s \<mapsto> \<lparr> callback = MoveTimeout a mv, delay_ms = 2000, repeats = False \<rparr>)"
    using h hm by (simp add: attackMove_def prim_defs Let_def split: option.splits)
  show "outbox (attackMove sid mv now s) =
            outbox s @ [(To (currentDefender m), IncomingMove mv 2000),
                        (To (currentAttacker m), MoveSent mv)]"
    using h hm by (simp add: attackMove_def prim_defs Let_def split: option.splits)
qed

theorem attackMove_installs_move_witness:
  "get_match rinit (matchCode (sockets rinit ''a'')) = None
   \<and> attackMove ''a'' ''up'' 1000 rinit = rinit
   \<and> get_match in_flight (matchCode (sockets in_flight ''b'')) = Some (0, in_flight_match)
   \<and> currentAttacker in_flight_match \<noteq> Some ''b''
   \<and> attackMove ''b'' ''left'' 1500 in_flight = in_flight
   \<and> get_match in_flight (matchCode (sockets in_flight ''a'')) = Some (0, in_flight_match)
   \<and> state in_flight_match = Playing \<and> currentAttacker in_flight_match = Some ''a''
   \<and> heap (attackMove ''a'' ''down'' 1500 in_flight) 0 =
        Some (in_flight_match\<lparr> currentMove :=
                 Some \<lparr> direction = ''down'', timestamp = 1500, responded = False \<rparr>,
               moveTimeout := Some 3 \<rparr>)
   \<and> timers (attackMove ''a'' ''down'' 1500 in_flight) 2 = None
   \<and> timers (attackMove ''a'' ''down'' 1500 in_flight) 3 =
        Some \<lparr> callback = MoveTimeout 0 ''down'', delay_ms = 2000, repeats = False \<rparr>"
proof -
  have n0: "get_match rinit (matchCode (sockets rinit ''a'')) = None"
    by (simp add: get_match_def rinit_def init_server_def)
  note sa = in_flight_attacker(1) and nt = in_flight_attacker(2)
  have gb: "get_match in_flight (matchCode (sockets in_flight ''b'')) = Some (0, in_flight_match)"
    and ga: "get_match in_flight (matchCode (sockets in_flight ''a'')) = Some (0, in_flight_match)"
    by (simp_all add: get_match_def in_flight_facts sa)
  have st: "state in_flight_match = Playing" "currentAttacker in_flight_match = Some ''a''"
    "currentAttacker in_flight_match \<noteq> Some ''b''" "moveTimeout in_flight_match = Some 2"
    by (simp_all add: in_flight_match_def)
  note T = attackMove_installs_move
  have w1: "attackMove ''a'' ''up'' 1000 rinit = rinit"
    using T[where s = rinit and sid = "''a''", THEN conjunct1] n0 by simp
  have w2: "attackMove ''b'' ''left'' 1500 in_flight = in_flight"
    using T[where s = in_flight and sid = "''b''" and a = 0 and m = in_flight_match,
        THEN conjunct2, THEN conjunct1] gb st by simp
  have w3: "heap (attackMove ''a'' ''down'' 1500 in_flight) 0 =
        Some (in_flight_match\<lparr> currentMove :=
                 Some \<lparr> direction = ''down'', timestamp = 1500, responded = False \<rparr>,
               moveTimeout := Some 3 \<rparr>)"
    and w4: "timers (attackMove ''a'' ''down'' 1500 in_flight) =
              ((timers in_flight)(2 := None))
                (3 \<mapsto> \<lparr> callback = MoveTimeout 0 ''down'', delay_ms = 2000, repeats = False \<rparr>)"
    using T[where s = in_flight and sid = "''a''" and a = 0 and m = in_flight_match
          and mv = "''down''" and now = 1500, THEN conjunct2, THEN conjunct2]
      ga st nt by simp_all
  show ?thesis
    using n0 w1 gb ga st w2 w3 by (simp add: w4)
qed

section \<open>C6: a guess in the wrong state is not ignored\<close>

text \<open>
  Claim C6 fails on the code of \<open>submitGuess\<close>, which checks the sender's role and nothing
  else.  Sent by player 2 before any combination was set (state \<open>inputting\<close>), it throws a
  TypeError at \<open>match.combination[i]\<close>.  Sent while the countdown has not finished (state
  \<open>countdown\<close>), it is scored and ends the round; sent once more after the round has ended, it
  is scored again.
\<close>

theorem submitGuess_not_ignored:
  "map_option (\<lambda>m. (state m, combination m)) (heap g_joined 0) = Some (Inputting, None)
   \<and> g_submitGuess ''b'' [''up'', ''down'', ''left'', ''right''] g_joined = Inl TypeError
   \<and> map_option state (heap g_combination_set 0) = Some Countdown
   \<and> (case g_submitGuess ''b'' [''up'', ''down'', ''left'', ''right''] g_combination_set of
         Inl e \<Rightarrow> False
       | Inr g1 \<Rightarrow>
           map_option (\<lambda>m. (state m, scores m)) (heap g1 0) =
             Some (RoundEnd, \<lparr> score1 = 0, score2 = 4 \<rparr>)
           \<and> length (outbox g1) = Suc (length (outbox g_combination_set))
           \<and> (case g_submitGuess ''b'' [''up'', ''down'', ''left'', ''right''] g1 of
                 Inl e \<Rightarrow> False
               | Inr g2 \<Rightarrow>
                   map_option (\<lambda>m. (state m, scores m)) (heap g2 0) =
                     Some (RoundEnd, \<lparr> score1 = 0, score2 = 8 \<rparr>)
                   \<and> length (outbox g2) = Suc (length (outbox g1))))"
  by (simp add: g_combination_set_def g_joined_def g_waiting_def g_eval_defs)

section \<open>C7: joining a match\<close>

text \<open>
  Claim C7.  \<open>joinMatch\<close> looks the upper-cased code up.  With no such match the requester
  gets the error \<open>Match not found\<close> and nothing else changes; with slot B occupied the
  requester gets \<open>Match is full\<close> and nothing else changes; otherwise the requester becomes
  player 2, joins the match room, \<open>matchStarted\<close> goes to the room (which holds the requester
  and whoever was in it) and the first round begins: in the reactive variant the roles are
  assigned, \<open>roundStart\<close> goes to attacker and defender and the countdown interval starts; in
  the guessing variant the state becomes \<open>inputting\<close> and player 1 is asked for a combination.
\<close>

theorem joinMatch_cases:
  "(get_match s (Some (toUpperCase c)) = None \<longrightarrow>
      joinMatch sid c s = s\<lparr> outbox := outbox s @ [(Direct sid, JoinError ''Match not found'')] \<rparr>)
   \<and> (get_match s (Some (toUpperCase c)) = Some (a, m) \<and> player2 m = Some p \<and> p \<noteq> [] \<longrightarrow>
      joinMatch sid c s = s\<lparr> outbox := outbox s @ [(Direct sid, JoinError ''Match is full'')] \<rparr>)
   \<and> (get_match s (Some (toUpperCase c)) = Some (a, m) \<and> player2 m = None \<longrightarrow>
      heap (joinMatch sid c s) a =
        Some (m\<lparr> player2 := Some sid,
                 currentAttacker := (if currentRound m mod 2 = 1 then Some (player1 m) else Some sid),
                 currentDefender := (if currentRound m mod 2 = 1 then Some sid else Some (player1 m)),
                 state := Countdown \<rparr>)
      \<and> matches (joinMatch sid c s) = matches s
      \<and> rooms (joinMatch sid c s) (toUpperCase c) = insert sid (rooms s (toUpperCase c))
      \<and> sockets (joinMatch sid c s) sid =
          \<lparr> matchCode = Some (toUpperCase c), playerRole = Some Player2 \<rparr>
      \<and> outbox (joinMatch sid c s) =
          outbox s @
            [(To (Some (toUpperCase c)), MatchStarted (toUpperCase c) (player1 m) (Some sid)),
             (To (if currentRound m mod 2 = 1 then Some (player1 m) else Some sid),
              RoundStart (currentRound m) (totalRounds m) Attacker 3),
             (To (if currentRound m mod 2 = 1 then Some sid else Some (player1 m)),
              RoundStart (currentRound m) (totalRounds m) Defender 3)]
      \<and> timers (joinMatch sid c s) =
          (timers s)(next_timer s \<mapsto>
             \<lparr> callback = CountdownInterval (toUpperCase c) 3, delay_ms = 1000, repeats = True \<rparr>))
   \<and> (get_match g (Some (toUpperCase c)) = None \<longrightarrow>
      g_joinMatch sid c g = g\<lparr> outbox := outbox g @ [(Direct sid, JoinError ''Match not found'')] \<rparr>)
   \<and> (get_match g (Some (toUpperCase c)) = Some (b, gm) \<and> player2 gm = Some p \<and> p \<noteq> [] \<longrightarrow>
      g_joinMatch sid c g = g\<lparr> outbox := outbox g @ [(Direct sid, JoinError ''Match is full'')] \<rparr>)
   \<and> (get_match g (Some (toUpperCase c)) = Some (b, gm) \<and> player2 gm = None \<longrightarrow>
      heap (g_joinMatch sid c g) b = Some (gm\<lparr> player2 := Some sid, state := Inputting \<rparr>)
      \<and> matches (g_joinMatch sid c g) = matches g
      \<and> rooms (g_joinMatch sid c g) (toUpperCase c) = insert sid (rooms g (toUpperCase c))
      \<and> sockets (g_joinMatch sid c g) sid =
          \<lparr> matchCode = Some (toUpperCase c), playerRole = Some Player2 \<rparr>
      \<and> outbox (g_joinMatch sid c g) =
          outbox g @
            [(To (Some (toUpperCase c)), MatchStarted (toUpperCase c) (player1 gm) (Some sid)),
             (To (Some (player1 gm)), InputCombination (currentRound gm)),
             (To (Some sid), WaitingForCombination (currentRound gm))]
      \<and> timers (g_joinMatch sid c g) = timers g)"
proof (intro conjI impI)
  assume "get_match s (Some (toUpperCase c)) = None"
  then show "joinMatch sid c s = s\<lparr> outbox := outbox s @ [(Direct sid, JoinError ''Match not found'')] \<rparr>"
    by (simp add: joinMatch_def emit_def)
next
  assume "get_match s (Some (toUpperCase c)) = Some (a, m) \<and> player2 m = Some p \<and> p \<noteq> []"
  then show "joinMatch sid c s = s\<lparr> outbox := outbox s @ [(Direct sid, JoinError ''Match is full'')] \<rparr>"
    by (simp add: joinMatch_def emit_def truthy_def)
next
  assume "get_match g (Some (toUpperCase c)) = None"
  then show "g_joinMatch sid c g = g\<lparr> outbox := outbox g @ [(Direct sid, JoinError ''Match not found'')] \<rparr>"
    by (simp add: g_joinMatch_def emit_def)
next
  assume "get_match g (Some (toUpperCase c)) = Some (b, gm) \<and> player2 gm = Some p \<and> p \<noteq> []"
  then show "g_joinMatch sid c g = g\<lparr> outbox := outbox g @ [(Direct sid, JoinError ''Match is full'')] \<rparr>"
    by (simp add: g_joinMatch_def emit_def truthy_def)
next
  assume h: "get_match s (Some (toUpperCase c)) = Some (a, m) \<and> player2 m = None"
  then have hm: "heap s a = Some m" "matches s (toUpperCase c) = Some a"
    by (auto dest: get_match_SomeD)
  note defs = joinMatch_def startRoundCountdown_def prim_defs Let_def truthy_def
  show "heap (joinMatch sid c s) a =
        Some (m\<lparr> player2 := Some sid,
                 currentAttacker := (if currentRound m mod 2 = 1 then Some (player1 m) else Some sid),
                 currentDefender := (if currentRound m mod 2 = 1 then Some sid else Some (player1 m)),
                 state := Countdown \<rparr>)"
    using h hm by (simp add: defs)
  show "matches (joinMatch sid c s) = matches s" using h hm by (simp add: defs)
  show "rooms (joinMatch sid c s) (toUpperCase c) = insert sid (rooms s (toUpperCase c))"
    using h hm by (simp add: defs)
  show "sockets (joinMatch sid c s) sid =
          \<lparr> matchCode = Some (toUpperCase c), playerRole = Some Player2 \<rparr>"
    using h hm by (simp add: defs)
  show "outbox (joinMatch sid c s) =
          outbox s @
            [(To (Some (toUpperCase c)), MatchStarted (toUpperCase c) (player1 m) (Some sid)),
             (To (if currentRound m mod 2 = 1 then Some (player1 m) else Some sid),
              RoundStart (currentRound m) (totalRounds m) Attacker 3),
             (To (if currentRound m mod 2 = 1 then Some sid else Some (player1 m)),
              RoundStart (currentRound m) (totalRounds m) Defender 3)]"
    using h hm by (simp add: defs)
  show "timers (joinMatch sid c s) =
          (timers s)(next_timer s \<mapsto>
             \<lparr> callback = CountdownInterval (toUpperCase c) 3, delay_ms = 1000, repeats = True \<rparr>)"
    using h hm by (simp add: defs)
next
  assume h: "get_match g (Some (toUpperCase c)) = Some (b, gm) \<and> player2 gm = None"
  then have hm: "heap g b = Some gm" "matches g (toUpperCase c) = Some b"
    by (auto dest: get_match_SomeD)
  note defs = g_joinMatch_def prim_defs Let_def truthy_def
  show "heap (g_joinMatch sid c g) b = Some (gm\<lparr> player2 := Some sid, state := Inputting \<rparr>)"
    using h hm by (simp add: defs)
  show "matches (g_joinMatch sid c g) = matches g" using h hm by (simp add: defs)
  show "rooms (g_joinMatch sid c g) (toUpperCase c) = insert sid (rooms g (toUpperCase c))"
    using h hm by (simp add: defs)
  show "sockets (g_joinMatch sid c g) sid =
          \<lparr> matchCode = Some (toUpperCase c), playerRole = Some Player2 \<rparr>"
    using h hm by (simp add: defs)
  show "outbox (g_joinMatch sid c g) =
          outbox g @
            [(To (Some (toUpperCase c)), MatchStarted (toUpperCase c) (player1 gm) (Some sid)),
             (To (Some (player1 gm)), InputCombination (currentRound gm)),
             (To (Some sid), WaitingForCombination (currentRound gm))]"
    using h hm by (simp add: defs)
  show "timers (g_joinMatch sid c g) = timers g" using h hm by (simp add: defs)
qed


theorem joinMatch_cases_witness:
  "get_match rinit (Some (toUpperCase ''abcdef'')) = None
   \<and> joinMatch ''b'' ''abcdef'' rinit =
        rinit\<lparr> outbox := outbox rinit @ [(Direct ''b'', JoinError ''Match not found'')] \<rparr>
   \<and> get_match waiting (Some (toUpperCase ''abcdef'')) = Some (0, new_rmatch ''ABCDEF'' ''a'')
   \<and> player2 (new_rmatch ''ABCDEF'' ''a'') = None
   \<and> outbox joined =
        outbox waiting @
          [(To (Some ''ABCDEF''), MatchStarted ''ABCDEF'' ''a'' (Some ''b'')),
           (To (Some ''a''), RoundStart 1 4 Attacker 3),
           (To (Some ''b''), RoundStart 1 4 Defender 3)]
   \<and> ''b'' \<in> rooms joined ''ABCDEF'' \<and> ''a'' \<in> rooms joined ''ABCDEF''
   \<and> map_option player2 (heap joined 0) = Some (Some ''b'')
   \<and> map_option state (heap joined 0) = Some Countdown
   \<and> joinMatch ''c'' ''abcdef'' joined =
        joined\<lparr> outbox := outbox joined @ [(Direct ''c'', JoinError ''Match is full'')] \<rparr>
   \<and> get_match ginit (Some (toUpperCase ''abcdef'')) = None
   \<and> g_joinMatch ''b'' ''abcdef'' ginit =
        ginit\<lparr> outbox := outbox ginit @ [(Direct ''b'', JoinError ''Match not found'')] \<rparr>
   \<and> get_match g_waiting (Some (toUpperCase ''abcdef'')) = Some (0, new_gmatch ''ABCDEF'' ''a'')
   \<and> player2 (new_gmatch ''ABCDEF'' ''a'') = None
   \<and> outbox g_joined =
        outbox g_waiting @
          [(To (Some ''ABCDEF''), MatchStarted ''ABCDEF'' ''a'' (Some ''b'')),
           (To (Some ''a''), InputCombination 1),
           (To (Some ''b''), WaitingForCombination 1)]
   \<and> map_option player2 (heap g_joined 0) = Some (Some ''b'')
   \<and> map_option state (heap g_joined 0) = Some Inputting
   \<and> g_joinMatch ''c'' ''abcdef'' g_joined =
        g_joined\<lparr> outbox := outbox g_joined @ [(Direct ''c'', JoinError ''Match is full'')] \<rparr>"
proof -
  note T = joinMatch_cases
  have r0: "get_match rinit (Some (toUpperCase ''abcdef'')) = None"
    by (simp add: get_match_def rinit_def init_server_def)
  have r1: "get_match waiting (Some (toUpperCase ''abcdef'')) = Some (0, new_rmatch ''ABCDEF'' ''a'')"
    and r1a: "''a'' \<in> rooms waiting ''ABCDEF''"
    by (simp_all add: waiting_def eval_defs)
  have n1: "player2 (new_rmatch ''ABCDEF'' ''a'') = None"
    "currentRound (new_rmatch ''ABCDEF'' ''a'') = 1"
    "totalRounds (new_rmatch ''ABCDEF'' ''a'') = 4"
    "player1 (new_rmatch ''ABCDEF'' ''a'') = ''a''"
    by (simp_all add: new_rmatch_def)
  have g0: "get_match ginit (Some (toUpperCase ''abcdef'')) = None"
    by (simp add: get_match_def ginit_def init_server_def)
  have g1: "get_match g_waiting (Some (toUpperCase ''abcdef'')) = Some (0, new_gmatch ''ABCDEF'' ''a'')"
    by (simp add: g_waiting_def g_eval_defs)
  have n2: "player2 (new_gmatch ''ABCDEF'' ''a'') = None"
    "currentRound (new_gmatch ''ABCDEF'' ''a'') = 1"
    "player1 (new_gmatch ''ABCDEF'' ''a'') = ''a''"
    by (simp_all add: new_gmatch_def)
  have w1: "joinMatch ''b'' ''abcdef'' rinit =
        rinit\<lparr> outbox := outbox rinit @ [(Direct ''b'', JoinError ''Match not found'')] \<rparr>"
    using T[where s = rinit and c = "''abcdef''" and sid = "''b''", THEN conjunct1] r0 by simp
  have w2: "heap joined 0 =
        Some ((new_rmatch ''ABCDEF'' ''a'')\<lparr> player2 := Some ''b'',
                 currentAttacker := Some ''a'', currentDefender := Some ''b'', state := Countdown \<rparr>)
      \<and> matches joined = matches waiting
      \<and> rooms joined ''ABCDEF'' = insert ''b'' (rooms waiting ''ABCDEF'')
      \<and> outbox joined =
        outbox waiting @
          [(To (Some ''ABCDEF''), MatchStarted ''ABCDEF'' ''a'' (Some ''b'')),
           (To (Some ''a''), RoundStart 1 4 Attacker 3),
           (To (Some ''b''), RoundStart 1 4 Defender 3)]"
    using T[where s = waiting and c = "''abcdef''" and sid = "''b''" and a = 0
          and m = "new_rmatch ''ABCDEF'' ''a''", THEN conjunct2, THEN conjunct2, THEN conjunct1]
      r1 n1 by (simp add: joined_def code_abcdef)
  have r2: "get_match joined (Some (toUpperCase ''abcdef'')) =
       Some (0, (new_rmatch ''ABCDEF'' ''a'')\<lparr> player2 := Some ''b'',
                 currentAttacker := Some ''a'', currentDefender := Some ''b'', state := Countdown \<rparr>)"
    using w2 r1 by (simp add: get_match_Some_iff code_abcdef)
  have w3: "joinMatch ''c'' ''abcdef'' joined =
        joined\<lparr> outbox := outbox joined @ [(Direct ''c'', JoinError ''Match is full'')] \<rparr>"
    using T[where s = joined and c = "''abcdef''" and sid = "''c''" and a = 0 and p = "''b''"
          and m = "(new_rmatch ''ABCDEF'' ''a'')\<lparr> player2 := Some ''b'',
                 currentAttacker := Some ''a'', currentDefender := Some ''b'', state := Countdown \<rparr>",
          THEN conjunct2, THEN conjunct1]
      r2 by simp
  have v1: "g_joinMatch ''b'' ''abcdef'' ginit =
        ginit\<lparr> outbox := outbox ginit @ [(Direct ''b'', JoinError ''Match not found'')] \<rparr>"
    using T[where g = ginit and c = "''abcdef''" and sid = "''b''",
          THEN conjunct2, THEN conjunct2, THEN conjunct2, THEN conjunct1] g0 by simp
  have v2: "heap g_joined 0 =
        Some ((new_gmatch ''ABCDEF'' ''a'')\<lparr> player2 := Some ''b'', state := Inputting \<rparr>)
      \<and> matches g_joined = matches g_waiting
      \<and> outbox g_joined =
        outbox g_waiting @
          [(To (Some ''ABCDEF''), MatchStarted ''ABCDEF'' ''a'' (Some ''b'')),
           (To (Some ''a''), InputCombination 1),
           (To (Some ''b''), WaitingForCombination 1)]"
    using T[where g = g_waiting and c = "''abcdef''" and sid = "''b''" and b = 0
          and gm = "new_gmatch ''ABCDEF'' ''a''",
          THEN conjunct2, THEN conjunct2, THEN conjunct2, THEN conjunct2, THEN conjunct2]
      g1 n2 by (simp add: g_joined_def code_abcdef)
  have g2: "get_match g_joined (Some (toUpperCase ''abcdef'')) =
       Some (0, (new_gmatch ''ABCDEF'' ''a'')\<lparr> player2 := Some ''b'', state := Inputting \<rparr>)"
    using v2 g1 by (simp add: get_match_Some_iff code_abcdef)
  have v3: "g_joinMatch ''c'' ''abcdef'' g_joined =
        g_joined\<lparr> outbox := outbox g_joined @ [(Direct ''c'', JoinError ''Match is full'')] \<rparr>"
    using T[where g = g_joined and c = "''abcdef''" and sid = "''c''" and b = 0 and p = "''b''"
          and gm = "(new_gmatch ''ABCDEF'' ''a'')\<lparr> player2 := Some ''b'', state := Inputting \<rparr>",
          THEN conjunct2, THEN conjunct2, THEN conjunct2, THEN conjunct2, THEN conjunct1]
      g2 by simp
  show ?thesis
    using r0 r1 r1a n1 g0 g1 n2 w1 w2 w3 v1 v2 v3 by simp
qed

section \<open>C8: the rematch handshake\<close>

text \<open>
  Claim C8.  \<open>proposeRematch\<close> changes nothing unless the sender's match is in state
  \<open>matchEnd\<close>.  From a finished match with both flags clear, a proposal of one side sets
  that side's flag, notifies the other participant and resets nothing (round, scores and
  timers are as before).  After proposals of both sides, in either order, the round number
  is 1, both scores are 0, both flags are clear, \<open>rematchStarting\<close> has gone to the match
  room and exactly one timer has been added, with a delay of 1000 ms; when it fires, the
  round-start flow runs (reactive: roles, state \<open>countdown\<close> and \<open>roundStart\<close>; guessing:
  player 1 is asked for a combination).  The same holds in both variants.
\<close>

theorem proposeRematch_handshake:
  "(get_match s (matchCode (sockets s sid)) = None \<longrightarrow> proposeRematch sid s = s)
   \<and> (get_match s (matchCode (sockets s sid)) = Some (a, m) \<and> state m \<noteq> MatchEnd \<longrightarrow>
        proposeRematch sid s = s)
   \<and> (matchCode (sockets s pa) = Some k \<and> playerRole (sockets s pa) = Some Player1 \<and>
        matchCode (sockets s pb) = Some k \<and> playerRole (sockets s pb) = Some Player2 \<and>
        get_match s (Some k) = Some (a, m) \<and> state m = MatchEnd \<and>
        rematchProposals m = \<lparr> rematch1 = False, rematch2 = False \<rparr> \<longrightarrow>
        heap (proposeRematch pa s) a =
           Some (m\<lparr> rematchProposals := \<lparr> rematch1 = True, rematch2 = False \<rparr> \<rparr>)
        \<and> outbox (proposeRematch pa s) = outbox s @ [(To (player2 m), RematchProposed None)]
        \<and> timers (proposeRematch pa s) = timers s
        \<and> heap (proposeRematch pb s) a =
           Some (m\<lparr> rematchProposals := \<lparr> rematch1 = False, rematch2 = True \<rparr> \<rparr>)
        \<and> outbox (proposeRematch pb s) = outbox s @ [(To (Some (player1 m)), RematchProposed None)]
        \<and> timers (proposeRematch pb s) = timers s
        \<and> heap (proposeRematch pb (proposeRematch pa s)) a =
           Some (m\<lparr> currentRound := 1, scores := \<lparr> score1 = 0, score2 = 0 \<rparr>,
                    rematchProposals := \<lparr> rematch1 = False, rematch2 = False \<rparr> \<rparr>)
        \<and> outbox (proposeRematch pb (proposeRematch pa s)) =
           outbox s @ [(To (player2 m), RematchProposed None),
                       (To (Some (player1 m)), RematchProposed None),
                       (To (Some k), RematchStarting)]
        \<and> timers (proposeRematch pb (proposeRematch pa s)) =
           (timers s)(next_timer s \<mapsto>
              \<lparr> callback = RematchTimeout pb, delay_ms = 1000, repeats = False \<rparr>)
        \<and> heap (proposeRematch pa (proposeRematch pb s)) a =
           Some (m\<lparr> currentRound := 1, scores := \<lparr> score1 = 0, score2 = 0 \<rparr>,
                    rematchProposals := \<lparr> rematch1 = False, rematch2 = False \<rparr> \<rparr>)
        \<and> outbox (proposeRematch pa (proposeRematch pb s)) =
           outbox s @ [(To (Some (player1 m)), RematchProposed None),
                       (To (player2 m), RematchProposed None),
                       (To (Some k), RematchStarting)]
        \<and> timers (proposeRematch pa (proposeRematch pb s)) =
           (timers s)(next_timer s \<mapsto>
              \<lparr> callback = RematchTimeout pa, delay_ms = 1000, repeats = False \<rparr>)
        \<and> heap (fire (next_timer s) (proposeRematch pb (proposeRematch pa s))) a =
           Some (m\<lparr> currentRound := 1, scores := \<lparr> score1 = 0, score2 = 0 \<rparr>,
                    rematchProposals := \<lparr> rematch1 = False, rematch2 = False \<rparr>,
                    currentAttacker := Some (player1 m), currentDefender := player2 m,
                    state := Countdown \<rparr>)
        \<and> outbox (fire (next_timer s) (proposeRematch pb (proposeRematch pa s))) =
           outbox (proposeRematch pb (proposeRematch pa s)) @
             [(To (Some (player1 m)), RoundStart 1 (totalRounds m) Attacker 3),
              (To (player2 m), RoundStart 1 (totalRounds m) Defender 3)])
   \<and> (get_match g (matchCode (sockets g sid)) = None \<longrightarrow> g_proposeRematch sid g = g)
   \<and> (get_match g (matchCode (sockets g sid)) = Some (b, gm) \<and> state gm \<noteq> MatchEnd \<longrightarrow>
        g_proposeRematch sid g = g)
   \<and> (matchCode (sockets g pa) = Some k \<and> playerRole (sockets g pa) = Some Player1 \<and>
        matchCode (sockets g pb) = Some k \<and> playerRole (sockets g pb) = Some Player2 \<and>
        get_match g (Some k) = Some (b, gm) \<and> state gm = MatchEnd \<and>
        rematchProposals gm = \<lparr> rematch1 = False, rematch2 = False \<rparr> \<longrightarrow>
        heap (g_proposeRematch pa g) b =
           Some (gm\<lparr> rematchProposals := \<lparr> rematch1 = True, rematch2 = False \<rparr> \<rparr>)
        \<and> outbox (g_proposeRematch pa g) =
           outbox g @ [(To (player2 gm), RematchProposed (Some Player1))]
        \<and> timers (g_proposeRematch pa g) = timers g
        \<and> heap (g_proposeRematch pb g) b =
           Some (gm\<lparr> rematchProposals := \<lparr> rematch1 = False, rematch2 = True \<rparr> \<rparr>)
        \<and> outbox (g_proposeRematch pb g) =
           outbox g @ [(To (Some (player1 gm)), RematchProposed (Some Player2))]
        \<and> timers (g_proposeRematch pb g) = timers g
        \<and> heap (g_proposeRematch pb (g_proposeRematch pa g)) b =
           Some (gm\<lparr> currentRound := 1, scores := \<lparr> score1 = 0, score2 = 0 \<rparr>,
                     combination := None,
                     rematchProposals := \<lparr> rematch1 = False, rematch2 = False \<rparr>,
                     state := Inputting \<rparr>)
        \<and> outbox (g_proposeRematch pb (g_proposeRematch pa g)) =
           outbox g @ [(To (player2 gm), RematchProposed (Some Player1)),
                       (To (Some (player1 gm)), RematchProposed (Some Player2)),
                       (To (Some k), RematchStarting)]
        \<and> timers (g_proposeRematch pb (g_proposeRematch pa g)) =
           (timers g)(next_timer g \<mapsto>
              \<lparr> callback = GRematchTimeout b, delay_ms = 1000, repeats = False \<rparr>)
        \<and> heap (g_proposeRematch pa (g_proposeRematch pb g)) b =
           Some (gm\<lparr> currentRound := 1, scores := \<lparr> score1 = 0, score2 = 0 \<rparr>,
                     combination := None,
                     rematchProposals := \<lparr> rematch1 = False, rematch2 = False \<rparr>,
                     state := Inputting \<rparr>)
        \<and> outbox (g_proposeRematch pa (g_proposeRematch pb g)) =
           outbox g @ [(To (Some (player1 gm)), RematchProposed (Some Player2)),
                       (To (player2 gm), RematchProposed (Some Player1)),
                       (To (Some k), RematchStarting)]
        \<and> timers (g_proposeRematch pa (g_proposeRematch pb g)) =
           (timers g)(next_timer g \<mapsto>
              \<lparr> callback = GRematchTimeout b, delay_ms = 1000, repeats = False \<rparr>)
        \<and> outbox (g_fire (next_timer g) (g_proposeRematch pb (g_proposeRematch pa g))) =
           outbox (g_proposeRematch pb (g_proposeRematch pa g)) @
             [(To (Some (player1 gm)), InputCombination 1),
              (To (player2 gm), WaitingForCombination 1)])"
proof (intro conjI impI)
  assume "get_match s (matchCode (sockets s sid)) = None"
  then show "proposeRematch sid s = s" by (simp add: proposeRematch_def)
next
  assume "get_match s (matchCode (sockets s sid)) = Some (a, m) \<and> state m \<noteq> MatchEnd"
  then show "proposeRematch sid s = s" by (simp add: proposeRematch_def)
next
  assume h: "matchCode (sockets s pa) = Some k \<and> playerRole (sockets s pa) = Some Player1 \<and>
        matchCode (sockets s pb) = Some k \<and> playerRole (sockets s pb) = Some Player2 \<and>
        get_match s (Some k) = Some (a, m) \<and> state m = MatchEnd \<and>
        rematchProposals m = \<lparr> rematch1 = False, rematch2 = False \<rparr>"
  then have hm: "heap s a = Some m" "matches s k = Some a"
    by (auto simp: get_match_Some_iff)
  note defs = proposeRematch_def prim_defs Let_def
  show "heap (proposeRematch pa s) a =
           Some (m\<lparr> rematchProposals := \<lparr> rematch1 = True, rematch2 = False \<rparr> \<rparr>)"
    using h hm by (simp add: defs)
  show "outbox (proposeRematch pa s) = outbox s @ [(To (player2 m), RematchProposed None)]"
    using h hm by (simp add: defs)
  show "timers (proposeRematch pa s) = timers s"
    using h hm by (simp add: defs)
  show "heap (proposeRematch pb s) a =
           Some (m\<lparr> rematchProposals := \<lparr> rematch1 = False, rematch2 = True \<rparr> \<rparr>)"
    using h hm by (simp add: defs)
  show "outbox (proposeRematch pb s) = outbox s @ [(To (Some (player1 m)), RematchProposed None)]"
    using h hm by (simp add: defs)
  show "timers (proposeRematch pb s) = timers s"
    using h hm by (simp add: defs)
  show "heap (proposeRematch pb (proposeRematch pa s)) a =
           Some (m\<lparr> currentRound := 1, scores := \<lparr> score1 = 0, score2 = 0 \<rparr>,
                    rematchProposals := \<lparr> rematch1 = False, rematch2 = False \<rparr> \<rparr>)"
    using h hm by (simp add: defs)
  show "outbox (proposeRematch pb (proposeRematch pa s)) =
           outbox s @ [(To (player2 m), RematchProposed None),
                       (To (Some (player1 m)), RematchProposed None),
                       (To (Some k), RematchStarting)]"
    using h hm by (simp add: defs)
  show "timers (proposeRematch pb (proposeRematch pa s)) =
           (timers s)(next_timer s \<mapsto>
              \<lparr> callback = RematchTimeout pb, delay_ms = 1000, repeats = False \<rparr>)"
    using h hm by (simp add: defs)
  show "heap (proposeRematch pa (proposeRematch pb s)) a =
           Some (m\<lparr> currentRound := 1, scores := \<lparr> score1 = 0, score2 = 0 \<rparr>,
                    rematchProposals := \<lparr> rematch1 = False, rematch2 = False \<rparr> \<rparr>)"
    using h hm by (simp add: defs)
  show "outbox (proposeRematch pa (proposeRematch pb s)) =
           outbox s @ [(To (Some (player1 m)), RematchProposed None),
                       (To (player2 m), RematchProposed None),
                       (To (Some k), RematchStarting)]"
    using h hm by (simp add: defs)
  show "timers (proposeRematch pa (proposeRematch pb s)) =
           (timers s)(next_timer s \<mapsto>
              \<lparr> callback = RematchTimeout pa, delay_ms = 1000, repeats = False \<rparr>)"
    using h hm by (simp add: defs)
  show "heap (fire (next_timer s) (proposeRematch pb (proposeRematch pa s))) a =
           Some (m\<lparr> currentRound := 1, scores := \<lparr> score1 = 0, score2 = 0 \<rparr>,
                    rematchProposals := \<lparr> rematch1 = False, rematch2 = False \<rparr>,
                    currentAttacker := Some (player1 m), currentDefender := player2 m,
                    state := Countdown \<rparr>)"
    using h hm by (simp add: defs fire_def startRoundCountdown_def)
  show "outbox (fire (next_timer s) (proposeRematch pb (proposeRematch pa s))) =
           outbox (proposeRematch pb (proposeRematch pa s)) @
             [(To (Some (player1 m)), RoundStart 1 (totalRounds m) Attacker 3),
              (To (player2 m), RoundStart 1 (totalRounds m) Defender 3)]"
    using h hm by (simp add: defs fire_def startRoundCountdown_def)
next
  assume "get_match g (matchCode (sockets g sid)) = None"
  then show "g_proposeRematch sid g = g" by (simp add: g_proposeRematch_def)
next
  assume "get_match g (matchCode (sockets g sid)) = Some (b, gm) \<and> state gm \<noteq> MatchEnd"
  then show "g_proposeRematch sid g = g" by (simp add: g_proposeRematch_def)
next
  assume h: "matchCode (sockets g pa) = Some k \<and> playerRole (sockets g pa) = Some Player1 \<and>
        matchCode (sockets g pb) = Some k \<and> playerRole (sockets g pb) = Some Player2 \<and>
        get_match g (Some k) = Some (b, gm) \<and> state gm = MatchEnd \<and>
        rematchProposals gm = \<lparr> rematch1 = False, rematch2 = False \<rparr>"
  then have hm: "heap g b = Some gm" "matches g k = Some b"
    by (auto simp: get_match_Some_iff)
  note defs = g_proposeRematch_def g_fire_def prim_defs Let_def
  show "heap (g_proposeRematch pa g) b =
           Some (gm\<lparr> rematchProposals := \<lparr> rematch1 = True, rematch2 = False \<rparr> \<rparr>)"
    using h hm by (simp add: defs)
  show "outbox (g_proposeRematch pa g) =
           outbox g @ [(To (player2 gm), RematchProposed (Some Player1))]"
    using h hm by (simp add: defs)
  show "timers (g_proposeRematch pa g) = timers g"
    using h hm by (simp add: defs)
  show "heap (g_proposeRematch pb g) b =
           Some (gm\<lparr> rematchProposals := \<lparr> rematch1 = False, rematch2 = True \<rparr> \<rparr>)"
    using h hm by (simp add: defs)
  show "outbox (g_proposeRematch pb g) =
           outbox g @ [(To (Some (player1 gm)), RematchProposed (Some Player2))]"
    using h hm by (simp add: defs)
  show "timers (g_proposeRematch pb g) = timers g"
    using h hm by (simp add: defs)
  show "heap (g_proposeRematch pb (g_proposeRematch pa g)) b =
           Some (gm\<lparr> currentRound := 1, scores := \<lparr> score1 = 0, score2 = 0 \<rparr>,
                     combination := None,
                     rematchProposals := \<lparr> rematch1 = False, rematch2 = False \<rparr>,
                     state := Inputting \<rparr>)"
    using h hm by (simp add: defs)
  show "outbox (g_proposeRematch pb (g_proposeRematch pa g)) =
           outbox g @ [(To (player2 gm), RematchProposed (Some Player1)),
                       (To (Some (player1 gm)), RematchProposed (Some Player2)),
                       (To (Some k), RematchStarting)]"
    using h hm by (simp add: defs)
  show "timers (g_proposeRematch pb (g_proposeRematch pa g)) =
           (timers g)(next_timer g \<mapsto>
              \<lparr> callback = GRematchTimeout b, delay_ms = 1000, repeats = False \<rparr>)"
    using h hm by (simp add: defs)
  show "heap (g_proposeRematch pa (g_proposeRematch pb g)) b =
           Some (gm\<lparr> currentRound := 1, scores := \<lparr> score1 = 0, score2 = 0 \<rparr>,
                     combination := None,
                     rematchProposals := \<lparr> rematch1 = False, rematch2 = False \<rparr>,
                     state := Inputting \<rparr>)"
    using h hm by (simp add: defs)
  show "outbox (g_proposeRematch pa (g_proposeRematch pb g)) =
           outbox g @ [(To (Some (player1 gm)), RematchProposed (Some Player2)),
                       (To (player2 gm), RematchProposed (Some Player1)),
                       (To (Some k), RematchStarting)]"
    using h hm by (simp add: defs)
  show "timers (g_proposeRematch pa (g_proposeRematch pb g)) =
           (timers g)(next_timer g \<mapsto>
              \<lparr> callback = GRematchTimeout b, delay_ms = 1000, repeats = False \<rparr>)"
    using h hm by (simp add: defs)
  show "outbox (g_fire (next_timer g) (g_proposeRematch pb (g_proposeRematch pa g))) =
           outbox (g_proposeRematch pb (g_proposeRematch pa g)) @
             [(To (Some (player1 gm)), InputCombination 1),
              (To (player2 gm), WaitingForCombination 1)]"
    using h hm by (simp add: defs)
qed

theorem proposeRematch_handshake_witness:
  "get_match rinit (matchCode (sockets rinit ''z'')) = None
   \<and> proposeRematch ''z'' rinit = rinit
   \<and> get_match joined (matchCode (sockets joined ''a'')) = Some (0, joined_match)
   \<and> state joined_match \<noteq> MatchEnd
   \<and> proposeRematch ''a'' joined = joined
   \<and> get_match ginit (matchCode (sockets ginit ''z'')) = None
   \<and> g_proposeRematch ''z'' ginit = ginit
   \<and> get_match g_joined (matchCode (sockets g_joined ''a'')) = Some (0, g_joined_match)
   \<and> state g_joined_match \<noteq> MatchEnd
   \<and> g_proposeRematch ''a'' g_joined = g_joined
   \<and> matchCode (sockets ended ''a'') = Some ''ABCDEF'' \<and> playerRole (sockets ended ''a'') = Some Player1
   \<and> matchCode (sockets ended ''b'') = Some ''ABCDEF'' \<and> playerRole (sockets ended ''b'') = Some Player2
   \<and> get_match ended (Some ''ABCDEF'') = Some (0, ended_match)
   \<and> state ended_match = MatchEnd
   \<and> rematchProposals ended_match = \<lparr> rematch1 = False, rematch2 = False \<rparr>
   \<and> heap (proposeRematch ''a'' ended) 0 =
        Some (ended_match\<lparr> rematchProposals := \<lparr> rematch1 = True, rematch2 = False \<rparr> \<rparr>)
   \<and> outbox (proposeRematch ''a'' ended) = outbox ended @ [(To (Some ''b''), RematchProposed None)]
   \<and> heap (proposeRematch ''a'' (proposeRematch ''b'' ended)) 0 =
        Some (ended_match\<lparr> currentRound := 1 \<rparr>)
   \<and> timers (proposeRematch ''a'' (proposeRematch ''b'' ended)) 12 =
        Some \<lparr> callback = RematchTimeout ''a'', delay_ms = 1000, repeats = False \<rparr>
   \<and> get_match g_ended (Some ''ABCDEF'') = Some (0, g_ended_match)
   \<and> state g_ended_match = MatchEnd
   \<and> heap (g_proposeRematch ''b'' g_ended) 0 =
        Some (g_ended_match\<lparr> rematchProposals := \<lparr> rematch1 = False, rematch2 = True \<rparr> \<rparr>)
   \<and> heap (g_proposeRematch ''b'' (g_proposeRematch ''a'' g_ended)) 0 =
        Some (g_ended_match\<lparr> currentRound := 1, scores := \<lparr> score1 = 0, score2 = 0 \<rparr>,
                combination := None, state := Inputting \<rparr>)
   \<and> timers (g_proposeRematch ''b'' (g_proposeRematch ''a'' g_ended)) 5 =
        Some \<lparr> callback = GRematchTimeout 0, delay_ms = 1000, repeats = False \<rparr>"
proof -
  have r: "matchCode (sockets ended ''a'') = Some ''ABCDEF'' \<and>
           playerRole (sockets ended ''a'') = Some Player1 \<and>
           matchCode (sockets ended ''b'') = Some ''ABCDEF'' \<and>
           playerRole (sockets ended ''b'') = Some Player2 \<and>
           get_match ended (Some ''ABCDEF'') = Some (0, ended_match) \<and>
           state ended_match = MatchEnd \<and>
           rematchProposals ended_match = \<lparr> rematch1 = False, rematch2 = False \<rparr>"
    by (simp add: ended_facts ended_core_def get_match_Some_iff ended_match_def)
  have g: "matchCode (sockets g_ended ''a'') = Some ''ABCDEF'' \<and>
           playerRole (sockets g_ended ''a'') = Some Player1 \<and>
           matchCode (sockets g_ended ''b'') = Some ''ABCDEF'' \<and>
           playerRole (sockets g_ended ''b'') = Some Player2 \<and>
           get_match g_ended (Some ''ABCDEF'') = Some (0, g_ended_match) \<and>
           state g_ended_match = MatchEnd \<and>
           rematchProposals g_ended_match = \<lparr> rematch1 = False, rematch2 = False \<rparr>"
    by (simp add: g_ended_facts get_match_Some_iff g_ended_match_def)
  note T = proposeRematch_handshake[where s = ended and pa = "''a''" and pb = "''b''"
      and k = "''ABCDEF''" and a = 0 and m = ended_match and g = g_ended and b = 0
      and gm = g_ended_match]
  have R: "heap (proposeRematch ''a'' ended) 0 =
        Some (ended_match\<lparr> rematchProposals := \<lparr> rematch1 = True, rematch2 = False \<rparr> \<rparr>)
     \<and> outbox (proposeRematch ''a'' ended) =
        outbox ended @ [(To (player2 ended_match), RematchProposed None)]
     \<and> heap (proposeRematch ''a'' (proposeRematch ''b'' ended)) 0 =
        Some (ended_match\<lparr> currentRound := 1, scores := \<lparr> score1 = 0, score2 = 0 \<rparr>,
                 rematchProposals := \<lparr> rematch1 = False, rematch2 = False \<rparr> \<rparr>)
     \<and> timers (proposeRematch ''a'' (proposeRematch ''b'' ended)) =
        (timers ended)(next_timer ended \<mapsto>
           \<lparr> callback = RematchTimeout ''a'', delay_ms = 1000, repeats = False \<rparr>)"
    using T[THEN conjunct2, THEN conjunct2, THEN conjunct1] r by simp
  have G: "heap (g_proposeRematch ''b'' g_ended) 0 =
        Some (g_ended_match\<lparr> rematchProposals := \<lparr> rematch1 = False, rematch2 = True \<rparr> \<rparr>)
     \<and> heap (g_proposeRematch ''b'' (g_proposeRematch ''a'' g_ended)) 0 =
        Some (g_ended_match\<lparr> currentRound := 1, scores := \<lparr> score1 = 0, score2 = 0 \<rparr>,
                 combination := None,
                 rematchProposals := \<lparr> rematch1 = False, rematch2 = False \<rparr>,
                 state := Inputting \<rparr>)
     \<and> timers (g_proposeRematch ''b'' (g_proposeRematch ''a'' g_ended)) =
        (timers g_ended)(next_timer g_ended \<mapsto>
           \<lparr> callback = GRematchTimeout 0, delay_ms = 1000, repeats = False \<rparr>)"
    using T[THEN conjunct2, THEN conjunct2, THEN conjunct2, THEN conjunct2, THEN conjunct2] g
    by simp
  have st: "state joined_match \<noteq> MatchEnd" "state g_joined_match \<noteq> MatchEnd"
    by (simp_all add: joined_match_def g_joined_match_def)
  note N = proposeRematch_handshake
  have n1: "proposeRematch ''z'' rinit = rinit"
    using N[where s = rinit and sid = "''z''", THEN conjunct1] joined_facts(3) by simp
  have n2: "proposeRematch ''a'' joined = joined"
    using N[where s = joined and sid = "''a''" and a = 0 and m = joined_match,
        THEN conjunct2, THEN conjunct1] joined_facts(1) st by simp
  have n3: "g_proposeRematch ''z'' ginit = ginit"
    using N[where g = ginit and sid = "''z''",
        THEN conjunct2, THEN conjunct2, THEN conjunct2, THEN conjunct1] joined_facts(4) by simp
  have n4: "g_proposeRematch ''a'' g_joined = g_joined"
    using N[where g = g_joined and sid = "''a''" and b = 0 and gm = g_joined_match,
        THEN conjunct2, THEN conjunct2, THEN conjunct2, THEN conjunct2, THEN conjunct1]
      joined_facts(2) st by simp
  show ?thesis
    using r g R G n1 n2 n3 n4 st joined_facts
    by (simp add: ended_facts ended_core_def g_ended_facts ended_match_def g_ended_match_def)
qed

section \<open>C9: the round number can pass the total\<close>

lemma after_rematch_twice:
  "map_option (\<lambda>m. (currentRound m, totalRounds m, roundTimer m))
       (heap (qrun rematch_twice ended_core) 0) = Some (5, 4, None)
   \<and> timers (qrun rematch_twice ended_core) 16 =
       Some \<lparr> callback = RoundInterval ''ABCDEF'' (- 5), delay_ms = 1000, repeats = True \<rparr>
   \<and> qlive rematch_twice ended_core"
  by (simp add: rematch_twice_def ended_core_def ended_match_def q_defs rep29)

text \<open>
  Claim C9 fails on the code.  In the run \<open>to_match_end @ rematch_twice\<close> every timer event
  fires a pending timer.  The second pair of rematch proposals is accepted, because the
  reset leaves the state at \<open>matchEnd\<close> until the restart timeout fires.  Two round intervals
  result; \<open>startRound\<close> overwrites \<open>roundTimer\<close>, so \<open>endRound\<close> cancels interval 17 and
  interval 16 stays live, calling \<open>endRound\<close> at every further tick.  Each of these calls
  schedules a next-round timeout while the round number is below 4, and the round number
  ends at 5 in a match of 4 rounds, with interval 16 still pending although the match has no
  \<open>roundTimer\<close>.
\<close>

theorem round_number_exceeds_total:
  "live_run (to_match_end @ rematch_twice) rinit
   \<and> map_option (\<lambda>m. (currentRound m, totalRounds m, roundTimer m))
       (heap (rrun (to_match_end @ rematch_twice) rinit) 0) = Some (5, 4, None)
   \<and> timers (rrun (to_match_end @ rematch_twice) rinit) 16 =
       Some \<lparr> callback = RoundInterval ''ABCDEF'' (- 5), delay_ms = 1000, repeats = True \<rparr>"
proof -
  have q: "quiet (rrun (to_match_end @ rematch_twice) rinit) = qrun rematch_twice ended_core"
    using quiet_rrun[of rematch_twice ended] quiet_ended
    by (simp add: rrun_append ended_def)
  have l: "live_run rematch_twice ended = qlive rematch_twice ended_core"
    by (simp add: live_run_quiet quiet_ended)
  have h: "heap (rrun (to_match_end @ rematch_twice) rinit) = heap (qrun rematch_twice ended_core)"
    and t: "timers (rrun (to_match_end @ rematch_twice) rinit) =
            timers (qrun rematch_twice ended_core)"
    using quiet_sel(1,3)[of "rrun (to_match_end @ rematch_twice) rinit"] by (simp_all add: q)
  show ?thesis
    using after_rematch_twice live_to_match_end l
    by (simp add: h t live_run_append ended_def)
qed

section \<open>C10: player 1 never scores in the guessing variant\<close>

lemma npp_emit: "no_player1_points (emit t msg g) = no_player1_points g"
  by (simp add: no_player1_points_def emit_def)

lemma npp_set_timer: "no_player1_points (set_timer c d r g) = no_player1_points g"
  by (simp add: no_player1_points_def set_timer_def)

lemma npp_clear_timer: "no_player1_points (clear_timer h g) = no_player1_points g"
  by (simp add: no_player1_points_def clear_timer_def)

lemma npp_join_room: "no_player1_points (join_room sid k g) = no_player1_points g"
  by (simp add: no_player1_points_def join_room_def)

lemma npp_leave_all: "no_player1_points (leave_all sid g) = no_player1_points g"
  by (simp add: no_player1_points_def leave_all_def)

lemma npp_set_socket: "no_player1_points (set_socket sid k r g) = no_player1_points g"
  by (simp add: no_player1_points_def set_socket_def)

lemma npp_matches: "no_player1_points (g\<lparr> matches := x \<rparr>) = no_player1_points g"
  by (simp add: no_player1_points_def)

lemma npp_upd_match:
  assumes "no_player1_points g"
    and "\<And>m. score1 (scores m) = 0 \<Longrightarrow> score1 (scores (f m)) = 0"
  shows "no_player1_points (upd_match a f g)"
  using assms by (auto simp: no_player1_points_def upd_match_def split: option.splits)

lemma npp_new:
  assumes "no_player1_points g"
  shows "no_player1_points (g\<lparr> heap := (heap g)(a \<mapsto> new_gmatch c sid), next_addr := n \<rparr>)"
  using assms by (auto simp: no_player1_points_def new_gmatch_def)

lemmas npp_simps = npp_emit npp_set_timer npp_clear_timer npp_join_room npp_leave_all
  npp_set_socket npp_matches

lemma npw_other:
  "no_player1_win (set_timer c d r g) = no_player1_win g"
  "no_player1_win (clear_timer h g) = no_player1_win g"
  "no_player1_win (upd_match a f g) = no_player1_win g"
  "no_player1_win (join_room sid k g) = no_player1_win g"
  "no_player1_win (leave_all sid g) = no_player1_win g"
  "no_player1_win (set_socket sid k ro g) = no_player1_win g"
  "no_player1_win (g\<lparr> matches := x \<rparr>) = no_player1_win g"
  "no_player1_win (g\<lparr> heap := y, next_addr := n \<rparr>) = no_player1_win g"
  "no_player1_win (g\<lparr> timers := z \<rparr>) = no_player1_win g"
  by (simp_all add: no_player1_win_def prim_defs split: option.splits)

lemma npw_emit:
  "no_player1_win (emit t msg g) =
     (no_player1_win g \<and> (\<forall>sc. msg \<noteq> MatchEndMsg sc WinPlayer1))"
  by (auto simp: no_player1_win_def emit_def)

lemma winner_of_zero: "score1 sc = 0 \<Longrightarrow> winner_of sc \<noteq> WinPlayer1"
  by (simp add: winner_of_def)

lemma npp_createMatch: "no_player1_points g \<Longrightarrow> no_player1_points (g_createMatch sid r g)"
  by (simp add: g_createMatch_def Let_def npp_simps npp_new)

lemma npp_joinMatch: "no_player1_points g \<Longrightarrow> no_player1_points (g_joinMatch sid c g)"
  by (auto simp: g_joinMatch_def Let_def npp_simps split: option.splits intro!: npp_upd_match)

lemma npp_submitCombination:
  "no_player1_points g \<Longrightarrow> no_player1_points (g_submitCombination sid comb g)"
  by (auto simp: g_submitCombination_def Let_def npp_simps split: option.splits
      intro!: npp_upd_match)

lemma npp_submitGuess:
  assumes "no_player1_points g" and "g_submitGuess sid gs g = Inr g'"
  shows "no_player1_points g'"
proof (cases "get_match g (matchCode (sockets g sid))")
  case None
  then show ?thesis using assms by (simp add: g_submitGuess_def)
next
  case (Some am)
  obtain a m where am: "am = (a, m)" by (cases am)
  have z: "score1 (scores m) = 0"
    using assms(1) Some am by (auto simp: no_player1_points_def dest: get_match_heap)
  show ?thesis
    using assms Some am z
    by (auto simp: g_submitGuess_def Let_def npp_simps split: option.splits if_splits
        intro!: npp_upd_match)
qed

lemma npp_proposeRematch:
  "no_player1_points g \<Longrightarrow> no_player1_points (g_proposeRematch sid g)"
  by (auto simp: g_proposeRematch_def Let_def npp_simps split: option.splits
      intro!: npp_upd_match)

lemma npp_disconnect: "no_player1_points g \<Longrightarrow> no_player1_points (g_disconnect sid g)"
  by (auto simp: g_disconnect_def Let_def npp_simps split: option.splits)

lemma npp_timers: "no_player1_points (g\<lparr> timers := z \<rparr>) = no_player1_points g"
  by (simp add: no_player1_points_def)

lemma npp_fire: "no_player1_points g \<Longrightarrow> no_player1_points (g_fire h g)"
  by (auto simp: g_fire_def Let_def npp_simps npp_timers prim_sel
      split: option.splits gclosure.splits intro!: npp_upd_match)

lemma npp_step:
  assumes "no_player1_points g" and "gstep e g = Inr g'"
  shows "no_player1_points g'"
  using assms npp_createMatch npp_joinMatch npp_submitCombination npp_submitGuess
    npp_proposeRematch npp_disconnect npp_fire
  by (cases e) auto

lemma npw_createMatch: "no_player1_win g \<Longrightarrow> no_player1_win (g_createMatch sid r g)"
  by (simp add: g_createMatch_def Let_def npw_other npw_emit)

lemma npw_joinMatch: "no_player1_win g \<Longrightarrow> no_player1_win (g_joinMatch sid c g)"
  by (simp add: g_joinMatch_def Let_def npw_other npw_emit split: option.splits)

lemma npw_submitCombination:
  "no_player1_win g \<Longrightarrow> no_player1_win (g_submitCombination sid comb g)"
  by (simp add: g_submitCombination_def Let_def npw_other npw_emit split: option.splits)

lemma npw_submitGuess:
  assumes "no_player1_win g" and "no_player1_points g" and "g_submitGuess sid gs g = Inr g'"
  shows "no_player1_win g'"
proof (cases "get_match g (matchCode (sockets g sid))")
  case None
  then show ?thesis using assms by (simp add: g_submitGuess_def)
next
  case (Some am)
  obtain a m where am: "am = (a, m)" by (cases am)
  have z: "score1 (scores m) = 0"
    using assms(2) Some am by (auto simp: no_player1_points_def dest: get_match_heap)
  have w: "\<And>n. winner_of ((scores m)\<lparr> score2 := n \<rparr>) \<noteq> WinPlayer1"
    using z by (simp add: winner_of_zero)
  have w0: "winner_of (scores m) \<noteq> WinPlayer1"
    using z by (rule winner_of_zero)
  show ?thesis
    using assms(1,3) Some am w w0
    by (auto simp: g_submitGuess_def Let_def npw_other npw_emit split: option.splits if_splits)
qed

lemma npw_proposeRematch: "no_player1_win g \<Longrightarrow> no_player1_win (g_proposeRematch sid g)"
  by (simp add: g_proposeRematch_def Let_def npw_other npw_emit split: option.splits)

lemma npw_disconnect: "no_player1_win g \<Longrightarrow> no_player1_win (g_disconnect sid g)"
  by (simp add: g_disconnect_def Let_def npw_other npw_emit split: option.splits)

lemma npw_fire: "no_player1_win g \<Longrightarrow> no_player1_win (g_fire h g)"
  by (simp add: g_fire_def Let_def npw_other npw_emit prim_sel
      split: option.splits gclosure.splits)

lemma npw_step:
  assumes "no_player1_win g" and "no_player1_points g" and "gstep e g = Inr g'"
  shows "no_player1_win g'"
  using assms npw_createMatch npw_joinMatch npw_submitCombination npw_submitGuess
    npw_proposeRematch npw_disconnect npw_fire
  by (cases e) auto

lemma inv_run:
  assumes "no_player1_points g" and "no_player1_win g" and "grun evs g = Inr g'"
  shows "no_player1_points g' \<and> no_player1_win g'"
  using assms
proof (induction evs arbitrary: g)
  case Nil
  then show ?case by simp
next
  case (Cons e es)
  from Cons.prems(3) obtain g1 where g1: "gstep e g = Inr g1" "grun es g1 = Inr g'"
    by (auto split: sum.splits)
  have "no_player1_points g1" using Cons.prems(1) g1(1) by (rule npp_step)
  moreover have "no_player1_win g1" using Cons.prems(2,1) g1(1) by (rule npw_step)
  ultimately show ?case using Cons.IH g1(2) by blast
qed

lemma inv_init: "no_player1_points ginit" "no_player1_win ginit"
  by (simp_all add: no_player1_points_def no_player1_win_def ginit_def init_server_def)

lemma g_run_ok: "grun g_to_match_end ginit = Inr g_ended"
proof (cases "grun g_to_match_end ginit")
  case (Inl e)
  moreover have "grun g_to_match_end ginit \<noteq> Inl e"
    by (simp add: g_to_match_end_def g_round_def g_eval_defs numeral_2_eq_2[symmetric])
  ultimately show ?thesis by simp
next
  case (Inr s)
  then show ?thesis by (simp add: g_ended_def)
qed

text \<open>
  Claim C10.  In every state the guessing server reaches from its start, whatever the
  events, every match object has score 0 for player 1, and no \<open>matchEnd\<close> notification sent
  so far names player 1 the winner.  A \<open>submitGuess\<close> that is processed (sender is player 2
  of a match with a combination) leaves player 1's score alone and adds to player 2's score
  the number of positions where the guess equals the combination.
\<close>

theorem guessing_player1_never_scores:
  "(grun evs ginit = Inr g \<longrightarrow>
      (\<forall>a m. heap g a = Some m \<longrightarrow> score1 (scores m) = 0)
      \<and> (\<forall>t sc w. (t, MatchEndMsg sc w) \<in> set (outbox g) \<longrightarrow> w = WinPlayer2 \<or> w = Tie))
   \<and> (get_match g0 (matchCode (sockets g0 sid)) = Some (a0, m0) \<and>
        playerRole (sockets g0 sid) = Some Player2 \<and> combination m0 = Some comb \<longrightarrow>
      (\<exists>g1 m1. g_submitGuess sid gs g0 = Inr g1 \<and> heap g1 a0 = Some m1
          \<and> score1 (scores m1) = score1 (scores m0)
          \<and> score2 (scores m1) =
              score2 (scores m0) + length (filter correct (map (guess_at gs comb) [0, 1, 2, 3]))))"
proof (intro conjI impI)
  assume r: "grun evs ginit = Inr g"
  have i: "no_player1_points g \<and> no_player1_win g"
    using inv_init r by (rule inv_run)
  show "\<forall>a m. heap g a = Some m \<longrightarrow> score1 (scores m) = 0"
    using i by (simp add: no_player1_points_def)
  show "\<forall>t sc w. (t, MatchEndMsg sc w) \<in> set (outbox g) \<longrightarrow> w = WinPlayer2 \<or> w = Tie"
  proof (intro allI impI)
    fix t sc w
    assume "(t, MatchEndMsg sc w) \<in> set (outbox g)"
    then have "w \<noteq> WinPlayer1" using i by (auto simp: no_player1_win_def)
    then show "w = WinPlayer2 \<or> w = Tie" by (cases w) simp_all
  qed
next
  assume h: "get_match g0 (matchCode (sockets g0 sid)) = Some (a0, m0) \<and>
        playerRole (sockets g0 sid) = Some Player2 \<and> combination m0 = Some comb"
  then have hm: "heap g0 a0 = Some m0" by (auto dest: get_match_heap)
  show "\<exists>g1 m1. g_submitGuess sid gs g0 = Inr g1 \<and> heap g1 a0 = Some m1
          \<and> score1 (scores m1) = score1 (scores m0)
          \<and> score2 (scores m1) =
              score2 (scores m0) + length (filter correct (map (guess_at gs comb) [0, 1, 2, 3]))"
    using h hm by (simp add: g_submitGuess_def prim_defs Let_def del: filter.simps list.map)
qed

theorem guessing_player1_never_scores_witness:
  "grun g_to_match_end ginit = Inr g_ended
   \<and> heap g_ended 0 = Some g_ended_match
   \<and> score1 (scores g_ended_match) = 0
   \<and> score2 (scores g_ended_match) = 6
   \<and> last (outbox g_ended) =
        (To (Some ''ABCDEF''), MatchEndMsg \<lparr> score1 = 0, score2 = 6 \<rparr> WinPlayer2)
   \<and> (\<exists>g1 m1. g_submitGuess ''b'' [''up'', ''down'', ''up'', ''up''] g_combination_set = Inr g1
         \<and> heap g1 0 = Some m1 \<and> score1 (scores m1) = 0 \<and> score2 (scores m1) = 2)"
proof -
  note T = guessing_player1_never_scores
  have a: "(\<forall>a m. heap g_ended a = Some m \<longrightarrow> score1 (scores m) = 0)
      \<and> (\<forall>t sc w. (t, MatchEndMsg sc w) \<in> set (outbox g_ended) \<longrightarrow> w = WinPlayer2 \<or> w = Tie)"
    using T[where evs = g_to_match_end and g = g_ended, THEN conjunct1] g_run_ok by blast
  then have z: "score1 (scores g_ended_match) = 0"
    using g_ended_facts(2) by blast
  have pre: "get_match g_combination_set (matchCode (sockets g_combination_set ''b'')) =
        Some (0, (new_gmatch ''ABCDEF'' ''a'')\<lparr> player2 := Some ''b'', state := Countdown,
                    combination := Some [''up'', ''down'', ''left'', ''right''] \<rparr>)
      \<and> playerRole (sockets g_combination_set ''b'') = Some Player2
      \<and> combination ((new_gmatch ''ABCDEF'' ''a'')\<lparr> player2 := Some ''b'', state := Countdown,
                    combination := Some [''up'', ''down'', ''left'', ''right''] \<rparr>) =
          Some [''up'', ''down'', ''left'', ''right'']"
    by (simp add: g_combination_set_def g_joined_def g_waiting_def g_eval_defs)
  have b: "\<exists>g1 m1. g_submitGuess ''b'' [''up'', ''down'', ''up'', ''up''] g_combination_set = Inr g1
         \<and> heap g1 0 = Some m1 \<and> score1 (scores m1) = 0 \<and> score2 (scores m1) = 2"
    using T[where ?g0.0 = g_combination_set and sid = "''b''" and ?a0.0 = 0
        and gs = "[''up'', ''down'', ''up'', ''up'']", THEN conjunct2, rule_format, OF pre]
    by (auto simp: new_gmatch_def guess_at_def js_nth_def)
  show ?thesis
    using g_run_ok g_ended_facts(2,6) z b by (simp add: g_ended_match_def)
qed

end
